theory Spec2Isabelle
  imports Main "HOL-Library.Sublist"
begin

section \<open>The page: DOM, capabilities of the rendering engine, module state\<close>

text \<open>
  The module under study is \<^verbatim>\<open>src/faq/index.ts\<close> with its helpers
  (\<^verbatim>\<open>utils/helpers.ts\<close>, \<^verbatim>\<open>faq/config.ts\<close>, \<^verbatim>\<open>faq/types.ts\<close>).
  Elements are object references in the source; here an element is a number, and
  everything the source reads or writes through such a reference (attributes, the class
  list, inline style, listeners) is a map of the \<open>page\<close> record keyed by that number.
  The shape of the document is a tree of \<open>node\<close>s.
\<close>

type_synonym elem = nat

datatype node = TextNode string | ElemNode elem "node list"

subsection \<open>\<^verbatim>\<open>types.ts\<close>\<close>

text \<open>
  Objects have identity in the source: \<^verbatim>\<open>sibling !== item\<close> and
  \<^verbatim>\<open>items.includes(item)\<close> compare references, and every call of \<^verbatim>\<open>parseItem\<close>
  makes a new object. The record of an item therefore carries, as \<open>origin\<close>, where the
  parser made it (the number of the group and the position among the group's items), so
  that two objects wrapping the same element (an item below nested groups is parsed once
  for each group) are different records.
\<close>

record FaqItemElements =
  origin :: "nat \<times> nat"
  item :: elem
  trigger :: "elem option"
  title :: "elem option"
  content :: "elem option"
  iconOpen :: "elem option"
  iconClose :: "elem option"

record FaqClasses =
  activeClass :: string
  highlightClass :: string
  currentHighlightClass :: string

record FaqTiming =
  collapseDuration :: int
  iconTransitionDuration :: int
  searchDebounce :: int

record FaqColors =
  highlightBackground :: string
  currentHighlightBackground :: string

record FaqConfig =
  classes :: FaqClasses
  timing :: FaqTiming
  colors :: FaqColors
  floatingSearch :: bool

record FaqGroupConfig =
  accordion :: bool
  defaultOpen :: "int option"
  collapseDuration :: int

record FaqGroup =
  groupEl :: elem
  items :: "FaqItemElements list"
  config :: FaqGroupConfig

record SearchState =
  marks :: "elem list"
  currentIndex :: int
  searchOpenedItems :: "elem set"

text \<open>The \<^verbatim>\<open>source\<close> argument of \<^verbatim>\<open>setItemState\<close>: \<^verbatim>\<open>'user' | 'search'\<close>.\<close>

datatype source = User | Search

text \<open>
  The three custom events, with their \<^verbatim>\<open>detail\<close>: \<^verbatim>\<open>cur-faq:open\<close> and
  \<^verbatim>\<open>cur-faq:close\<close> carry the item element, \<^verbatim>\<open>cur-faq:search\<close> the query and the
  match count. All three are created with \<^verbatim>\<open>bubbles: true\<close>.
\<close>

datatype faq_event = FaqOpen elem | FaqClose elem | FaqSearch string nat

text \<open>
  The closures the module registers with \<^verbatim>\<open>addEventListener\<close>. A closure is
  represented by what it captured.
\<close>

datatype listener =
    HandleToggle FaqItemElements FaqGroup
  | HandleKeydown FaqItemElements FaqGroup
  | SearchKeydown
  | DebouncedSearch bool
  | HandlePrev
  | HandleNext
  | ExpandEnd nat
  | CollapseEnd nat

text \<open>
  The object \<^verbatim>\<open>initFaq\<close> returns is a bundle of closures over the values below;
  the record holds the captured values, and each method is a function taking the record.
  \<open>floating\<close> holds what \<^verbatim>\<open>createFloatingPanel\<close> returned (the variables
  \<^verbatim>\<open>floatingPanel\<close>, \<^verbatim>\<open>counterEl\<close>, \<^verbatim>\<open>floatingInput\<close> and the two buttons its cleanup
  captured).
\<close>

record FloatingPanel =
  fpPanel :: elem
  fpCounter :: elem
  fpInput :: elem
  fpPrevBtn :: elem
  fpNextBtn :: elem

record FaqInstance =
  instItems :: "FaqItemElements list"
  instConfig :: FaqConfig
  instGroups :: "FaqGroup list"
  styleEl :: elem
  mainInput :: "elem option"
  floating :: "FloatingPanel option"

record page =
  doc :: node
  headEl :: elem
  bodyEl :: elem
  attrs :: "elem \<Rightarrow> string \<rightharpoonup> string"
  classList :: "elem \<Rightarrow> string set"
  style :: "elem \<Rightarrow> string \<rightharpoonup> string"
  tagName :: "elem \<Rightarrow> string"
  listeners :: "(elem \<times> string \<times> listener) list"
  animationTimestamps :: "elem \<rightharpoonup> nat"
  dispatched :: "(elem \<times> faq_event) list"
  scrolledTo :: "elem list"
  searchState :: SearchState
  curFaqInitialized :: bool
  curFaq :: "FaqInstance option"
  nextElem :: elem

text \<open>
  What the rendering engine answers when the script asks. None of it is computed by the
  module, so each answer is a parameter, free to depend on the whole page:
  \<^verbatim>\<open>getComputedStyle(el).display\<close> and \<^verbatim>\<open>.visibility\<close>, the size of
  \<^verbatim>\<open>getBoundingClientRect()\<close>, \<^verbatim>\<open>scrollHeight\<close>, \<^verbatim>\<open>Date.now()\<close> and the
  eight characters \<^verbatim>\<open>Math.random().toString(36).slice(2, 10)\<close> yields.
  The rectangle's sides are fractional in a browser; only their sign is ever tested.
  \<open>parseSelector\<close> is the engine's reading of a selector text that is not one of the forms
  modelled below: \<open>None\<close> when \<^verbatim>\<open>querySelectorAll\<close> throws a \<^verbatim>\<open>SyntaxError\<close> for it,
  otherwise the elements it selects on a page.
\<close>

record browser =
  computedDisplay :: "page \<Rightarrow> elem \<Rightarrow> string"
  computedVisibility :: "page \<Rightarrow> elem \<Rightarrow> string"
  rectWidth :: "page \<Rightarrow> elem \<Rightarrow> int"
  rectHeight :: "page \<Rightarrow> elem \<Rightarrow> int"
  scrollHeight :: "page \<Rightarrow> elem \<Rightarrow> nat"
  dateNow :: "page \<Rightarrow> nat"
  randomSuffix :: "page \<Rightarrow> string"
  parseSelector :: "string \<Rightarrow> (page \<Rightarrow> elem \<Rightarrow> bool) option"

subsection \<open>\<^verbatim>\<open>config.ts\<close>: attribute and role names\<close>

definition ATTR_element :: string where "ATTR_element = ''cur-faq-element''"
definition ATTR_activeClass :: string where "ATTR_activeClass = ''cur-faq-activeclass''"
definition ATTR_highlightClass :: string where "ATTR_highlightClass = ''cur-faq-highlightclass''"
definition ATTR_currentHighlightClass :: string where
  "ATTR_currentHighlightClass = ''cur-faq-currenthighlightclass''"
definition ATTR_floatingSearch :: string where "ATTR_floatingSearch = ''cur-faq-floatingsearch''"
definition ATTR_collapseDuration :: string where
  "ATTR_collapseDuration = ''cur-faq-collapse-duration''"
definition ATTR_searchDebounce :: string where "ATTR_searchDebounce = ''cur-faq-search-debounce''"
definition ATTR_accordion :: string where "ATTR_accordion = ''cur-faq-accordion''"
definition ATTR_defaultOpen :: string where "ATTR_defaultOpen = ''cur-faq-default-open''"
definition ATTR_dataOpen :: string where "ATTR_dataOpen = ''data-faq-open''"
definition ATTR_dataOpenedBySearch :: string where
  "ATTR_dataOpenedBySearch = ''data-opened-by-search''"

definition ROLES_group :: string where "ROLES_group = ''group''"
definition ROLES_item :: string where "ROLES_item = ''item''"
definition ROLES_trigger :: string where "ROLES_trigger = ''trigger''"
definition ROLES_title :: string where "ROLES_title = ''title''"
definition ROLES_content :: string where "ROLES_content = ''content''"
definition ROLES_iconOpen :: string where "ROLES_iconOpen = ''icon-open''"
definition ROLES_iconClose :: string where "ROLES_iconClose = ''icon-close''"
definition ROLES_search :: string where "ROLES_search = ''search''"
definition ROLES_emptyState :: string where "ROLES_emptyState = ''empty-state''"

definition CSS_VARS_collapseDuration :: string where
  "CSS_VARS_collapseDuration = ''--cur-faq-collapse-duration''"

subsection \<open>DOM primitives on the page\<close>

definition getAttribute :: "page \<Rightarrow> elem \<Rightarrow> string \<Rightarrow> string option" where
  "getAttribute s e a = attrs s e a"

definition hasAttribute :: "page \<Rightarrow> elem \<Rightarrow> string \<Rightarrow> bool" where
  "hasAttribute s e a = (attrs s e a \<noteq> None)"

definition setAttribute :: "elem \<Rightarrow> string \<Rightarrow> string \<Rightarrow> page \<Rightarrow> page" where
  "setAttribute e a v s = s\<lparr>attrs := (attrs s)(e := (attrs s e)(a \<mapsto> v))\<rparr>"

definition removeAttribute :: "elem \<Rightarrow> string \<Rightarrow> page \<Rightarrow> page" where
  "removeAttribute e a s = s\<lparr>attrs := (attrs s)(e := (attrs s e)(a := None))\<rparr>"

text \<open>
  \<^verbatim>\<open>classList.toggle(c, force)\<close>, \<^verbatim>\<open>classList.add\<close>, \<^verbatim>\<open>classList.remove\<close> on a token
  the token list accepts.
\<close>

definition classToggle :: "elem \<Rightarrow> string \<Rightarrow> bool \<Rightarrow> page \<Rightarrow> page" where
  "classToggle e c force s =
     s\<lparr>classList := (classList s)(e := (if force then insert c (classList s e)
                                          else classList s e - {c}))\<rparr>"

definition classAdd :: "elem \<Rightarrow> string \<Rightarrow> page \<Rightarrow> page" where
  "classAdd e c s = s\<lparr>classList := (classList s)(e := insert c (classList s e))\<rparr>"

definition classRemove :: "elem \<Rightarrow> string \<Rightarrow> page \<Rightarrow> page" where
  "classRemove e c s = s\<lparr>classList := (classList s)(e := classList s e - {c})\<rparr>"

text \<open>
  The three methods throw for a token that is empty (\<^verbatim>\<open>SyntaxError\<close>) or contains ASCII
  white space (\<^verbatim>\<open>InvalidCharacterError\<close>). A call that throws has no page to return:
  \<open>None\<close>. The module passes the configured highlight classes, which \<^verbatim>\<open>resolveConfig\<close>
  does not validate, through \<open>classListAdd\<close> and \<open>classListRemove\<close>, and the active class
  first of all through the \<open>classListRemove\<close> of \<^verbatim>\<open>initFaq\<close>. The tokens of
  \<open>setIconVisibility\<close> are literals, and \<open>setItemState\<close> toggles the active class only
  on items with a content element, for which \<^verbatim>\<open>initFaq\<close> has called
  \<^verbatim>\<open>classList.remove\<close> with the same token before any listener or instance exists;
  there \<open>classToggle\<close> is used as it is.
\<close>

definition asciiWhitespace :: "char \<Rightarrow> bool" where
  "asciiWhitespace c = (c \<in> set [CHR 0x09, CHR 0x0A, CHR 0x0C, CHR 0x0D, CHR '' ''])"

definition validToken :: "string \<Rightarrow> bool" where
  "validToken c = (c \<noteq> [] \<and> \<not> list_ex asciiWhitespace c)"

definition classListAdd :: "elem \<Rightarrow> string \<Rightarrow> page \<Rightarrow> page option" where
  "classListAdd e c s = (if validToken c then Some (classAdd e c s) else None)"

definition classListRemove :: "elem \<Rightarrow> string \<Rightarrow> page \<Rightarrow> page option" where
  "classListRemove e c s = (if validToken c then Some (classRemove e c s) else None)"

text \<open>
  Assigning \<^verbatim>\<open>className\<close> never throws: the class list becomes the set of the maximal
  runs of the string without ASCII white space.
\<close>

fun tokensFrom :: "string \<Rightarrow> string \<Rightarrow> string list" where
  "tokensFrom cur [] = (if cur = [] then [] else [cur])"
| "tokensFrom cur (c # cs) =
     (if asciiWhitespace c
      then (if cur = [] then tokensFrom [] cs else cur # tokensFrom [] cs)
      else tokensFrom (cur @ [c]) cs)"

definition setClassName :: "elem \<Rightarrow> string \<Rightarrow> page \<Rightarrow> page" where
  "setClassName e str s = s\<lparr>classList := (classList s)(e := set (tokensFrom [] str))\<rparr>"

text \<open>
  An inline style property; assigning the empty string removes the declaration, as
  \<^verbatim>\<open>el.style.height = ''\<close> does.
\<close>

definition setStyle :: "elem \<Rightarrow> string \<Rightarrow> string \<Rightarrow> page \<Rightarrow> page" where
  "setStyle e p v s =
     s\<lparr>style := (style s)(e := (style s e)(p := (if v = [] then None else Some v)))\<rparr>"

definition addEventListener :: "elem \<Rightarrow> string \<Rightarrow> listener \<Rightarrow> page \<Rightarrow> page" where
  "addEventListener e ty l s = s\<lparr>listeners := listeners s @ [(e, ty, l)]\<rparr>"

definition removeEventListener :: "elem \<Rightarrow> string \<Rightarrow> listener \<Rightarrow> page \<Rightarrow> page" where
  "removeEventListener e ty l s = s\<lparr>listeners := remove1 (e, ty, l) (listeners s)\<rparr>"

definition dispatchEvent :: "elem \<Rightarrow> faq_event \<Rightarrow> page \<Rightarrow> page" where
  "dispatchEvent e ev s = s\<lparr>dispatched := dispatched s @ [(e, ev)]\<rparr>"

text \<open>\<^verbatim>\<open>String(b)\<close> for a boolean, and the decimal numeral of a template literal.\<close>

definition String_bool :: "bool \<Rightarrow> string" where
  "String_bool b = (if b then ''true'' else ''false'')"

fun string_of_nat :: "nat \<Rightarrow> string" where
  "string_of_nat n =
     (if n < 10 then [''0123456789'' ! n]
      else string_of_nat (n div 10) @ [''0123456789'' ! (n mod 10)])"

declare string_of_nat.simps [simp del]

definition string_of_int :: "int \<Rightarrow> string" where
  "string_of_int i = (if i < 0 then CHR ''-'' # string_of_nat (nat (- i)) else string_of_nat (nat i))"

section \<open>The document tree\<close>

text \<open>
  Elements in document order, the text of a subtree (\<^verbatim>\<open>textContent\<close>), the first node
  with a given identity, and the replacement of an element's children. Every element of a
  document occurs once in its tree; where that matters a theorem says so.
\<close>

fun elemsOf :: "node \<Rightarrow> elem list" where
  "elemsOf (TextNode str) = []"
| "elemsOf (ElemNode e ks) = e # concat (map elemsOf ks)"

fun textOf :: "node \<Rightarrow> string" where
  "textOf (TextNode str) = str"
| "textOf (ElemNode e ks) = concat (map textOf ks)"

fun findNode :: "elem \<Rightarrow> node \<Rightarrow> node option"
  and findNodes :: "elem \<Rightarrow> node list \<Rightarrow> node option" where
  "findNode e (TextNode str) = None"
| "findNode e (ElemNode x ks) = (if x = e then Some (ElemNode x ks) else findNodes e ks)"
| "findNodes e [] = None"
| "findNodes e (k # ks) = (case findNode e k of Some n \<Rightarrow> Some n | None \<Rightarrow> findNodes e ks)"

fun updateChildren :: "elem \<Rightarrow> (node list \<Rightarrow> node list) \<Rightarrow> node \<Rightarrow> node" where
  "updateChildren e f (TextNode str) = TextNode str"
| "updateChildren e f (ElemNode x ks) =
     (if x = e then ElemNode x (f ks) else ElemNode x (map (updateChildren e f) ks))"

definition rootId :: "node \<Rightarrow> elem option" where
  "rootId n = (case n of TextNode str \<Rightarrow> None | ElemNode x ks \<Rightarrow> Some x)"

definition childrenOf :: "node \<Rightarrow> node list" where
  "childrenOf n = (case n of TextNode str \<Rightarrow> [] | ElemNode e ks \<Rightarrow> ks)"

definition textContent :: "page \<Rightarrow> elem \<Rightarrow> string" where
  "textContent s e = (case findNode e (doc s) of None \<Rightarrow> [] | Some n \<Rightarrow> textOf n)"

definition setTextContent :: "elem \<Rightarrow> string \<Rightarrow> page \<Rightarrow> page" where
  "setTextContent e str s =
     s\<lparr>doc := updateChildren e (\<lambda>ks. if str = [] then [] else [TextNode str]) (doc s)\<rparr>"

definition document_querySelectorAll :: "page \<Rightarrow> (page \<Rightarrow> elem \<Rightarrow> bool) \<Rightarrow> elem list" where
  "document_querySelectorAll s sel = filter (sel s) (elemsOf (doc s))"

fun descendantsOf :: "elem \<Rightarrow> node \<Rightarrow> elem list" where
  "descendantsOf root (TextNode str) = []"
| "descendantsOf root (ElemNode x ks) =
     (if x = root then concat (map elemsOf ks) else concat (map (descendantsOf root) ks))"

definition querySelectorAll :: "page \<Rightarrow> elem \<Rightarrow> (page \<Rightarrow> elem \<Rightarrow> bool) \<Rightarrow> elem list" where
  "querySelectorAll s root sel = filter (sel s) (descendantsOf root (doc s))"

definition querySelector :: "page \<Rightarrow> elem \<Rightarrow> (page \<Rightarrow> elem \<Rightarrow> bool) \<Rightarrow> elem option" where
  "querySelector s root sel =
     (case querySelectorAll s root sel of [] \<Rightarrow> None | e # es \<Rightarrow> Some e)"

definition document_querySelector :: "page \<Rightarrow> (page \<Rightarrow> elem \<Rightarrow> bool) \<Rightarrow> elem option" where
  "document_querySelector s sel =
     (case document_querySelectorAll s sel of [] \<Rightarrow> None | e # es \<Rightarrow> Some e)"


text \<open>
  Selectors are predicates on an element of a page: \<^verbatim>\<open>[attr="value"]\<close>, \<^verbatim>\<open>#id\<close> and the
  selector for a text input inside the search wrapper have fixed texts.
\<close>

definition hasRole :: "string \<Rightarrow> page \<Rightarrow> elem \<Rightarrow> bool" where
  "hasRole r s e = (attrs s e ATTR_element = Some r)"

text \<open>
  The selectors \<^verbatim>\<open>`.${cls}`\<close> and \<^verbatim>\<open>`mark.${cls}`\<close> are built from a configured class
  without escaping. When \<open>cls\<close> is an identifier written with ASCII letters, digits,
  \<^verbatim>\<open>_\<close> and \<^verbatim>\<open>-\<close> (not starting with a digit, nor with a hyphen followed by a
  digit, and not a lone hyphen), the text is the class selector for the token \<open>cls\<close>:
  \<open>byClass\<close>, and \<open>markWithClass\<close> for \<^verbatim>\<open>mark\<close> elements (class names compared as
  they are, as in a document that is not in quirks mode). For every other \<open>cls\<close> the text
  means what the engine makes of it: \<open>parseSelector\<close>.
\<close>

definition nameStart :: "char \<Rightarrow> bool" where
  "nameStart c =
     (c \<in> set ''abcdefghijklmnopqrstuvwxyzABCDEFGHIJKLMNOPQRSTUVWXYZ_'')"

definition nameChar :: "char \<Rightarrow> bool" where
  "nameChar c = (nameStart c \<or> c \<in> set ''0123456789-'')"

definition cssIdent :: "string \<Rightarrow> bool" where
  "cssIdent cls =
     (list_all nameChar cls \<and>
      (case cls of
         [] \<Rightarrow> False
       | c # cs \<Rightarrow>
           nameStart c \<or>
           (c = CHR ''-'' \<and> (case cs of [] \<Rightarrow> False | d # ds \<Rightarrow> nameStart d \<or> d = CHR ''-''))))"

definition byClass :: "string \<Rightarrow> page \<Rightarrow> elem \<Rightarrow> bool" where
  "byClass c s e = (c \<in> classList s e)"

definition markWithClass :: "string \<Rightarrow> page \<Rightarrow> elem \<Rightarrow> bool" where
  "markWithClass c s e = (tagName s e = ''MARK'' \<and> c \<in> classList s e)"

definition classSelector :: "browser \<Rightarrow> string \<Rightarrow> (page \<Rightarrow> elem \<Rightarrow> bool) option" where
  "classSelector B cls =
     (if cssIdent cls then Some (byClass cls) else parseSelector B (''.'' @ cls))"

definition markSelector :: "browser \<Rightarrow> string \<Rightarrow> (page \<Rightarrow> elem \<Rightarrow> bool) option" where
  "markSelector B cls =
     (if cssIdent cls then Some (markWithClass cls) else parseSelector B (''mark.'' @ cls))"

definition textInput :: "page \<Rightarrow> elem \<Rightarrow> bool" where
  "textInput s e =
     (tagName s e = ''INPUT'' \<and> (attrs s e ''type'' = Some ''search'' \<or> attrs s e ''type'' = Some ''text''))"

definition byId :: "string \<Rightarrow> page \<Rightarrow> elem \<Rightarrow> bool" where
  "byId i s e = (attrs s e ''id'' = Some i)"

text \<open>
  \<^verbatim>\<open>document.createElement\<close>: the new element takes the next unused identity and starts
  without attributes, classes or inline style. \<^verbatim>\<open>appendChild\<close> adds a subtree as last
  child; \<^verbatim>\<open>el.remove()\<close> takes an element and its subtree out of the tree.
\<close>

definition createElement :: "string \<Rightarrow> page \<Rightarrow> elem \<times> page" where
  "createElement tag s =
     (nextElem s,
      s\<lparr>nextElem := Suc (nextElem s),
        tagName := (tagName s)(nextElem s := tag),
        attrs := (attrs s)(nextElem s := Map.empty),
        classList := (classList s)(nextElem s := {}),
        style := (style s)(nextElem s := Map.empty)\<rparr>)"

definition appendChild :: "elem \<Rightarrow> node \<Rightarrow> page \<Rightarrow> page" where
  "appendChild parent child s = s\<lparr>doc := updateChildren parent (\<lambda>ks. ks @ [child]) (doc s)\<rparr>"

definition isElem :: "elem \<Rightarrow> node \<Rightarrow> bool" where
  "isElem e n = (case n of TextNode str \<Rightarrow> False | ElemNode x ks \<Rightarrow> x = e)"

fun removeNode :: "elem \<Rightarrow> node \<Rightarrow> node" where
  "removeNode e (TextNode str) = TextNode str"
| "removeNode e (ElemNode x ks) =
     ElemNode x (map (removeNode e) (filter (\<lambda>k. \<not> isElem e k) ks))"

definition removeElement :: "elem \<Rightarrow> page \<Rightarrow> page" where
  "removeElement e s = s\<lparr>doc := removeNode e (doc s)\<rparr>"

text \<open>
  \<^verbatim>\<open>Node.normalize()\<close>: in the whole subtree, adjacent text nodes are merged and empty
  ones dropped.
\<close>

fun mergeText :: "node list \<Rightarrow> node list" where
  "mergeText [] = []"
| "mergeText (TextNode a # TextNode b # ks) = mergeText (TextNode (a @ b) # ks)"
| "mergeText (TextNode a # ks) = (if a = [] then mergeText ks else TextNode a # mergeText ks)"
| "mergeText (ElemNode e cs # ks) = ElemNode e cs # mergeText ks"

fun normalizeNode :: "node \<Rightarrow> node" where
  "normalizeNode (TextNode str) = TextNode str"
| "normalizeNode (ElemNode x ks) = ElemNode x (mergeText (map normalizeNode ks))"

text \<open>A \<^verbatim>\<open>forEach\<close> whose body may fail to return.\<close>

fun forEachOpt :: "('a \<Rightarrow> 's \<Rightarrow> 's option) \<Rightarrow> 'a list \<Rightarrow> 's \<Rightarrow> 's option" where
  "forEachOpt f [] s = Some s"
| "forEachOpt f (x # xs) s = (case f x s of None \<Rightarrow> None | Some s' \<Rightarrow> forEachOpt f xs s')"

section \<open>\<^verbatim>\<open>utils/helpers.ts\<close>\<close>

text \<open>
  A string is the list of its code units, and the characters of the model are the code
  units \<^verbatim>\<open>U+0000\<close> to \<^verbatim>\<open>U+00FF\<close>. On these, \<^verbatim>\<open>trim\<close> removes the white space and
  line terminators of the language (tab, line feed, vertical tab, form feed, carriage
  return, space and the no-break space \<^verbatim>\<open>U+00A0\<close>), and \<^verbatim>\<open>toLowerCase\<close> maps
  \<^verbatim>\<open>A\<close> to \<^verbatim>\<open>Z\<close>, \<^verbatim>\<open>U+00C0\<close> to \<^verbatim>\<open>U+00D6\<close> and \<^verbatim>\<open>U+00D8\<close> to \<^verbatim>\<open>U+00DE\<close> to the
  code unit 32 above and leaves every other one as it is.
\<close>

definition isSpace :: "char \<Rightarrow> bool" where
  "isSpace c =
     (c \<in> set [CHR '' '', CHR 0x09, CHR 0x0A, CHR 0x0B, CHR 0x0C, CHR 0x0D, CHR 0xA0])"

definition upperCaseLetters :: string where
  "upperCaseLetters =
     ''ABCDEFGHIJKLMNOPQRSTUVWXYZ'' @
     [CHR 0xC0, CHR 0xC1, CHR 0xC2, CHR 0xC3, CHR 0xC4, CHR 0xC5, CHR 0xC6, CHR 0xC7,
      CHR 0xC8, CHR 0xC9, CHR 0xCA, CHR 0xCB, CHR 0xCC, CHR 0xCD, CHR 0xCE, CHR 0xCF,
      CHR 0xD0, CHR 0xD1, CHR 0xD2, CHR 0xD3, CHR 0xD4, CHR 0xD5, CHR 0xD6,
      CHR 0xD8, CHR 0xD9, CHR 0xDA, CHR 0xDB, CHR 0xDC, CHR 0xDD, CHR 0xDE]"

definition lowerCaseLetters :: string where
  "lowerCaseLetters =
     ''abcdefghijklmnopqrstuvwxyz'' @
     [CHR 0xE0, CHR 0xE1, CHR 0xE2, CHR 0xE3, CHR 0xE4, CHR 0xE5, CHR 0xE6, CHR 0xE7,
      CHR 0xE8, CHR 0xE9, CHR 0xEA, CHR 0xEB, CHR 0xEC, CHR 0xED, CHR 0xEE, CHR 0xEF,
      CHR 0xF0, CHR 0xF1, CHR 0xF2, CHR 0xF3, CHR 0xF4, CHR 0xF5, CHR 0xF6,
      CHR 0xF8, CHR 0xF9, CHR 0xFA, CHR 0xFB, CHR 0xFC, CHR 0xFD, CHR 0xFE]"

definition toLowerChar :: "char \<Rightarrow> char" where
  "toLowerChar c =
     (case map_of (zip upperCaseLetters lowerCaseLetters) c of
        None \<Rightarrow> c
      | Some l \<Rightarrow> l)"

definition toLowerCase :: "string \<Rightarrow> string" where
  "toLowerCase str = map toLowerChar str"

definition trim :: "string \<Rightarrow> string" where
  "trim str = rev (dropWhile isSpace (rev (dropWhile isSpace str)))"

definition normalizeText :: "string \<Rightarrow> string" where
  "normalizeText text = trim (toLowerCase text)"

text \<open>
  \<^verbatim>\<open>String.prototype.indexOf(q, pos)\<close> with \<open>None\<close> for \<^verbatim>\<open>-1\<close>, \<^verbatim>\<open>includes\<close> (here \<open>stringIncludes\<close>), and
  \<^verbatim>\<open>slice\<close> with one and with two arguments (both clamp to the string).
\<close>

fun findAt :: "string \<Rightarrow> string \<Rightarrow> nat \<Rightarrow> nat option" where
  "findAt [] q i = (if q = [] then Some i else None)"
| "findAt (c # cs) q i = (if take (length q) (c # cs) = q then Some i else findAt cs q (Suc i))"

definition indexOf :: "string \<Rightarrow> string \<Rightarrow> nat \<Rightarrow> nat option" where
  "indexOf str q pos = (let p = min pos (length str) in findAt (drop p str) q p)"

definition stringIncludes :: "string \<Rightarrow> string \<Rightarrow> bool" where
  "stringIncludes str q = (indexOf str q 0 \<noteq> None)"

definition sliceFrom :: "string \<Rightarrow> nat \<Rightarrow> string" where
  "sliceFrom str a = drop a str"

definition slice :: "string \<Rightarrow> nat \<Rightarrow> nat \<Rightarrow> string" where
  "slice str a b = take (b - a) (drop a str)"

text \<open>
  \<^verbatim>\<open>ensureId\<close> returns the element's id, assigning
  \<^verbatim>\<open>prefix + '-' + random suffix\<close> first when the id is empty or absent.
\<close>

definition ensureId :: "browser \<Rightarrow> elem \<Rightarrow> string \<Rightarrow> page \<Rightarrow> string \<times> page" where
  "ensureId B element pre s =
     (case attrs s element ''id'' of
        Some i \<Rightarrow> if i \<noteq> [] then (i, s)
                  else (pre @ ''-'' @ randomSuffix B s,
                        setAttribute element ''id'' (pre @ ''-'' @ randomSuffix B s) s)
      | None \<Rightarrow> (pre @ ''-'' @ randomSuffix B s,
                 setAttribute element ''id'' (pre @ ''-'' @ randomSuffix B s) s))"

text \<open>\<^verbatim>\<open>smoothScrollTo\<close>: either branch of the \<^verbatim>\<open>try\<close> scrolls the element into view.\<close>

definition smoothScrollTo :: "elem \<Rightarrow> page \<Rightarrow> page" where
  "smoothScrollTo el s = s\<lparr>scrolledTo := scrolledTo s @ [el]\<rparr>"


section \<open>\<^verbatim>\<open>faq/config.ts\<close>: reading the configuration\<close>

definition readAttr :: "page \<Rightarrow> elem option \<Rightarrow> string \<Rightarrow> string option" where
  "readAttr s el attr =
     (case el of
        None \<Rightarrow> None
      | Some e \<Rightarrow>
          (case attrs s e attr of
             None \<Rightarrow> None
           | Some val \<Rightarrow> if val \<noteq> [] \<and> trim val \<noteq> [] then Some (trim val) else None))"

text \<open>
  \<^verbatim>\<open>parseInt(val, 10)\<close>: leading white space, an optional sign, then the longest run of
  decimal digits; \<open>None\<close> stands for \<^verbatim>\<open>NaN\<close>.
\<close>

definition isDigit :: "char \<Rightarrow> bool" where
  "isDigit c = (c \<in> set ''0123456789'')"

definition digitValue :: "char \<Rightarrow> nat" where
  "digitValue c = (case map_of (zip ''0123456789'' [0, 1, 2, 3, 4, 5, 6, 7, 8, 9]) c of
                     None \<Rightarrow> 0 | Some d \<Rightarrow> d)"

definition parseInt :: "string \<Rightarrow> int option" where
  "parseInt val =
     (let str = dropWhile isSpace val;
          neg = (str \<noteq> [] \<and> hd str = CHR ''-'');
          rest = (if str \<noteq> [] \<and> (hd str = CHR ''-'' \<or> hd str = CHR ''+'') then tl str else str);
          ds = takeWhile isDigit rest
      in if ds = [] then None
         else Some ((if neg then - 1 else 1) * int (foldl (\<lambda>acc c. 10 * acc + digitValue c) 0 ds)))"

definition readIntAttr :: "page \<Rightarrow> elem option \<Rightarrow> string \<Rightarrow> int option" where
  "readIntAttr s el attr =
     (case readAttr s el attr of None \<Rightarrow> None | Some val \<Rightarrow> parseInt val)"

definition readBoolAttr :: "page \<Rightarrow> elem option \<Rightarrow> string \<Rightarrow> bool option" where
  "readBoolAttr s el attr =
     (case readAttr s el attr of None \<Rightarrow> None | Some val \<Rightarrow> Some (val = ''true''))"

definition DEFAULTS :: FaqConfig where
  "DEFAULTS =
     \<lparr>classes = \<lparr>activeClass = ''is-active'', highlightClass = ''faq-search-highlight'',
                 currentHighlightClass = ''faq-search-current''\<rparr>,
      timing = \<lparr>FaqTiming.collapseDuration = 250, iconTransitionDuration = 150,
                searchDebounce = 300\<rparr>,
      colors = \<lparr>highlightBackground = ''#eef'', currentHighlightBackground = ''#5c6ac4''\<rparr>,
      floatingSearch = False\<rparr>"

definition GROUP_DEFAULTS :: FaqGroupConfig where
  "GROUP_DEFAULTS =
     \<lparr>accordion = False, defaultOpen = None,
      collapseDuration = FaqTiming.collapseDuration (timing DEFAULTS)\<rparr>"

definition resolveConfig :: "page \<Rightarrow> FaqConfig" where
  "resolveConfig s =
     (let searchEl = document_querySelector s (hasRole ROLES_search)
      in \<lparr>classes =
            \<lparr>activeClass = (case readAttr s searchEl ATTR_activeClass of
                              None \<Rightarrow> activeClass (classes DEFAULTS) | Some v \<Rightarrow> v),
             highlightClass = (case readAttr s searchEl ATTR_highlightClass of
                              None \<Rightarrow> highlightClass (classes DEFAULTS) | Some v \<Rightarrow> v),
             currentHighlightClass = (case readAttr s searchEl ATTR_currentHighlightClass of
                              None \<Rightarrow> currentHighlightClass (classes DEFAULTS) | Some v \<Rightarrow> v)\<rparr>,
          timing =
            \<lparr>FaqTiming.collapseDuration = FaqTiming.collapseDuration (timing DEFAULTS),
             iconTransitionDuration = iconTransitionDuration (timing DEFAULTS),
             searchDebounce = (case readIntAttr s searchEl ATTR_searchDebounce of
                              None \<Rightarrow> searchDebounce (timing DEFAULTS) | Some v \<Rightarrow> v)\<rparr>,
          colors =
            \<lparr>highlightBackground = highlightBackground (colors DEFAULTS),
             currentHighlightBackground = currentHighlightBackground (colors DEFAULTS)\<rparr>,
          floatingSearch = (case readBoolAttr s searchEl ATTR_floatingSearch of
                              None \<Rightarrow> floatingSearch DEFAULTS | Some v \<Rightarrow> v)\<rparr>)"

definition resolveGroupConfig :: "page \<Rightarrow> elem option \<Rightarrow> FaqGroupConfig" where
  "resolveGroupConfig s g =
     \<lparr>accordion = (case readBoolAttr s g ATTR_accordion of
                     None \<Rightarrow> accordion GROUP_DEFAULTS | Some v \<Rightarrow> v),
      defaultOpen = (case readIntAttr s g ATTR_defaultOpen of
                     None \<Rightarrow> defaultOpen GROUP_DEFAULTS | Some v \<Rightarrow> Some v),
      collapseDuration = (case readIntAttr s g ATTR_collapseDuration of
                     None \<Rightarrow> collapseDuration GROUP_DEFAULTS | Some v \<Rightarrow> v)\<rparr>"

section \<open>DOM parsing\<close>

definition parseItem :: "page \<Rightarrow> nat \<times> nat \<Rightarrow> elem \<Rightarrow> FaqItemElements" where
  "parseItem s org i =
     \<lparr>origin = org,
      item = i,
      trigger = querySelector s i (hasRole ROLES_trigger),
      title = querySelector s i (hasRole ROLES_title),
      content = querySelector s i (hasRole ROLES_content),
      iconOpen = querySelector s i (hasRole ROLES_iconOpen),
      iconClose = querySelector s i (hasRole ROLES_iconClose)\<rparr>"

text \<open>
  The items of the \<open>j\<close>-th group element are made at the origins \<open>(j, 0)\<close>,
  \<open>(j, 1)\<close>, ..., the orphans at those of the group after the last group element.
\<close>

definition parseFaqGroups :: "page \<Rightarrow> FaqGroup list" where
  "parseFaqGroups s =
     (let groupEls = document_querySelectorAll s (hasRole ROLES_group);
          groups = map (\<lambda>(j, g).
                          \<lparr>groupEl = g,
                           items = map (\<lambda>(k, i). parseItem s (j, k) i)
                                     (enumerate 0 (querySelectorAll s g (hasRole ROLES_item))),
                           config = resolveGroupConfig s (Some g)\<rparr>)
                     (enumerate 0 groupEls);
          groupedItems = set (concat (map (\<lambda>g. map item (items g)) groups));
          orphans = map (\<lambda>(k, i). parseItem s (length groupEls, k) i)
                      (enumerate 0
                         (filter (\<lambda>el. el \<notin> groupedItems)
                            (document_querySelectorAll s (hasRole ROLES_item))))
      in if length orphans > 0
         then groups @ [\<lparr>groupEl = bodyEl s, items = orphans, config = resolveGroupConfig s None\<rparr>]
         else groups)"

section \<open>Search helpers\<close>

definition elementContainsText :: "page \<Rightarrow> elem option \<Rightarrow> string \<Rightarrow> bool" where
  "elementContainsText s el query =
     (case el of
        None \<Rightarrow> False
      | Some e \<Rightarrow> stringIncludes (normalizeText (textContent s e)) query)"

definition itemMatchesQuery :: "page \<Rightarrow> FaqItemElements \<Rightarrow> string \<Rightarrow> bool" where
  "itemMatchesQuery s it query =
     (elementContainsText s (title it) query \<or> elementContainsText s (content it) query)"

section \<open>Highlighting\<close>

text \<open>
  \<open>unwrapMark m\<close> is one round of the loop of \<^verbatim>\<open>clearHighlights\<close>: the mark is replaced
  in its parent by a text node holding its text, and the parent is normalized. A mark that is
  no longer in the document (it stood inside a mark replaced before) changes nothing.
  \<^verbatim>\<open>clearHighlights\<close> throws when the selector built from the class does not parse.
\<close>

fun unwrapMark :: "elem \<Rightarrow> node \<Rightarrow> node" where
  "unwrapMark m (TextNode str) = TextNode str"
| "unwrapMark m (ElemNode x ks) =
     (if \<exists>k \<in> set ks. isElem m k
      then normalizeNode
             (ElemNode x (map (\<lambda>k. if isElem m k then TextNode (textOf k) else unwrapMark m k) ks))
      else ElemNode x (map (unwrapMark m) ks))"

definition clearHighlights :: "browser \<Rightarrow> elem \<Rightarrow> string \<Rightarrow> page \<Rightarrow> page option" where
  "clearHighlights B root cls s =
     (case markSelector B cls of
        None \<Rightarrow> None
      | Some sel \<Rightarrow>
          Some (fold (\<lambda>mark s'. s'\<lparr>doc := unwrapMark mark (doc s')\<rparr>)
                  (querySelectorAll s root sel) s))"

text \<open>
  The \<^verbatim>\<open>mark\<close> element of one match: created, given the highlight class as its
  \<^verbatim>\<open>className\<close> and the matched run as its text.
\<close>

definition createMark :: "string \<Rightarrow> string \<Rightarrow> page \<Rightarrow> node \<times> page" where
  "createMark cls txt s =
     (let (mark, s1) = createElement ''MARK'' s;
          s2 = setClassName mark cls s1
      in (ElemNode mark (if txt = [] then [] else [TextNode txt]), s2))"

text \<open>
  The \<^verbatim>\<open>for (;;)\<close> loop over one text node. \<open>lower\<close> is the normalized text: the
  indices found in it are used on \<open>original\<close>. The loop has no bound in the source, so it
  is a partial function and \<open>None\<close> means that it does not return.
\<close>

partial_function (option) highlightLoop ::
  "string \<Rightarrow> string \<Rightarrow> string \<Rightarrow> string \<Rightarrow> nat \<Rightarrow> node list \<Rightarrow> page \<Rightarrow> (node list \<times> page) option"
where
  "highlightLoop original lower normalised cls pos fragment s =
     (case indexOf lower normalised pos of
        None \<Rightarrow> Some (fragment @ [TextNode (sliceFrom original pos)], s)
      | Some idx \<Rightarrow>
          highlightLoop original lower normalised cls (idx + length normalised)
            ((if idx > pos then fragment @ [TextNode (slice original pos idx)] else fragment)
               @ [fst (createMark cls (slice original idx (idx + length normalised)) s)])
            (snd (createMark cls (slice original idx (idx + length normalised)) s)))"

text \<open>
  The tree walker visits the text nodes below \<open>root\<close> in document order and accepts those
  whose normalized text contains the query; each accepted node is replaced by its fragment.
\<close>

fun highlightNode :: "string \<Rightarrow> string \<Rightarrow> node \<Rightarrow> page \<Rightarrow> (node list \<times> page) option"
  and highlightNodes :: "string \<Rightarrow> string \<Rightarrow> node list \<Rightarrow> page \<Rightarrow> (node list \<times> page) option"
where
  "highlightNode normalised cls (TextNode str) s =
     (if stringIncludes (normalizeText str) normalised
      then highlightLoop str (normalizeText str) normalised cls 0 [] s
      else Some ([TextNode str], s))"
| "highlightNode normalised cls (ElemNode x ks) s =
     (case highlightNodes normalised cls ks s of
        None \<Rightarrow> None
      | Some (ks', s') \<Rightarrow> Some ([ElemNode x ks'], s'))"
| "highlightNodes normalised cls [] s = Some ([], s)"
| "highlightNodes normalised cls (k # ks) s =
     (case highlightNode normalised cls k s of
        None \<Rightarrow> None
      | Some (f, s1) \<Rightarrow>
          (case highlightNodes normalised cls ks s1 of
             None \<Rightarrow> None
           | Some (fs, s2) \<Rightarrow> Some (f @ fs, s2)))"

fun highlightBelow :: "elem \<Rightarrow> string \<Rightarrow> string \<Rightarrow> node \<Rightarrow> page \<Rightarrow> (node \<times> page) option"
  and highlightBelows :: "elem \<Rightarrow> string \<Rightarrow> string \<Rightarrow> node list \<Rightarrow> page \<Rightarrow> (node list \<times> page) option"
where
  "highlightBelow root normalised cls (TextNode str) s = Some (TextNode str, s)"
| "highlightBelow root normalised cls (ElemNode x ks) s =
     (if x = root
      then (case highlightNodes normalised cls ks s of
              None \<Rightarrow> None
            | Some (ks', s') \<Rightarrow> Some (ElemNode x ks', s'))
      else (case highlightBelows root normalised cls ks s of
              None \<Rightarrow> None
            | Some (ks', s') \<Rightarrow> Some (ElemNode x ks', s')))"
| "highlightBelows root normalised cls [] s = Some ([], s)"
| "highlightBelows root normalised cls (k # ks) s =
     (case highlightBelow root normalised cls k s of
        None \<Rightarrow> None
      | Some (k', s1) \<Rightarrow>
          (case highlightBelows root normalised cls ks s1 of
             None \<Rightarrow> None
           | Some (ks', s2) \<Rightarrow> Some (k' # ks', s2)))"

definition highlightText :: "elem \<Rightarrow> string \<Rightarrow> string \<Rightarrow> page \<Rightarrow> page option" where
  "highlightText root query cls s =
     (if query = [] then Some s
      else (case highlightBelow root (normalizeText query) cls (doc s) s of
              None \<Rightarrow> None
            | Some (d, s') \<Rightarrow> Some (s'\<lparr>doc := d\<rparr>)))"

section \<open>Accessibility\<close>

definition setupAria :: "browser \<Rightarrow> FaqItemElements \<Rightarrow> page \<Rightarrow> page" where
  "setupAria B it s =
     (case trigger it of
        None \<Rightarrow> s
      | Some t \<Rightarrow>
     (case content it of
        None \<Rightarrow> s
      | Some c \<Rightarrow>
          (let (contentId, s1) = ensureId B c ''cur-faq'' s;
               s2 = setAttribute t ''aria-controls'' contentId s1
           in if tagName s2 t \<noteq> ''BUTTON''
              then (let s3 = setAttribute t ''role'' ''button'' s2
                    in if \<not> hasAttribute s3 t ''tabindex''
                       then setAttribute t ''tabindex'' ''0'' s3 else s3)
              else s2)))"

section \<open>Visibility helpers\<close>

definition isElementVisible :: "browser \<Rightarrow> page \<Rightarrow> elem \<Rightarrow> bool" where
  "isElementVisible B s el =
     (if computedDisplay B s el = ''none'' \<or> computedVisibility B s el = ''hidden'' then False
      else rectWidth B s el > 0 \<and> rectHeight B s el > 0)"

definition isItemOpen :: "browser \<Rightarrow> page \<Rightarrow> FaqItemElements \<Rightarrow> bool" where
  "isItemOpen B s it =
     (if getAttribute s (item it) ATTR_dataOpen = Some ''true'' \<or>
         (case trigger it of None \<Rightarrow> False
          | Some t \<Rightarrow> getAttribute s t ''aria-expanded'' = Some ''true'')
      then True
      else (case content it of
              None \<Rightarrow> False
            | Some c \<Rightarrow> isElementVisible B s c \<and> \<not> hasAttribute s c ''hidden''))"

section \<open>Icon visibility\<close>

definition setIconVisibility :: "elem option \<Rightarrow> bool \<Rightarrow> page \<Rightarrow> page" where
  "setIconVisibility icon visible s =
     (case icon of
        None \<Rightarrow> s
      | Some i \<Rightarrow> classToggle i ''cur-faq-icon-hidden'' (\<not> visible)
                    (classToggle i ''cur-faq-icon-visible'' visible s))"

section \<open>Collapse / expand animation\<close>

text \<open>
  Both functions start a transition and return; the \<^verbatim>\<open>transitionend\<close> closure they
  register is recorded with the stamp it captured. The forced reflow
  (\<^verbatim>\<open>el.offsetHeight\<close>) has no effect on the page record.
\<close>

definition expandElement :: "browser \<Rightarrow> elem \<Rightarrow> page \<Rightarrow> page" where
  "expandElement B el s =
     (let stamp = dateNow B s;
          s1 = s\<lparr>animationTimestamps := (animationTimestamps s)(el \<mapsto> stamp)\<rparr>;
          s2 = removeAttribute el ''hidden'' s1;
          s3 = setStyle el ''height'' ''0px'' s2;
          target = scrollHeight B s3 el;
          s4 = setStyle el ''height'' (string_of_nat target @ ''px'') s3
      in addEventListener el ''transitionend'' (ExpandEnd stamp) s4)"

definition collapseElement :: "browser \<Rightarrow> elem \<Rightarrow> page \<Rightarrow> page" where
  "collapseElement B el s =
     (let stamp = dateNow B s;
          s1 = s\<lparr>animationTimestamps := (animationTimestamps s)(el \<mapsto> stamp)\<rparr>
      in if hasAttribute s1 el ''hidden'' then setStyle el ''height'' '''' s1
         else
           (let current = scrollHeight B s1 el;
                s2 = setStyle el ''height'' (string_of_nat current @ ''px'') s1;
                s3 = setStyle el ''height'' ''0px'' s2
            in addEventListener el ''transitionend'' (CollapseEnd stamp) s3))"

section \<open>Core toggle\<close>

text \<open>
  \<^verbatim>\<open>setItemState\<close>. The \<^verbatim>\<open>searchState\<close> object the source passes along is the
  \<open>searchState\<close> field of the page. The optional \<^verbatim>\<open>group\<close> argument is an option.
  \<^verbatim>\<open>sibling !== item\<close> compares object references in the source and records here;
  the two agree on the groups the parser builds, whose items wrap pairwise different
  elements.
\<close>

function setItemState ::
  "browser \<Rightarrow> FaqItemElements \<Rightarrow> bool \<Rightarrow> source \<Rightarrow> FaqConfig \<Rightarrow> FaqGroup option \<Rightarrow> page \<Rightarrow> page"
where
  "setItemState B it opn src cfg grp s =
     (case content it of
        None \<Rightarrow> s
      | Some c \<Rightarrow>
     (case trigger it of
        None \<Rightarrow> s
      | Some t \<Rightarrow>
        (let s1 = (case grp of
                     None \<Rightarrow> s
                   | Some g \<Rightarrow>
                       if opn \<and> accordion (config g)
                       then fold (\<lambda>sibling s'.
                                    if sibling \<noteq> it \<and> isItemOpen B s' sibling
                                    then setItemState B sibling False src cfg None s'
                                    else s')
                              (items g) s
                       else s);
             s2 = setAttribute t ''aria-expanded'' (String_bool opn) s1;
             s3 = setAttribute (item it) ATTR_dataOpen (String_bool opn) s2;
             s4 = classToggle (item it) (activeClass (classes cfg)) opn s3;
             s5 = setIconVisibility (iconOpen it) opn s4;
             s6 = setIconVisibility (iconClose it) (\<not> opn) s5;
             s7 = (if opn
                   then (let e1 = expandElement B c s6
                         in if src = Search
                            then (setAttribute (item it) ATTR_dataOpenedBySearch ''true'' e1)
                                   \<lparr>searchState := (searchState e1)
                                      \<lparr>searchOpenedItems :=
                                         insert (item it) (searchOpenedItems (searchState e1))\<rparr>\<rparr>
                            else (removeAttribute (item it) ATTR_dataOpenedBySearch e1)
                                   \<lparr>searchState := (searchState e1)
                                      \<lparr>searchOpenedItems :=
                                         searchOpenedItems (searchState e1) - {item it}\<rparr>\<rparr>)
                   else (let e1 = collapseElement B c s6
                         in if src = Search
                            then (removeAttribute (item it) ATTR_dataOpenedBySearch e1)
                                   \<lparr>searchState := (searchState e1)
                                      \<lparr>searchOpenedItems :=
                                         searchOpenedItems (searchState e1) - {item it}\<rparr>\<rparr>
                            else e1))
         in dispatchEvent (item it) (if opn then FaqOpen (item it) else FaqClose (item it)) s7)))"
  by pat_completeness auto
termination
  by (relation "measure (\<lambda>(B, it, opn, src, cfg, grp, s). case grp of None \<Rightarrow> 0 | Some g \<Rightarrow> Suc 0)")
     auto

declare setItemState.simps [simp del]

text \<open>
  Two names for parts of \<open>setItemState\<close>, used to state what it computes: the writes of
  one call once both sub-elements are known (everything after the accordion block), and the
  forced closure of the open siblings.
\<close>

definition writeItemState ::
  "browser \<Rightarrow> FaqItemElements \<Rightarrow> bool \<Rightarrow> source \<Rightarrow> FaqConfig \<Rightarrow> elem \<Rightarrow> elem \<Rightarrow> page \<Rightarrow> page"
where
  "writeItemState B it opn src cfg c t s1 =
        (let s2 = setAttribute t ''aria-expanded'' (String_bool opn) s1;
             s3 = setAttribute (item it) ATTR_dataOpen (String_bool opn) s2;
             s4 = classToggle (item it) (activeClass (classes cfg)) opn s3;
             s5 = setIconVisibility (iconOpen it) opn s4;
             s6 = setIconVisibility (iconClose it) (\<not> opn) s5;
             s7 = (if opn
                   then (let e1 = expandElement B c s6
                         in if src = Search
                            then (setAttribute (item it) ATTR_dataOpenedBySearch ''true'' e1)
                                   \<lparr>searchState := (searchState e1)
                                      \<lparr>searchOpenedItems :=
                                         insert (item it) (searchOpenedItems (searchState e1))\<rparr>\<rparr>
                            else (removeAttribute (item it) ATTR_dataOpenedBySearch e1)
                                   \<lparr>searchState := (searchState e1)
                                      \<lparr>searchOpenedItems :=
                                         searchOpenedItems (searchState e1) - {item it}\<rparr>\<rparr>)
                   else (let e1 = collapseElement B c s6
                         in if src = Search
                            then (removeAttribute (item it) ATTR_dataOpenedBySearch e1)
                                   \<lparr>searchState := (searchState e1)
                                      \<lparr>searchOpenedItems :=
                                         searchOpenedItems (searchState e1) - {item it}\<rparr>\<rparr>
                            else e1))
         in dispatchEvent (item it) (if opn then FaqOpen (item it) else FaqClose (item it)) s7)"

definition closeItem :: "browser \<Rightarrow> FaqItemElements \<Rightarrow> source \<Rightarrow> FaqConfig \<Rightarrow> page \<Rightarrow> page" where
  "closeItem B it src cfg s =
     (case content it of None \<Rightarrow> s | Some c \<Rightarrow>
      (case trigger it of None \<Rightarrow> s | Some t \<Rightarrow> writeItemState B it False src cfg c t s))"

definition closeSiblings ::
  "browser \<Rightarrow> FaqItemElements \<Rightarrow> source \<Rightarrow> FaqConfig \<Rightarrow> FaqItemElements list \<Rightarrow> page \<Rightarrow> page" where
  "closeSiblings B it src cfg sibs s =
     fold (\<lambda>sibling s'. if sibling \<noteq> it \<and> isItemOpen B s' sibling
                         then closeItem B sibling src cfg s' else s') sibs s"

section \<open>Accordion: event binding\<close>

text \<open>
  The listeners are registered and removed here; the page keeps them in a list. What a
  listener does when the browser calls it is the function it names (\<open>HandleToggle\<close> is
  \<open>setItemState\<close> with the negated \<open>isItemOpen\<close> and provenance \<open>User\<close>).
\<close>

definition bindAccordionListeners :: "browser \<Rightarrow> FaqGroup list \<Rightarrow> page \<Rightarrow> page" where
  "bindAccordionListeners B groups s =
     fold (\<lambda>g. fold (\<lambda>faqItem s'.
                  case trigger faqItem of
                    None \<Rightarrow> s'
                  | Some t \<Rightarrow>
                      addEventListener t ''keydown'' (HandleKeydown faqItem g)
                        (addEventListener t ''click'' (HandleToggle faqItem g)
                           (setupAria B faqItem s')))
                (items g))
       groups s"

definition removeAccordionListeners :: "FaqGroup list \<Rightarrow> page \<Rightarrow> page" where
  "removeAccordionListeners groups s =
     fold (\<lambda>g. fold (\<lambda>faqItem s'.
                  case trigger faqItem of
                    None \<Rightarrow> s'
                  | Some t \<Rightarrow>
                      removeEventListener t ''keydown'' (HandleKeydown faqItem g)
                        (removeEventListener t ''click'' (HandleToggle faqItem g) s'))
                (items g))
       groups s"

section \<open>Style injection\<close>

definition STYLE_ID :: string where "STYLE_ID = ''cur-faq-styles''"

definition CSS_VARS_highlightBg :: string where
  "CSS_VARS_highlightBg = ''--cur-faq-highlight-bg''"
definition CSS_VARS_currentHighlightBg :: string where
  "CSS_VARS_currentHighlightBg = ''--cur-faq-current-highlight-bg''"
definition CSS_VARS_iconDuration :: string where
  "CSS_VARS_iconDuration = ''--cur-faq-icon-duration''"

definition nl :: string where "nl = [CHR 0x0A]"
definition dq :: string where "dq = [CHR 0x22]"

definition styleRules :: "FaqConfig \<Rightarrow> string list" where
  "styleRules cfg =
     [ '':root {'' @ nl @
       ''  '' @ CSS_VARS_highlightBg @ '': '' @ highlightBackground (colors cfg) @ '';'' @ nl @
       ''  '' @ CSS_VARS_currentHighlightBg @ '': '' @ currentHighlightBackground (colors cfg)
          @ '';'' @ nl @
       ''  '' @ CSS_VARS_collapseDuration @ '': ''
          @ string_of_int (FaqTiming.collapseDuration (timing cfg)) @ ''ms;'' @ nl @
       ''  '' @ CSS_VARS_iconDuration @ '': ''
          @ string_of_int (iconTransitionDuration (timing cfg)) @ ''ms;'' @ nl @ ''}'',
       ''['' @ ATTR_element @ ''='' @ dq @ ROLES_content @ dq @ ''] {'' @ nl @
       ''  overflow: hidden;'' @ nl @
       ''  transition: height var('' @ CSS_VARS_collapseDuration @ '') ease;'' @ nl @
       ''  will-change: height;'' @ nl @ ''}'',
       ''.cur-faq-icon-visible {'' @ nl @
       ''  opacity: 1;'' @ nl @
       ''  transition: opacity var('' @ CSS_VARS_iconDuration @ '') ease;'' @ nl @ ''}'',
       ''.cur-faq-icon-hidden {'' @ nl @
       ''  opacity: 0;'' @ nl @
       ''  transition: opacity var('' @ CSS_VARS_iconDuration @ '') ease;'' @ nl @
       ''  pointer-events: none;'' @ nl @ ''}'',
       ''.'' @ highlightClass (classes cfg) @ '' {'' @ nl @
       ''  background: var('' @ CSS_VARS_highlightBg @ '');'' @ nl @ ''}'',
       ''.'' @ currentHighlightClass (classes cfg) @ '' {'' @ nl @
       ''  background: var('' @ CSS_VARS_currentHighlightBg @ '');'' @ nl @ ''}'' ]
     @ (if floatingSearch cfg
        then [ ''#cur-faq-floating-search {'' @ nl @
               ''  position: fixed;'' @ nl @ ''  right: 16px;'' @ nl @ ''  bottom: 16px;'' @ nl @
               ''  z-index: 2147483647;'' @ nl @ ''  display: flex;'' @ nl @
               ''  align-items: center;'' @ nl @ ''  gap: 6px;'' @ nl @
               ''  background: #461276;'' @ nl @ ''  color: white;'' @ nl @
               ''  border: 1px solid rgba(0,0,0,.1);'' @ nl @
               ''  box-shadow: 0 4px 12px rgba(0,0,0,.12);'' @ nl @
               ''  border-radius: 8px;'' @ nl @ ''  padding: 6px 8px;'' @ nl @
               ''  font-family: inherit;'' @ nl @ ''}'',
               ''#cur-faq-floating-search button {'' @ nl @
               ''  border: 0;'' @ nl @ ''  background: transparent;'' @ nl @
               ''  cursor: pointer;'' @ nl @ ''  padding: 4px 6px;'' @ nl @
               ''  border-radius: 6px;'' @ nl @ ''}'',
               ''#cur-faq-floating-search button:hover {'' @ nl @
               ''  background: rgba(0,0,0,.06);'' @ nl @ ''}'',
               ''#cur-faq-floating-search input {'' @ nl @
               ''  width: 180px;'' @ nl @ ''  padding: 4px 6px;'' @ nl @
               ''  border: 1px solid rgba(0,0,0,.15);'' @ nl @
               ''  border-radius: 6px;'' @ nl @ ''  color: black;'' @ nl @ ''}'',
               ''#cur-faq-floating-search .counter {'' @ nl @
               ''  min-width: 56px;'' @ nl @ ''  text-align: right;'' @ nl @
               ''  font-variant-numeric: tabular-nums;'' @ nl @ ''}'' ]
        else [])"

fun joinWith :: "string \<Rightarrow> string list \<Rightarrow> string" where
  "joinWith sep [] = []"
| "joinWith sep [x] = x"
| "joinWith sep (x # y # ys) = x @ sep @ joinWith sep (y # ys)"

definition injectStyles :: "FaqConfig \<Rightarrow> page \<Rightarrow> elem \<times> page" where
  "injectStyles cfg s =
     (let s0 = (case document_querySelector s (byId STYLE_ID) of
                  None \<Rightarrow> s
                | Some existing \<Rightarrow> removeElement existing s);
          (styleE, s1) = createElement ''STYLE'' s0;
          s2 = setAttribute styleE ''id'' STYLE_ID s1;
          css = joinWith nl (styleRules cfg);
          s3 = appendChild (headEl s2) (ElemNode styleE (if css = [] then [] else [TextNode css])) s2
      in (styleE, s3))"

section \<open>Search: counter and navigation\<close>

definition jsRem :: "int \<Rightarrow> int \<Rightarrow> int" where
  "jsRem a b = sgn a * (\<bar>a\<bar> mod \<bar>b\<bar>)"

definition updateMatchCounter :: "elem option \<Rightarrow> page \<Rightarrow> page" where
  "updateMatchCounter counter s =
     (case counter of
        None \<Rightarrow> s
      | Some c \<Rightarrow>
          (let total = length (marks (searchState s));
               current = (if total = 0 \<or> currentIndex (searchState s) = - 1 then 0
                          else currentIndex (searchState s) + 1)
           in setTextContent c (string_of_int current @ ''/'' @ string_of_nat total) s))"

text \<open>
  The statement both \<^verbatim>\<open>navigateToMatch\<close> and \<^verbatim>\<open>clearAllHighlights\<close> contain:
  \<^verbatim>\<open>document.querySelectorAll(`.${cur}`).forEach((el) => el.classList.remove(cur))\<close>.
\<close>

definition removeCurrentClass :: "browser \<Rightarrow> FaqConfig \<Rightarrow> page \<Rightarrow> page option" where
  "removeCurrentClass B cfg s =
     (case classSelector B (currentHighlightClass (classes cfg)) of
        None \<Rightarrow> None
      | Some sel \<Rightarrow>
          forEachOpt (\<lambda>el. classListRemove el (currentHighlightClass (classes cfg)))
            (document_querySelectorAll s sel) s)"

definition navigateToMatch :: "browser \<Rightarrow> int \<Rightarrow> FaqConfig \<Rightarrow> elem option \<Rightarrow> page \<Rightarrow> page option" where
  "navigateToMatch B index cfg counter s =
     (if length (marks (searchState s)) = 0
      then Some (updateMatchCounter counter
                   (s\<lparr>searchState := (searchState s)\<lparr>currentIndex := - 1\<rparr>\<rparr>))
      else
        (let len = int (length (marks (searchState s)));
             s1 = s\<lparr>searchState := (searchState s)
                      \<lparr>currentIndex := jsRem (jsRem index len + len) len\<rparr>\<rparr>
         in case removeCurrentClass B cfg s1 of
              None \<Rightarrow> None
            | Some s2 \<Rightarrow>
                (let target = marks (searchState s2) ! nat (currentIndex (searchState s2))
                 in case classListAdd target (currentHighlightClass (classes cfg)) s2 of
                      None \<Rightarrow> None
                    | Some s3 \<Rightarrow> Some (updateMatchCounter counter (smoothScrollTo target s3)))))"

definition advanceMatch :: "browser \<Rightarrow> int \<Rightarrow> FaqConfig \<Rightarrow> elem option \<Rightarrow> page \<Rightarrow> page option" where
  "advanceMatch B delta cfg counter s =
     (if length (marks (searchState s)) = 0 then Some s
      else
        (let base = (if currentIndex (searchState s) = - 1 then 0
                     else currentIndex (searchState s))
         in navigateToMatch B (base + delta) cfg counter s))"
section \<open>Search: empty state\<close>

definition updateEmptyState :: "bool \<Rightarrow> page \<Rightarrow> page" where
  "updateEmptyState hasMatches s =
     (case document_querySelector s (hasRole ROLES_emptyState) of
        None \<Rightarrow> s
      | Some emptyStateEl \<Rightarrow>
          setStyle emptyStateEl ''display'' (if hasMatches then ''none'' else []) s)"

section \<open>Search: core\<close>

definition clearAllHighlights ::
  "browser \<Rightarrow> FaqItemElements list \<Rightarrow> FaqConfig \<Rightarrow> page \<Rightarrow> page option" where
  "clearAllHighlights B allItems cfg s =
     (case forEachOpt (\<lambda>it. clearHighlights B (item it) (highlightClass (classes cfg)))
             allItems s of
        None \<Rightarrow> None
      | Some s1 \<Rightarrow>
          (case removeCurrentClass B cfg s1 of
             None \<Rightarrow> None
           | Some s2 \<Rightarrow>
               Some (s2\<lparr>searchState := (searchState s2)\<lparr>marks := [], currentIndex := - 1\<rparr>\<rparr>)))"

text \<open>The bodies of the two loops of \<^verbatim>\<open>performSearch\<close> over all items.\<close>

definition closeStale :: "browser \<Rightarrow> string \<Rightarrow> FaqConfig \<Rightarrow> FaqItemElements \<Rightarrow> page \<Rightarrow> page" where
  "closeStale B normalised cfg faqItem s =
     (if item faqItem \<in> searchOpenedItems (searchState s) \<and>
         \<not> itemMatchesQuery s faqItem normalised \<and> isItemOpen B s faqItem
      then setItemState B faqItem False Search cfg None s else s)"

definition highlightAndOpen ::
  "browser \<Rightarrow> string \<Rightarrow> FaqConfig \<Rightarrow> FaqItemElements \<Rightarrow> page \<Rightarrow> page option" where
  "highlightAndOpen B normalised cfg faqItem s =
     (let titleMatch = elementContainsText s (title faqItem) normalised;
          contentMatch = elementContainsText s (content faqItem) normalised
      in if titleMatch \<or> contentMatch
         then (case (case title faqItem of
                       None \<Rightarrow> Some s
                     | Some t \<Rightarrow> highlightText t normalised (highlightClass (classes cfg)) s) of
                 None \<Rightarrow> None
               | Some s1 \<Rightarrow>
                   (case (case content faqItem of
                            None \<Rightarrow> Some s1
                          | Some c \<Rightarrow> highlightText c normalised (highlightClass (classes cfg)) s1) of
                      None \<Rightarrow> None
                    | Some s2 \<Rightarrow> Some (setItemState B faqItem True Search cfg None s2)))
         else Some s)"

text \<open>
  \<open>None\<close> is a search that does not return: a selector that does not parse, a class
  token the class list refuses, or a highlight loop without end.
\<close>

definition performSearch ::
  "browser \<Rightarrow> string \<Rightarrow> FaqItemElements list \<Rightarrow> FaqConfig \<Rightarrow> elem option \<Rightarrow> page \<Rightarrow> page option"
where
  "performSearch B query allItems cfg counterE s =
     (let normalised = normalizeText query
      in case clearAllHighlights B allItems cfg s of
           None \<Rightarrow> None
         | Some s1 \<Rightarrow>
             if normalised = [] then Some (updateEmptyState True s1)
             else
               (let s2 = fold (closeStale B normalised cfg) allItems s1
                in case forEachOpt (highlightAndOpen B normalised cfg) allItems s2 of
                     None \<Rightarrow> None
                   | Some s3 \<Rightarrow>
                       (case markSelector B (highlightClass (classes cfg)) of
                          None \<Rightarrow> None
                        | Some sel \<Rightarrow>
                            (let s4 = s3\<lparr>searchState := (searchState s3)
                                        \<lparr>marks := document_querySelectorAll s3 sel\<rparr>\<rparr>;
                                 hasMatches = length (marks (searchState s4)) > 0;
                                 s5 = updateEmptyState hasMatches s4
                             in case (if hasMatches
                                      then navigateToMatch B 0 cfg counterE
                                             (s5\<lparr>searchState :=
                                                  (searchState s5)\<lparr>currentIndex := 0\<rparr>\<rparr>)
                                      else Some s5) of
                                  None \<Rightarrow> None
                                | Some s6 \<Rightarrow>
                                    Some (case document_querySelector s6 (hasRole ROLES_group) of
                                            None \<Rightarrow> s6
                                          | Some g \<Rightarrow>
                                              dispatchEvent g
                                                (FaqSearch query (length (marks (searchState s6))))
                                                s6)))))"

section \<open>Search: input binding and floating panel\<close>

definition bindSearchInput :: "elem \<Rightarrow> bool \<Rightarrow> page \<Rightarrow> page" where
  "bindSearchInput input isMainInput s =
     addEventListener input ''input'' (DebouncedSearch isMainInput)
       (addEventListener input ''keydown'' SearchKeydown s)"

definition unbindSearchInput :: "elem \<Rightarrow> bool \<Rightarrow> page \<Rightarrow> page" where
  "unbindSearchInput input isMainInput s =
     removeEventListener input ''input'' (DebouncedSearch isMainInput)
       (removeEventListener input ''keydown'' SearchKeydown s)"

text \<open>
  The two arrows and the ellipsis of the panel are code units above \<^verbatim>\<open>U+00FF\<close>, which
  the strings of the model do not have; each is written as the bytes of its UTF-8 form.
  Nothing in the module reads these three texts.
\<close>

definition createFloatingPanel :: "page \<Rightarrow> FloatingPanel \<times> page" where
  "createFloatingPanel s =
     (let (panelE, s1) = createElement ''DIV'' s;
          s2 = setStyle panelE ''display'' ''none''
                 (setAttribute panelE ''id'' ''cur-faq-floating-search'' s1);
          (prevB, s3) = createElement ''BUTTON'' s2;
          s4 = setAttribute prevB ''aria-label'' ''Previous match''
                 (setAttribute prevB ''type'' ''button'' s3);
          (nextB, s5) = createElement ''BUTTON'' s4;
          s6 = setAttribute nextB ''aria-label'' ''Next match''
                 (setAttribute nextB ''type'' ''button'' s5);
          (inputE, s7) = createElement ''INPUT'' s6;
          s8 = setAttribute inputE ''aria-label'' ''Search FAQ''
                 (setAttribute inputE ''placeholder''
                    (''Search FAQ'' @ [CHR 0xE2, CHR 0x80, CHR 0xA6])
                    (setAttribute inputE ''type'' ''search'' s7));
          (counterE, s9) = createElement ''SPAN'' s8;
          s10 = setClassName counterE ''counter'' s9;
          panelNode = ElemNode panelE
                        [ElemNode prevB [TextNode [CHR 0xE2, CHR 0x86, CHR 0x91]],
                         ElemNode nextB [TextNode [CHR 0xE2, CHR 0x86, CHR 0x93]],
                         ElemNode inputE [],
                         ElemNode counterE [TextNode ''0/0'']];
          s11 = appendChild (bodyEl s10) panelNode s10;
          s12 = addEventListener nextB ''click'' HandleNext
                  (addEventListener prevB ''click'' HandlePrev s11);
          s13 = bindSearchInput inputE False s12;
          s14 = updateMatchCounter (Some counterE) s13
      in (\<lparr>fpPanel = panelE, fpCounter = counterE, fpInput = inputE,
            fpPrevBtn = prevB, fpNextBtn = nextB\<rparr>, s14))"

definition floatingCleanup :: "FloatingPanel \<Rightarrow> page \<Rightarrow> page" where
  "floatingCleanup fp s =
     removeElement (fpPanel fp)
       (unbindSearchInput (fpInput fp) False
          (removeEventListener (fpNextBtn fp) ''click'' HandleNext
             (removeEventListener (fpPrevBtn fp) ''click'' HandlePrev s)))"

section \<open>Initialization\<close>

text \<open>The bodies of the loops of \<^verbatim>\<open>initFaq\<close>, and its search binding.\<close>

definition overrideDuration :: "FaqConfig \<Rightarrow> FaqGroup \<Rightarrow> page \<Rightarrow> page" where
  "overrideDuration cfg g s =
     (if groupEl g \<noteq> bodyEl s \<and>
         collapseDuration (config g) \<noteq> FaqTiming.collapseDuration (timing cfg)
      then setStyle (groupEl g) CSS_VARS_collapseDuration
             (string_of_int (collapseDuration (config g)) @ ''ms'') s
      else s)"

definition setInitialState :: "FaqConfig \<Rightarrow> FaqItemElements \<Rightarrow> page \<Rightarrow> page option" where
  "setInitialState cfg faqItem s =
     (case content faqItem of
        None \<Rightarrow> Some s
      | Some c \<Rightarrow>
          (let s1 = setAttribute c ''hidden'' [] s;
               s2 = setAttribute (item faqItem) ATTR_dataOpen ''false'' s1;
               s3 = (case trigger faqItem of
                       None \<Rightarrow> s2
                     | Some t \<Rightarrow> setAttribute t ''aria-expanded'' ''false'' s2)
           in case classListRemove (item faqItem) (activeClass (classes cfg)) s3 of
                None \<Rightarrow> None
              | Some s4 \<Rightarrow>
                  Some (setIconVisibility (iconClose faqItem) True
                          (setIconVisibility (iconOpen faqItem) False s4))))"

text \<open>
  \<^verbatim>\<open>group.items[group.config.defaultOpen]\<close>: an index that is negative or past the end
  yields \<^verbatim>\<open>undefined\<close>, and nothing is opened.
\<close>

definition defaultOpenTarget :: "FaqGroup \<Rightarrow> FaqItemElements option" where
  "defaultOpenTarget g =
     (case defaultOpen (config g) of
        None \<Rightarrow> None
      | Some i \<Rightarrow> if 0 \<le> i \<and> nat i < length (items g) then Some (items g ! nat i) else None)"

definition openDefault :: "browser \<Rightarrow> FaqConfig \<Rightarrow> FaqGroup \<Rightarrow> page \<Rightarrow> page" where
  "openDefault B cfg g s =
     (case defaultOpenTarget g of
        None \<Rightarrow> s
      | Some target \<Rightarrow> setItemState B target True User cfg (Some g) s)"

definition bindSearch :: "FaqConfig \<Rightarrow> page \<Rightarrow> (elem option \<times> FloatingPanel option) \<times> page" where
  "bindSearch cfg s =
     (case document_querySelector s (hasRole ROLES_search) of
        None \<Rightarrow> ((None, None), s)
      | Some searchEl \<Rightarrow>
          (case (if tagName s searchEl = ''INPUT'' then Some searchEl
                 else querySelector s searchEl textInput) of
             None \<Rightarrow> ((None, None), s)
           | Some mainIn \<Rightarrow>
               if floatingSearch cfg
               then (let (fp, s1) = createFloatingPanel s
                     in ((Some mainIn, Some fp), bindSearchInput mainIn True s1))
               else ((Some mainIn, None), bindSearchInput mainIn True s)))"

definition initFaq :: "browser \<Rightarrow> page \<Rightarrow> (FaqInstance option \<times> page) option" where
  "initFaq B s =
     (if curFaqInitialized s then Some (curFaq s, s)
      else
        (let s0 = s\<lparr>curFaqInitialized := True\<rparr>;
             cfg = resolveConfig s0;
             groups = parseFaqGroups s0;
             allItems = concat (map items groups);
             s1 = s0\<lparr>searchState := \<lparr>marks = [], currentIndex = - 1, searchOpenedItems = {}\<rparr>\<rparr>;
             (styleE, s2) = injectStyles cfg s1;
             s3 = fold (overrideDuration cfg) groups s2
         in case forEachOpt (setInitialState cfg) allItems s3 of
              None \<Rightarrow> None
            | Some s4 \<Rightarrow>
                (let s5 = fold (openDefault B cfg) groups s4;
                     s6 = bindAccordionListeners B groups s5;
                     s7 = updateEmptyState True s6;
                     ((mainIn, fp), s8) = bindSearch cfg s7;
                     instance = \<lparr>instItems = allItems, instConfig = cfg, instGroups = groups,
                                 styleEl = styleE, mainInput = mainIn, floating = fp\<rparr>
                 in Some (Some instance, s8\<lparr>curFaq := Some instance\<rparr>))))"

definition counterEl :: "FaqInstance \<Rightarrow> elem option" where
  "counterEl inst = map_option fpCounter (floating inst)"

subsection \<open>The methods of the instance\<close>

text \<open>
  \<^verbatim>\<open>findGroup\<close> is \<^verbatim>\<open>groups.find((g) => g.items.includes(item))\<close>; the records of the
  parsed items differ in their \<open>origin\<close>, so membership of the record is membership of
  the object. The methods \<^verbatim>\<open>open\<close>, \<^verbatim>\<open>close\<close> and \<^verbatim>\<open>toggle\<close> of the instance follow.
\<close>

definition findGroup :: "FaqInstance \<Rightarrow> FaqItemElements \<Rightarrow> FaqGroup option" where
  "findGroup inst it = find (\<lambda>g. it \<in> set (items g)) (instGroups inst)"

definition instOpen :: "browser \<Rightarrow> FaqInstance \<Rightarrow> FaqItemElements \<Rightarrow> page \<Rightarrow> page" where
  "instOpen B inst it s = setItemState B it True User (instConfig inst) (findGroup inst it) s"

definition instClose :: "browser \<Rightarrow> FaqInstance \<Rightarrow> FaqItemElements \<Rightarrow> page \<Rightarrow> page" where
  "instClose B inst it s = setItemState B it False User (instConfig inst) (findGroup inst it) s"

definition toggle :: "browser \<Rightarrow> FaqInstance \<Rightarrow> FaqItemElements \<Rightarrow> page \<Rightarrow> page" where
  "toggle B inst it s =
     (let shouldOpen = \<not> isItemOpen B s it
      in setItemState B it shouldOpen User (instConfig inst) (findGroup inst it) s)"

definition instSearch :: "browser \<Rightarrow> FaqInstance \<Rightarrow> string \<Rightarrow> page \<Rightarrow> page option" where
  "instSearch B inst query s =
     performSearch B query (instItems inst) (instConfig inst) (counterEl inst) s"

definition clearSearch :: "browser \<Rightarrow> FaqInstance \<Rightarrow> page \<Rightarrow> page option" where
  "clearSearch B inst s =
     (case clearAllHighlights B (instItems inst) (instConfig inst) s of
        None \<Rightarrow> None
      | Some s1 \<Rightarrow>
          (let s2 = fold (\<lambda>faqItem s'.
                            if item faqItem \<in> searchOpenedItems (searchState s') \<and>
                               isItemOpen B s' faqItem
                            then setItemState B faqItem False Search (instConfig inst) None s'
                            else s')
                      (instItems inst) s1;
               s3 = updateMatchCounter (counterEl inst) s2
           in Some (updateEmptyState True s3)))"

definition nextMatch :: "browser \<Rightarrow> FaqInstance \<Rightarrow> page \<Rightarrow> page option" where
  "nextMatch B inst s = advanceMatch B 1 (instConfig inst) (counterEl inst) s"

definition prevMatch :: "browser \<Rightarrow> FaqInstance \<Rightarrow> page \<Rightarrow> page option" where
  "prevMatch B inst s = advanceMatch B (- 1) (instConfig inst) (counterEl inst) s"

text \<open>The body of the last loop of \<^verbatim>\<open>destroy\<close>, then \<^verbatim>\<open>destroy\<close>.\<close>

definition resetItem :: "FaqConfig \<Rightarrow> FaqItemElements \<Rightarrow> page \<Rightarrow> page option" where
  "resetItem cfg faqItem s =
     (let s1 = removeAttribute (item faqItem) ATTR_dataOpen s;
          s2 = removeAttribute (item faqItem) ATTR_dataOpenedBySearch s1
      in case classListRemove (item faqItem) (activeClass (classes cfg)) s2 of
           None \<Rightarrow> None
         | Some s3 \<Rightarrow>
             (let s4 = (case trigger faqItem of
                          None \<Rightarrow> s3
                        | Some t \<Rightarrow> removeAttribute t ''aria-controls''
                                      (removeAttribute t ''aria-expanded'' s3))
              in Some (case content faqItem of
                         None \<Rightarrow> s4
                       | Some c \<Rightarrow> setStyle c ''height'' [] (removeAttribute c ''hidden'' s4))))"

definition destroy :: "browser \<Rightarrow> FaqInstance \<Rightarrow> page \<Rightarrow> page option" where
  "destroy B inst s =
     (let s1 = removeAccordionListeners (instGroups inst) s;
          s2 = (case mainInput inst of None \<Rightarrow> s1 | Some m \<Rightarrow> unbindSearchInput m True s1);
          s3 = (case floating inst of None \<Rightarrow> s2 | Some fp \<Rightarrow> floatingCleanup fp s2);
          s4 = removeElement (styleEl inst) s3;
          s5 = fold (\<lambda>g s'. if groupEl g \<noteq> bodyEl s'
                              then setStyle (groupEl g) CSS_VARS_collapseDuration [] s' else s')
                 (instGroups inst) s4
      in case clearAllHighlights B (instItems inst) (instConfig inst) s5 of
           None \<Rightarrow> None
         | Some s6 \<Rightarrow>
             (case forEachOpt (resetItem (instConfig inst)) (instItems inst) s6 of
                None \<Rightarrow> None
              | Some s7 \<Rightarrow> Some (s7\<lparr>curFaqInitialized := False, curFaq := None\<rparr>)))"
section \<open>Notions used to state the properties\<close>

text \<open>
  The elements \<open>setItemState\<close> can write for an item: the item element, its trigger, its
  content and its two icons (the title is only read).
\<close>

definition itemElems :: "FaqItemElements \<Rightarrow> elem set" where
  "itemElems it =
     {item it} \<union> set_option (trigger it) \<union> set_option (content it) \<union>
     set_option (iconOpen it) \<union> set_option (iconClose it)"


text \<open>
  What \<^verbatim>\<open>clearHighlights\<close> and \<^verbatim>\<open>clearAllHighlights\<close> compute when the configured
  classes are identifiers, so that no selector is refused: \<open>clearMarks\<close> unwraps the marks
  below one root, \<open>clearItems\<close> does so for every item in turn, and \<open>clearAll\<close> then takes
  the current class off every element that has it and resets the list of marks.
  \<open>markSubtrees\<close> lists what disappears from the document: the marks below the items, each
  with the elements inside it.
\<close>

definition markSubtrees :: "FaqItemElements list \<Rightarrow> string \<Rightarrow> page \<Rightarrow> elem list" where
  "markSubtrees allItems cls s =
     concat (map (\<lambda>it. concat (map (\<lambda>m. m # descendantsOf m (doc s))
                                  (querySelectorAll s (item it) (markWithClass cls))))
               allItems)"

definition clearMarks :: "elem \<Rightarrow> string \<Rightarrow> page \<Rightarrow> page" where
  "clearMarks root cls s =
     fold (\<lambda>mark s'. s'\<lparr>doc := unwrapMark mark (doc s')\<rparr>)
       (querySelectorAll s root (markWithClass cls)) s"

definition clearItems :: "FaqItemElements list \<Rightarrow> string \<Rightarrow> page \<Rightarrow> page" where
  "clearItems its cls s = fold (\<lambda>it. clearMarks (item it) cls) its s"

definition clearAll :: "FaqItemElements list \<Rightarrow> FaqConfig \<Rightarrow> page \<Rightarrow> page" where
  "clearAll its cfg s =
     (let s1 = clearItems its (highlightClass (classes cfg)) s;
          s2 = fold (\<lambda>el. classRemove el (currentHighlightClass (classes cfg)))
                 (document_querySelectorAll s1 (byClass (currentHighlightClass (classes cfg)))) s1
      in s2\<lparr>searchState := (searchState s2)\<lparr>marks := [], currentIndex := - 1\<rparr>\<rparr>)"

text \<open>
  The text of the element \<open>e\<close> of a tree, empty when the tree has no such element.
\<close>

definition textAt :: "elem \<Rightarrow> node \<Rightarrow> string" where
  "textAt e n = (case findNode e n of None \<Rightarrow> [] | Some k \<Rightarrow> textOf k)"

fun textAts :: "elem \<Rightarrow> node list \<Rightarrow> string" where
  "textAts e ks = (case findNodes e ks of None \<Rightarrow> [] | Some k \<Rightarrow> textOf k)"

text \<open>
  \<open>searchEvents\<close> are the \<^verbatim>\<open>cur-faq:search\<close> events among those dispatched so far.
  \<open>hlStep\<close>, \<open>hlText\<close> and \<open>roleInv\<close> relate the page before and after a step of a search:
  what was dispatched, and that an element carrying a role in the later document carried it
  in the earlier one (elements created in between have none).
\<close>

definition searchEvents :: "page \<Rightarrow> (elem \<times> faq_event) list" where
  "searchEvents s =
     filter (\<lambda>(e, ev). case ev of FaqSearch q n \<Rightarrow> True | _ \<Rightarrow> False) (dispatched s)"

definition hlStep :: "page \<Rightarrow> page \<Rightarrow> bool" where
  "hlStep s s' =
     (dispatched s' = dispatched s \<and> searchState s' = searchState s \<and> doc s' = doc s \<and>
      (\<forall>e. attrs s' e = attrs s e \<or> attrs s' e = Map.empty))"

definition roleInv :: "page \<Rightarrow> page \<Rightarrow> bool" where
  "roleInv s s' =
     (searchEvents s' = searchEvents s \<and>
      (\<forall>e \<in> set (elemsOf (doc s')). \<forall>r. attrs s' e ATTR_element = Some r \<longrightarrow>
           e \<in> set (elemsOf (doc s)) \<and> attrs s e ATTR_element = Some r))"

definition hlText :: "page \<Rightarrow> page \<Rightarrow> bool" where
  "hlText s s' =
     (dispatched s' = dispatched s \<and> searchState s' = searchState s \<and>
      (\<forall>e. attrs s' e = attrs s e \<or> attrs s' e = Map.empty) \<and>
      (\<forall>e \<in> set (elemsOf (doc s')). e \<in> set (elemsOf (doc s)) \<or> attrs s' e = Map.empty))"

section \<open>Concrete pages and rendering engines\<close>

text \<open>
  A page with an empty head and body, and two rendering engines: one without layout, in
  which every rectangle is empty (the test environment of the repository), and one that
  lays out every element that is not \<^verbatim>\<open>hidden\<close> with a non-empty box. Both reject every
  selector text that is not of a modelled form; the examples hand them only such texts as
  no engine accepts (a class selector that starts with a digit).
\<close>

definition blankPage :: page where
  "blankPage =
     \<lparr>doc = ElemNode 0 [ElemNode 1 [], ElemNode 2 []], headEl = 1, bodyEl = 2,
      attrs = (\<lambda>e. Map.empty), classList = (\<lambda>e. {}), style = (\<lambda>e. Map.empty),
      tagName = (\<lambda>e. ''DIV''), listeners = [], animationTimestamps = Map.empty,
      dispatched = [], scrolledTo = [],
      searchState = \<lparr>marks = [], currentIndex = - 1, searchOpenedItems = {}\<rparr>,
      curFaqInitialized = False, curFaq = None, nextElem = 3\<rparr>"

definition noLayout :: browser where
  "noLayout =
     \<lparr>computedDisplay = (\<lambda>s e. ''block''), computedVisibility = (\<lambda>s e. ''visible''),
      rectWidth = (\<lambda>s e. 0), rectHeight = (\<lambda>s e. 0), scrollHeight = (\<lambda>s e. 0),
      dateNow = (\<lambda>s. 0), randomSuffix = (\<lambda>s. ''k3j9x0ab''),
      parseSelector = (\<lambda>sel. None)\<rparr>"

definition withLayout :: browser where
  "withLayout =
     \<lparr>computedDisplay = (\<lambda>s e. if hasAttribute s e ''hidden'' then ''none'' else ''block''),
      computedVisibility = (\<lambda>s e. ''visible''),
      rectWidth = (\<lambda>s e. 300), rectHeight = (\<lambda>s e. 40), scrollHeight = (\<lambda>s e. 40),
      dateNow = (\<lambda>s. 0), randomSuffix = (\<lambda>s. ''k3j9x0ab''),
      parseSelector = (\<lambda>sel. None)\<rparr>"

definition plainItem :: "elem \<Rightarrow> FaqItemElements" where
  "plainItem e =
     \<lparr>origin = (0, e), item = e, trigger = Some (e + 1), title = None, content = Some (e + 2),
      iconOpen = None, iconClose = None\<rparr>"

definition noTriggerItem :: "elem \<Rightarrow> FaqItemElements" where
  "noTriggerItem e = (plainItem e)\<lparr>trigger := None\<rparr>"

definition accordionGroup :: FaqGroup where
  "accordionGroup =
     \<lparr>groupEl = 5, items = [noTriggerItem 10, plainItem 20],
      config = GROUP_DEFAULTS\<lparr>accordion := True\<rparr>\<rparr>"

definition soloInstance :: FaqInstance where
  "soloInstance =
     \<lparr>instItems = [plainItem 10], instConfig = DEFAULTS,
      instGroups = [\<lparr>groupEl = 5, items = [plainItem 10], config = GROUP_DEFAULTS\<rparr>],
      styleEl = 3, mainInput = None, floating = None\<rparr>"

text \<open>
  A page after a search with three matches in one item, the first of them current, and a
  counter in the body. \<open>compoundEngine\<close> is an engine that reads the selector text
  \<^verbatim>\<open>.a.b\<close> as the language of selectors defines it: the elements with both classes
  \<^verbatim>\<open>a\<close> and \<^verbatim>\<open>b\<close>. \<open>dottedNavPage\<close> is the same page when the configured
  current-highlight class is the token \<^verbatim>\<open>a.b\<close>.
\<close>

definition navPage :: page where
  "navPage =
     blankPage
       \<lparr>doc := ElemNode 0 [ElemNode 1 [],
                 ElemNode 2 [ElemNode 10 [ElemNode 11 [ElemNode 13 [ElemNode 30 [TextNode ''faq'']]],
                                          ElemNode 12 [ElemNode 31 [TextNode ''faq''],
                                                       TextNode '' and '',
                                                       ElemNode 32 [TextNode ''faq'']]],
                             ElemNode 9 [TextNode ''1/3'']]],
        tagName := (\<lambda>e. if e = 30 \<or> e = 31 \<or> e = 32 then ''MARK''
                        else if e = 9 then ''SPAN'' else ''DIV''),
        classList := (\<lambda>e. if e = 30 then {''faq-search-highlight'', ''faq-search-current''}
                          else if e = 31 \<or> e = 32 then {''faq-search-highlight''} else {}),
        searchState := \<lparr>marks = [30, 31, 32], currentIndex = 0, searchOpenedItems = {10}\<rparr>,
        nextElem := 33\<rparr>"

definition compoundEngine :: browser where
  "compoundEngine =
     noLayout\<lparr>parseSelector :=
       (\<lambda>sel. if sel = ''.a.b''
              then Some (\<lambda>s e. ''a'' \<in> classList s e \<and> ''b'' \<in> classList s e)
              else None)\<rparr>"

definition dottedConfig :: FaqConfig where
  "dottedConfig = DEFAULTS\<lparr>classes := (classes DEFAULTS)\<lparr>currentHighlightClass := ''a.b''\<rparr>\<rparr>"

definition dottedNavPage :: page where
  "dottedNavPage =
     navPage\<lparr>classList := (\<lambda>e. if e = 30 then {''faq-search-highlight'', ''a.b''}
                               else if e = 31 \<or> e = 32 then {''faq-search-highlight''} else {})\<rparr>"

text \<open>
  A page with one item: a trigger holding the title, and a content element. The title's
  text node starts with a space, as text nodes of indented markup do.
\<close>

definition answerPage :: page where
  "answerPage =
     blankPage
       \<lparr>doc := ElemNode 0 [ElemNode 1 [],
                 ElemNode 2 [ElemNode 10 [ElemNode 11 [ElemNode 13 [TextNode '' Password reset'']],
                                          ElemNode 12 [TextNode ''Go to settings.'']]]],
        attrs := (\<lambda>e. if e = 10 then [ATTR_element \<mapsto> ROLES_item]
                      else if e = 11 then [ATTR_element \<mapsto> ROLES_trigger]
                      else if e = 12 then [ATTR_element \<mapsto> ROLES_content]
                      else if e = 13 then [ATTR_element \<mapsto> ROLES_title]
                      else Map.empty),
        nextElem := 14\<rparr>"

definition answerItem :: FaqItemElements where
  "answerItem =
     \<lparr>origin = (0, 0), item = 10, trigger = Some 11, title = Some 13, content = Some 12,
      iconOpen = None, iconClose = None\<rparr>"

text \<open>
  A page like the one the code leaves after a search for \<^verbatim>\<open>password\<close>, with an
  empty-state element \<open>9\<close> added that shows \<^verbatim>\<open>No results\<close>: the \<^verbatim>\<open>mark\<close> wraps the
  eight characters from the start of the title's text node, and the item is open by search.
\<close>

definition resultPage :: page where
  "resultPage =
     answerPage
       \<lparr>doc := ElemNode 0 [ElemNode 1 [],
                 ElemNode 2 [ElemNode 10
                   [ElemNode 11 [ElemNode 13 [ElemNode 14 [TextNode '' Passwor''],
                                              TextNode ''d reset'']],
                    ElemNode 12 [TextNode ''Go to settings.'']],
                   ElemNode 9 [TextNode ''No results'']]],
        attrs := (\<lambda>e. if e = 10 then [ATTR_element \<mapsto> ROLES_item, ATTR_dataOpen \<mapsto> ''true'',
                                       ATTR_dataOpenedBySearch \<mapsto> ''true'']
                      else if e = 11 then [ATTR_element \<mapsto> ROLES_trigger,
                                           ''aria-expanded'' \<mapsto> ''true'']
                      else if e = 9 then [ATTR_element \<mapsto> ROLES_emptyState]
                      else attrs answerPage e),
        tagName := (\<lambda>e. if e = 14 then ''MARK'' else ''DIV''),
        classList := (\<lambda>e. if e = 14 then {''faq-search-highlight'', ''faq-search-current''} else {}),
        searchState := \<lparr>marks = [14], currentIndex = 0, searchOpenedItems = {10}\<rparr>,
        nextElem := 15\<rparr>"

text \<open>
  A configuration whose highlight class starts with a digit: a valid class token, but
  \<^verbatim>\<open>mark.9lives\<close> is no selector.
\<close>

definition digitConfig :: FaqConfig where
  "digitConfig = DEFAULTS\<lparr>classes := (classes DEFAULTS)\<lparr>highlightClass := ''9lives''\<rparr>\<rparr>"

text \<open>
  A page with two groups. The first is an accordion of three items, the second of which has
  no content element; the other group has one item. The items with a content element are
  closed: marker \<^verbatim>\<open>"false"\<close>, content \<^verbatim>\<open>hidden\<close>, \<^verbatim>\<open>aria-expanded="false"\<close>. The item
  without content has no marker, as after \<^verbatim>\<open>initFaq\<close>.
\<close>

definition accordionPage :: page where
  "accordionPage =
     blankPage
       \<lparr>doc := ElemNode 0 [ElemNode 1 [],
                 ElemNode 2 [ElemNode 5 [ElemNode 10 [ElemNode 11 [], ElemNode 12 []],
                                         ElemNode 20 [ElemNode 21 []],
                                         ElemNode 40 [ElemNode 41 [], ElemNode 42 []]],
                             ElemNode 6 [ElemNode 30 [ElemNode 31 [], ElemNode 32 []]]]],
        attrs := (\<lambda>e. if e = 5 then [ATTR_element \<mapsto> ROLES_group, ATTR_accordion \<mapsto> ''true'']
                      else if e = 6 then [ATTR_element \<mapsto> ROLES_group]
                      else if e = 10 \<or> e = 30 \<or> e = 40
                        then [ATTR_element \<mapsto> ROLES_item, ATTR_dataOpen \<mapsto> ''false'']
                      else if e = 20 then [ATTR_element \<mapsto> ROLES_item]
                      else if e = 11 \<or> e = 31 \<or> e = 41
                        then [ATTR_element \<mapsto> ROLES_trigger, ''aria-expanded'' \<mapsto> ''false'']
                      else if e = 21 then [ATTR_element \<mapsto> ROLES_trigger]
                      else if e = 12 \<or> e = 32 \<or> e = 42
                        then [ATTR_element \<mapsto> ROLES_content, ''hidden'' \<mapsto> []]
                      else Map.empty),
        nextElem := 50\<rparr>"

definition fullItem :: "nat \<times> nat \<Rightarrow> elem \<Rightarrow> FaqItemElements" where
  "fullItem org e =
     \<lparr>origin = org, item = e, trigger = Some (e + 1), title = None, content = Some (e + 2),
      iconOpen = None, iconClose = None\<rparr>"

definition bareItem :: "nat \<times> nat \<Rightarrow> elem \<Rightarrow> FaqItemElements" where
  "bareItem org e =
     \<lparr>origin = org, item = e, trigger = Some (e + 1), title = None, content = None,
      iconOpen = None, iconClose = None\<rparr>"

definition firstGroup :: FaqGroup where
  "firstGroup =
     \<lparr>groupEl = 5, items = [fullItem (0, 0) 10, bareItem (0, 1) 20, fullItem (0, 2) 40],
      config = \<lparr>accordion = True, defaultOpen = None, collapseDuration = 250\<rparr>\<rparr>"

definition secondGroup :: FaqGroup where
  "secondGroup =
     \<lparr>groupEl = 6, items = [fullItem (1, 0) 30],
      config = \<lparr>accordion = False, defaultOpen = None, collapseDuration = 250\<rparr>\<rparr>"

definition accordionInstance :: FaqInstance where
  "accordionInstance =
     \<lparr>instItems = items firstGroup @ items secondGroup, instConfig = DEFAULTS,
      instGroups = [firstGroup, secondGroup], styleEl = 49, mainInput = None, floating = None\<rparr>"
section \<open>Properties of the item state machine\<close>

lemma setItemState_missing:
  "content it = None \<or> trigger it = None \<Longrightarrow> setItemState B it opn src cfg grp s = s"
  by (subst setItemState.simps) (auto split: option.splits)

lemma setItemState_None:
  "setItemState B it opn src cfg None s =
     (case content it of None \<Rightarrow> s | Some c \<Rightarrow>
      (case trigger it of None \<Rightarrow> s | Some t \<Rightarrow> writeItemState B it opn src cfg c t s))"
  by (subst setItemState.simps) (simp add: writeItemState_def split: option.splits)

lemma setItemState_close_None: "setItemState B it False src cfg None s = closeItem B it src cfg s"
  by (simp add: setItemState_None closeItem_def)

lemma setItemState_Some:
  "content it = Some c \<Longrightarrow> trigger it = Some t \<Longrightarrow>
   setItemState B it opn src cfg (Some g) s =
     writeItemState B it opn src cfg c t
       (if opn \<and> accordion (config g) then closeSiblings B it src cfg (items g) s else s)"
  by (subst setItemState.simps)
     (simp add: writeItemState_def closeSiblings_def setItemState_close_None
        cong del: if_weak_cong)

text \<open>
  Each primitive changes one or two fields of the page; the lemmas below say which, field by
  field, so that later proofs never unfold a primitive.
\<close>

lemma setAttribute_fields [simp]:
  "doc (setAttribute e a v s) = doc s"
  "headEl (setAttribute e a v s) = headEl s"
  "bodyEl (setAttribute e a v s) = bodyEl s"
  "attrs (setAttribute e a v s) = (attrs s)(e := (attrs s e)(a \<mapsto> v))"
  "classList (setAttribute e a v s) = classList s"
  "style (setAttribute e a v s) = style s"
  "tagName (setAttribute e a v s) = tagName s"
  "listeners (setAttribute e a v s) = listeners s"
  "animationTimestamps (setAttribute e a v s) = animationTimestamps s"
  "dispatched (setAttribute e a v s) = dispatched s"
  "scrolledTo (setAttribute e a v s) = scrolledTo s"
  "searchState (setAttribute e a v s) = searchState s"
  "curFaqInitialized (setAttribute e a v s) = curFaqInitialized s"
  "curFaq (setAttribute e a v s) = curFaq s"
  "nextElem (setAttribute e a v s) = nextElem s"
  by (simp_all add: setAttribute_def)

lemma removeAttribute_fields [simp]:
  "doc (removeAttribute e a s) = doc s"
  "headEl (removeAttribute e a s) = headEl s"
  "bodyEl (removeAttribute e a s) = bodyEl s"
  "attrs (removeAttribute e a s) = (attrs s)(e := (attrs s e)(a := None))"
  "classList (removeAttribute e a s) = classList s"
  "style (removeAttribute e a s) = style s"
  "tagName (removeAttribute e a s) = tagName s"
  "listeners (removeAttribute e a s) = listeners s"
  "animationTimestamps (removeAttribute e a s) = animationTimestamps s"
  "dispatched (removeAttribute e a s) = dispatched s"
  "scrolledTo (removeAttribute e a s) = scrolledTo s"
  "searchState (removeAttribute e a s) = searchState s"
  "curFaqInitialized (removeAttribute e a s) = curFaqInitialized s"
  "curFaq (removeAttribute e a s) = curFaq s"
  "nextElem (removeAttribute e a s) = nextElem s"
  by (simp_all add: removeAttribute_def)

lemma classToggle_fields [simp]:
  "doc (classToggle e c force s) = doc s"
  "headEl (classToggle e c force s) = headEl s"
  "bodyEl (classToggle e c force s) = bodyEl s"
  "attrs (classToggle e c force s) = attrs s"
  "classList (classToggle e c force s) = (classList s)(e := (if force then insert c (classList s e) else classList s e - {c}))"
  "style (classToggle e c force s) = style s"
  "tagName (classToggle e c force s) = tagName s"
  "listeners (classToggle e c force s) = listeners s"
  "animationTimestamps (classToggle e c force s) = animationTimestamps s"
  "dispatched (classToggle e c force s) = dispatched s"
  "scrolledTo (classToggle e c force s) = scrolledTo s"
  "searchState (classToggle e c force s) = searchState s"
  "curFaqInitialized (classToggle e c force s) = curFaqInitialized s"
  "curFaq (classToggle e c force s) = curFaq s"
  "nextElem (classToggle e c force s) = nextElem s"
  by (simp_all add: classToggle_def)

lemma classAdd_fields [simp]:
  "doc (classAdd e c s) = doc s"
  "headEl (classAdd e c s) = headEl s"
  "bodyEl (classAdd e c s) = bodyEl s"
  "attrs (classAdd e c s) = attrs s"
  "classList (classAdd e c s) = (classList s)(e := insert c (classList s e))"
  "style (classAdd e c s) = style s"
  "tagName (classAdd e c s) = tagName s"
  "listeners (classAdd e c s) = listeners s"
  "animationTimestamps (classAdd e c s) = animationTimestamps s"
  "dispatched (classAdd e c s) = dispatched s"
  "scrolledTo (classAdd e c s) = scrolledTo s"
  "searchState (classAdd e c s) = searchState s"
  "curFaqInitialized (classAdd e c s) = curFaqInitialized s"
  "curFaq (classAdd e c s) = curFaq s"
  "nextElem (classAdd e c s) = nextElem s"
  by (simp_all add: classAdd_def)

lemma classRemove_fields [simp]:
  "doc (classRemove e c s) = doc s"
  "headEl (classRemove e c s) = headEl s"
  "bodyEl (classRemove e c s) = bodyEl s"
  "attrs (classRemove e c s) = attrs s"
  "classList (classRemove e c s) = (classList s)(e := classList s e - {c})"
  "style (classRemove e c s) = style s"
  "tagName (classRemove e c s) = tagName s"
  "listeners (classRemove e c s) = listeners s"
  "animationTimestamps (classRemove e c s) = animationTimestamps s"
  "dispatched (classRemove e c s) = dispatched s"
  "scrolledTo (classRemove e c s) = scrolledTo s"
  "searchState (classRemove e c s) = searchState s"
  "curFaqInitialized (classRemove e c s) = curFaqInitialized s"
  "curFaq (classRemove e c s) = curFaq s"
  "nextElem (classRemove e c s) = nextElem s"
  by (simp_all add: classRemove_def)

lemma setStyle_fields [simp]:
  "doc (setStyle e p v s) = doc s"
  "headEl (setStyle e p v s) = headEl s"
  "bodyEl (setStyle e p v s) = bodyEl s"
  "attrs (setStyle e p v s) = attrs s"
  "classList (setStyle e p v s) = classList s"
  "style (setStyle e p v s) = (style s)(e := (style s e)(p := (if v = [] then None else Some v)))"
  "tagName (setStyle e p v s) = tagName s"
  "listeners (setStyle e p v s) = listeners s"
  "animationTimestamps (setStyle e p v s) = animationTimestamps s"
  "dispatched (setStyle e p v s) = dispatched s"
  "scrolledTo (setStyle e p v s) = scrolledTo s"
  "searchState (setStyle e p v s) = searchState s"
  "curFaqInitialized (setStyle e p v s) = curFaqInitialized s"
  "curFaq (setStyle e p v s) = curFaq s"
  "nextElem (setStyle e p v s) = nextElem s"
  by (simp_all add: setStyle_def)

lemma addEventListener_fields [simp]:
  "doc (addEventListener e ty l s) = doc s"
  "headEl (addEventListener e ty l s) = headEl s"
  "bodyEl (addEventListener e ty l s) = bodyEl s"
  "attrs (addEventListener e ty l s) = attrs s"
  "classList (addEventListener e ty l s) = classList s"
  "style (addEventListener e ty l s) = style s"
  "tagName (addEventListener e ty l s) = tagName s"
  "listeners (addEventListener e ty l s) = listeners s @ [(e, ty, l)]"
  "animationTimestamps (addEventListener e ty l s) = animationTimestamps s"
  "dispatched (addEventListener e ty l s) = dispatched s"
  "scrolledTo (addEventListener e ty l s) = scrolledTo s"
  "searchState (addEventListener e ty l s) = searchState s"
  "curFaqInitialized (addEventListener e ty l s) = curFaqInitialized s"
  "curFaq (addEventListener e ty l s) = curFaq s"
  "nextElem (addEventListener e ty l s) = nextElem s"
  by (simp_all add: addEventListener_def)

lemma removeEventListener_fields [simp]:
  "doc (removeEventListener e ty l s) = doc s"
  "headEl (removeEventListener e ty l s) = headEl s"
  "bodyEl (removeEventListener e ty l s) = bodyEl s"
  "attrs (removeEventListener e ty l s) = attrs s"
  "classList (removeEventListener e ty l s) = classList s"
  "style (removeEventListener e ty l s) = style s"
  "tagName (removeEventListener e ty l s) = tagName s"
  "listeners (removeEventListener e ty l s) = remove1 (e, ty, l) (listeners s)"
  "animationTimestamps (removeEventListener e ty l s) = animationTimestamps s"
  "dispatched (removeEventListener e ty l s) = dispatched s"
  "scrolledTo (removeEventListener e ty l s) = scrolledTo s"
  "searchState (removeEventListener e ty l s) = searchState s"
  "curFaqInitialized (removeEventListener e ty l s) = curFaqInitialized s"
  "curFaq (removeEventListener e ty l s) = curFaq s"
  "nextElem (removeEventListener e ty l s) = nextElem s"
  by (simp_all add: removeEventListener_def)

lemma dispatchEvent_fields [simp]:
  "doc (dispatchEvent e ev s) = doc s"
  "headEl (dispatchEvent e ev s) = headEl s"
  "bodyEl (dispatchEvent e ev s) = bodyEl s"
  "attrs (dispatchEvent e ev s) = attrs s"
  "classList (dispatchEvent e ev s) = classList s"
  "style (dispatchEvent e ev s) = style s"
  "tagName (dispatchEvent e ev s) = tagName s"
  "listeners (dispatchEvent e ev s) = listeners s"
  "animationTimestamps (dispatchEvent e ev s) = animationTimestamps s"
  "dispatched (dispatchEvent e ev s) = dispatched s @ [(e, ev)]"
  "scrolledTo (dispatchEvent e ev s) = scrolledTo s"
  "searchState (dispatchEvent e ev s) = searchState s"
  "curFaqInitialized (dispatchEvent e ev s) = curFaqInitialized s"
  "curFaq (dispatchEvent e ev s) = curFaq s"
  "nextElem (dispatchEvent e ev s) = nextElem s"
  by (simp_all add: dispatchEvent_def)

lemma setIconVisibility_fields [simp]:
  "doc (setIconVisibility icon visible s) = doc s"
  "headEl (setIconVisibility icon visible s) = headEl s"
  "bodyEl (setIconVisibility icon visible s) = bodyEl s"
  "attrs (setIconVisibility icon visible s) = attrs s"
  "classList (setIconVisibility icon visible s) = (case icon of None \<Rightarrow> classList s
      | Some i \<Rightarrow> (classList s)(i := (if visible
            then insert ''cur-faq-icon-visible'' (classList s i) - {''cur-faq-icon-hidden''}
            else insert ''cur-faq-icon-hidden'' (classList s i - {''cur-faq-icon-visible''}))))"
  "style (setIconVisibility icon visible s) = style s"
  "tagName (setIconVisibility icon visible s) = tagName s"
  "listeners (setIconVisibility icon visible s) = listeners s"
  "animationTimestamps (setIconVisibility icon visible s) = animationTimestamps s"
  "dispatched (setIconVisibility icon visible s) = dispatched s"
  "scrolledTo (setIconVisibility icon visible s) = scrolledTo s"
  "searchState (setIconVisibility icon visible s) = searchState s"
  "curFaqInitialized (setIconVisibility icon visible s) = curFaqInitialized s"
  "curFaq (setIconVisibility icon visible s) = curFaq s"
  "nextElem (setIconVisibility icon visible s) = nextElem s"
  by (simp_all add: setIconVisibility_def split: option.splits)

lemma expandElement_fields [simp]:
  "doc (expandElement B el s) = doc s"
  "headEl (expandElement B el s) = headEl s"
  "bodyEl (expandElement B el s) = bodyEl s"
  "attrs (expandElement B el s) = (attrs s)(el := (attrs s el)(''hidden'' := None))"
  "classList (expandElement B el s) = classList s"
  "tagName (expandElement B el s) = tagName s"
  "listeners (expandElement B el s) = listeners s @ [(el, ''transitionend'', ExpandEnd (dateNow B s))]"
  "animationTimestamps (expandElement B el s) = (animationTimestamps s)(el \<mapsto> dateNow B s)"
  "dispatched (expandElement B el s) = dispatched s"
  "scrolledTo (expandElement B el s) = scrolledTo s"
  "searchState (expandElement B el s) = searchState s"
  "curFaqInitialized (expandElement B el s) = curFaqInitialized s"
  "curFaq (expandElement B el s) = curFaq s"
  "nextElem (expandElement B el s) = nextElem s"
  by (simp_all add: expandElement_def Let_def)

lemma collapseElement_fields [simp]:
  "doc (collapseElement B el s) = doc s"
  "headEl (collapseElement B el s) = headEl s"
  "bodyEl (collapseElement B el s) = bodyEl s"
  "attrs (collapseElement B el s) = attrs s"
  "classList (collapseElement B el s) = classList s"
  "tagName (collapseElement B el s) = tagName s"
  "listeners (collapseElement B el s) = (if attrs s el ''hidden'' \<noteq> None then listeners s else listeners s @ [(el, ''transitionend'', CollapseEnd (dateNow B s))])"
  "animationTimestamps (collapseElement B el s) = (animationTimestamps s)(el \<mapsto> dateNow B s)"
  "dispatched (collapseElement B el s) = dispatched s"
  "scrolledTo (collapseElement B el s) = scrolledTo s"
  "searchState (collapseElement B el s) = searchState s"
  "curFaqInitialized (collapseElement B el s) = curFaqInitialized s"
  "curFaq (collapseElement B el s) = curFaq s"
  "nextElem (collapseElement B el s) = nextElem s"
  by (simp_all add: collapseElement_def Let_def hasAttribute_def)

lemma ATTR_neq [simp]:
  "ATTR_dataOpen \<noteq> ''aria-expanded''" "ATTR_dataOpen \<noteq> ''hidden''"
  "ATTR_dataOpen \<noteq> ATTR_dataOpenedBySearch"
  "ATTR_dataOpenedBySearch \<noteq> ''aria-expanded''" "ATTR_dataOpenedBySearch \<noteq> ''hidden''"
  "ATTR_dataOpenedBySearch \<noteq> ATTR_dataOpen"
  "''aria-expanded'' \<noteq> ATTR_dataOpen" "''hidden'' \<noteq> ATTR_dataOpen"
  "''aria-expanded'' \<noteq> ATTR_dataOpenedBySearch" "''hidden'' \<noteq> ATTR_dataOpenedBySearch"
  by (simp_all add: ATTR_dataOpen_def ATTR_dataOpenedBySearch_def)

lemma String_bool_simps [simp]:
  "String_bool True = ''true''" "String_bool False = ''false''"
  "(String_bool b = ''true'') = b" "(String_bool b = ''false'') = (\<not> b)"
  by (auto simp: String_bool_def)

lemma write_marker:
  "getAttribute (writeItemState B it opn src cfg c t s) (item it) ATTR_dataOpen = Some (String_bool opn)"
  by (simp add: writeItemState_def getAttribute_def Let_def)

lemma write_marker_other:
  "e \<noteq> item it \<Longrightarrow>
   getAttribute (writeItemState B it opn src cfg c t s) e ATTR_dataOpen = getAttribute s e ATTR_dataOpen"
  by (simp add: writeItemState_def getAttribute_def Let_def)

lemma write_aria:
  "getAttribute (writeItemState B it opn src cfg c t s) t ''aria-expanded'' = Some (String_bool opn)"
  by (simp add: writeItemState_def getAttribute_def Let_def)

lemma write_bySearch:
  "getAttribute (writeItemState B it opn src cfg c t s) (item it) ATTR_dataOpenedBySearch =
     (if opn then (if src = Search then Some ''true'' else None)
      else (if src = Search then None else getAttribute s (item it) ATTR_dataOpenedBySearch))"
  by (simp add: writeItemState_def getAttribute_def Let_def)

lemma write_searchOpened:
  "searchOpenedItems (searchState (writeItemState B it opn src cfg c t s)) =
     (if opn then (if src = Search then insert (item it) (searchOpenedItems (searchState s))
                   else searchOpenedItems (searchState s) - {item it})
      else (if src = Search then searchOpenedItems (searchState s) - {item it}
            else searchOpenedItems (searchState s)))"
  by (simp add: writeItemState_def getAttribute_def Let_def)

lemma write_classList_item:
  "iconOpen it \<noteq> Some (item it) \<Longrightarrow> iconClose it \<noteq> Some (item it) \<Longrightarrow>
   classList (writeItemState B it opn src cfg c t s) (item it) =
     (if opn then insert (activeClass (classes cfg)) (classList s (item it))
      else classList s (item it) - {activeClass (classes cfg)})"
  by (cases "iconOpen it"; cases "iconClose it")
     (simp_all add: writeItemState_def Let_def)

lemma write_active:
  "iconOpen it \<noteq> Some (item it) \<Longrightarrow> iconClose it \<noteq> Some (item it) \<Longrightarrow>
   (activeClass (classes cfg) \<in> classList (writeItemState B it opn src cfg c t s) (item it)) = opn"
  by (simp add: write_classList_item)

lemma write_hidden:
  "getAttribute (writeItemState B it opn src cfg c t s) c ''hidden'' =
     (if opn then None else getAttribute s c ''hidden'')"
  by (simp add: writeItemState_def getAttribute_def Let_def)

lemma closeItem_marker:
  "content y = Some c \<Longrightarrow> trigger y = Some t \<Longrightarrow>
   getAttribute (closeItem B y src cfg s) (item y) ATTR_dataOpen = Some ''false''"
  by (simp add: closeItem_def write_marker)

lemma closeItem_marker_other:
  "e \<noteq> item y \<Longrightarrow>
   getAttribute (closeItem B y src cfg s) e ATTR_dataOpen = getAttribute s e ATTR_dataOpen"
  by (simp add: closeItem_def write_marker_other split: option.splits)

lemma closeSiblings_Nil [simp]: "closeSiblings B x src cfg [] s = s"
  by (simp add: closeSiblings_def)

lemma closeSiblings_Cons [simp]:
  "closeSiblings B x src cfg (y # ys) s =
     closeSiblings B x src cfg ys
       (if y \<noteq> x \<and> isItemOpen B s y then closeItem B y src cfg s else s)"
  by (simp add: closeSiblings_def)

lemma closeSiblings_frame:
  "e \<notin> item ` set ys \<Longrightarrow>
   getAttribute (closeSiblings B x src cfg ys s) e ATTR_dataOpen = getAttribute s e ATTR_dataOpen"
  by (induction ys arbitrary: s) (auto simp: closeItem_marker_other)

lemma not_open_marker:
  "\<not> isItemOpen B s y \<Longrightarrow> getAttribute s (item y) ATTR_dataOpen \<noteq> Some ''true''"
  by (auto simp: isItemOpen_def)

lemma closeSiblings_marker:
  "distinct (map item ys) \<Longrightarrow> y \<in> set ys \<Longrightarrow> y \<noteq> x \<Longrightarrow>
   content y = Some c \<Longrightarrow> trigger y = Some t \<Longrightarrow>
   getAttribute (closeSiblings B x src cfg ys s) (item y) ATTR_dataOpen = Some ''false'' \<or>
   (getAttribute (closeSiblings B x src cfg ys s) (item y) ATTR_dataOpen =
      getAttribute s (item y) ATTR_dataOpen \<and>
    getAttribute s (item y) ATTR_dataOpen \<noteq> Some ''true'')"
proof (induction ys arbitrary: s)
  case Nil
  then show ?case by simp
next
  case (Cons z zs)
  let ?s1 = "if z \<noteq> x \<and> isItemOpen B s z then closeItem B z src cfg s else s"
  show ?case
  proof (cases "y = z")
    case True
    with Cons.prems have notin: "item y \<notin> item ` set zs" by auto
    have fr: "getAttribute (closeSiblings B x src cfg zs ?s1) (item y) ATTR_dataOpen =
              getAttribute ?s1 (item y) ATTR_dataOpen"
      by (rule closeSiblings_frame [OF notin])
    show ?thesis
    proof (cases "isItemOpen B s y")
      case True
      with \<open>y = z\<close> Cons.prems fr show ?thesis
        by (simp add: closeItem_marker)
    next
      case False
      with \<open>y = z\<close> Cons.prems fr not_open_marker [OF False] show ?thesis
        by simp
    qed
  next
    case False
    with Cons.prems have yin: "y \<in> set zs" and dz: "distinct (map item zs)"
      by auto
    have "item z \<notin> item ` set zs" using Cons.prems(1) by simp
    moreover have "item y \<in> item ` set zs" using yin by (rule imageI)
    ultimately have ne: "item y \<noteq> item z" by metis
    have keep: "getAttribute ?s1 (item y) ATTR_dataOpen = getAttribute s (item y) ATTR_dataOpen"
      using ne by (simp add: closeItem_marker_other)
    from Cons.IH [OF dz yin Cons.prems(3,4,5), of ?s1] keep show ?thesis
      by (simp del: closeSiblings_Cons add: closeSiblings_Cons [of B x src cfg z zs s])
  qed
qed

lemma plainItem_simps [simp]:
  "item (plainItem e) = e" "trigger (plainItem e) = Some (e + 1)"
  "content (plainItem e) = Some (e + 2)" "title (plainItem e) = None"
  "iconOpen (plainItem e) = None" "iconClose (plainItem e) = None"
  by (simp_all add: plainItem_def)

lemma noTriggerItem_simps [simp]:
  "item (noTriggerItem e) = e" "trigger (noTriggerItem e) = None"
  "content (noTriggerItem e) = Some (e + 2)"
  by (simp_all add: noTriggerItem_def)

lemma plainItem_eq [simp]: "(plainItem a = plainItem b) = (a = b)"
  by (auto simp: plainItem_def)

lemma noTrigger_neq_plain [simp]: "noTriggerItem a \<noteq> plainItem b" "plainItem b \<noteq> noTriggerItem a"
  by (auto simp: plainItem_def noTriggerItem_def)

subsection \<open>Missing sub-elements\<close>

text \<open>
  C5. For an item whose content element or trigger element is missing, \<open>setItemState\<close>
  returns the page it was given, whatever the requested state, the provenance and the
  group: no attribute, class, icon, animation, provenance or event effect. \<open>toggle\<close> on
  such an item is the identity as well. Every function of the model is total, so nothing
  is thrown on this path.
\<close>

theorem setItemState_missing_noop:
  assumes "content it = None \<or> trigger it = None"
  shows "setItemState B it opn src cfg grp s = s \<and> toggle B inst it s = s"
  using assms by (simp add: toggle_def setItemState_missing Let_def)

text \<open>An item without a trigger, opened by a search inside an accordion group.\<close>

theorem setItemState_missing_noop_witness:
  "(content (noTriggerItem 10) = None \<or> trigger (noTriggerItem 10) = None) \<and>
   setItemState withLayout (noTriggerItem 10) True Search DEFAULTS (Some accordionGroup) blankPage
     = blankPage \<and>
   toggle withLayout soloInstance (noTriggerItem 10) blankPage = blankPage"
  using setItemState_missing_noop [of "noTriggerItem 10" withLayout True Search DEFAULTS
      "Some accordionGroup" blankPage soloInstance]
  by simp

subsection \<open>Provenance bookkeeping\<close>

text \<open>
  C1 (as the code has it). For an item with content and trigger: opening with provenance
  \<open>Search\<close> sets \<^verbatim>\<open>data-opened-by-search="true"\<close> and adds the item to the
  search-opened set; opening with \<open>User\<close> removes the attribute and the membership;
  closing with \<open>Search\<close> removes both; closing with \<open>User\<close> leaves both as they were.
\<close>

theorem setItemState_provenance:
  assumes "content it = Some c" and "trigger it = Some t"
  shows "getAttribute (setItemState B it opn src cfg grp s) (item it) ATTR_dataOpenedBySearch =
           (if opn then (if src = Search then Some ''true'' else None)
            else if src = Search then None
            else getAttribute s (item it) ATTR_dataOpenedBySearch) \<and>
         (item it \<in> searchOpenedItems (searchState (setItemState B it opn src cfg grp s))) =
           (if opn then src = Search
            else src \<noteq> Search \<and> item it \<in> searchOpenedItems (searchState s))"
proof (cases grp)
  case None
  with assms show ?thesis
    by (simp add: setItemState_None write_bySearch write_searchOpened)
next
  case (Some g)
  with assms show ?thesis
    by (simp add: setItemState_Some write_bySearch write_searchOpened)
qed

text \<open>Opening a plain item by search on the blank page.\<close>

theorem setItemState_provenance_witness:
  "content (plainItem 10) = Some 12 \<and> trigger (plainItem 10) = Some 11 \<and>
   getAttribute (setItemState noLayout (plainItem 10) True Search DEFAULTS None blankPage) 10
     ATTR_dataOpenedBySearch = Some ''true'' \<and>
   10 \<in> searchOpenedItems
          (searchState (setItemState noLayout (plainItem 10) True Search DEFAULTS None blankPage))"
  using setItemState_provenance [of "plainItem 10" 12 11 noLayout True Search DEFAULTS None blankPage]
  by simp

text \<open>
  An item opened by a search and then closed by the user keeps the attribute and stays in
  the search-opened set: the close branch clears them under \<^verbatim>\<open>source === 'search'\<close> only.
\<close>

theorem close_by_user_keeps_search_provenance:
  "getAttribute
     (setItemState noLayout (plainItem 10) False User DEFAULTS None
        (setItemState noLayout (plainItem 10) True Search DEFAULTS None blankPage))
     10 ATTR_dataOpenedBySearch = Some ''true'' \<and>
   10 \<in> searchOpenedItems (searchState
     (setItemState noLayout (plainItem 10) False User DEFAULTS None
        (setItemState noLayout (plainItem 10) True Search DEFAULTS None blankPage)))"
  by (simp add: setItemState_None write_bySearch [where it = "plainItem 10", simplified]
        write_searchOpened [where it = "plainItem 10", simplified])

lemma setItemState_marker:
  "content it = Some c \<Longrightarrow> trigger it = Some t \<Longrightarrow>
   getAttribute (setItemState B it opn src cfg grp s) (item it) ATTR_dataOpen
     = Some (String_bool opn)"
  by (cases grp) (simp_all add: setItemState_None setItemState_Some write_marker)

lemma setItemState_active:
  "content it = Some c \<Longrightarrow> trigger it = Some t \<Longrightarrow>
   iconOpen it \<noteq> Some (item it) \<Longrightarrow> iconClose it \<noteq> Some (item it) \<Longrightarrow>
   (activeClass (classes cfg) \<in> classList (setItemState B it opn src cfg grp s) (item it)) = opn"
  by (cases grp) (simp_all add: setItemState_None setItemState_Some write_active)

lemma blankPage_fields [simp]:
  "attrs blankPage = (\<lambda>e. Map.empty)" "classList blankPage = (\<lambda>e. {})"
  "searchState blankPage = \<lparr>marks = [], currentIndex = - 1, searchOpenedItems = {}\<rparr>"
  "dispatched blankPage = []"
  by (simp_all add: blankPage_def)

section \<open>Properties of the match navigator\<close>

lemma jsRem_mod: "0 < n \<Longrightarrow> jsRem i n mod n = i mod n"
proof -
  assume n: "0 < n"
  consider "0 < i" | "i = 0" | "i < 0" by linarith
  then show ?thesis
  proof cases
    case 1
    with n show ?thesis by (simp add: jsRem_def)
  next
    case 2
    then show ?thesis by (simp add: jsRem_def)
  next
    case 3
    with n have "jsRem i n = - ((- i) mod n)" by (simp add: jsRem_def)
    then show ?thesis by (simp add: mod_minus_eq)
  qed
qed

lemma jsRem_gt: "0 < n \<Longrightarrow> - n < jsRem i n"
proof -
  assume n: "0 < n"
  have "\<bar>i\<bar> mod n < n" using n by simp
  moreover have "0 \<le> \<bar>i\<bar> mod n" using n by simp
  ultimately show ?thesis
    by (cases "0 \<le> i") (auto simp: jsRem_def sgn_if abs_if)
qed

lemma jsRem_ring: "0 < n \<Longrightarrow> jsRem (jsRem i n + n) n = i mod n"
proof -
  assume n: "0 < n"
  from jsRem_gt [OF n, of i] have pos: "0 < jsRem i n + n" by simp
  then have "jsRem (jsRem i n + n) n = (jsRem i n + n) mod n"
    using n by (simp add: jsRem_def)
  also have "\<dots> = jsRem i n mod n" by simp
  also have "\<dots> = i mod n" by (rule jsRem_mod [OF n])
  finally show ?thesis .
qed

lemma findNode_root:
  "findNode e n = Some m \<Longrightarrow> \<exists>ks. m = ElemNode e ks"
  "findNodes e ns = Some m \<Longrightarrow> \<exists>ks. m = ElemNode e ks"
  by (induction e n and e ns rule: findNode_findNodes.induct)
     (auto split: option.splits if_splits)

lemma findNode_None_iff:
  "(findNode e n = None) = (e \<notin> set (elemsOf n))"
  "(findNodes e ns = None) = (e \<notin> set (concat (map elemsOf ns)))"
  by (induction e n and e ns rule: findNode_findNodes.induct)
     (auto split: option.splits)

lemma elemsOf_findNode:
  "e \<in> set (elemsOf n) \<Longrightarrow> \<exists>ks. findNode e n = Some (ElemNode e ks)"
  using findNode_None_iff(1) [of e n] findNode_root(1) [of e n]
  by (cases "findNode e n") auto

lemma updateChildren_absent:
  "e \<notin> set (elemsOf n) \<Longrightarrow> updateChildren e f n = n"
  by (induction e f n rule: updateChildren.induct) (auto intro: map_idI)

lemma findNode_updateChildren:
  "findNode e n = Some (ElemNode e ks) \<Longrightarrow>
   findNode e (updateChildren e f n) = Some (ElemNode e (f ks))"
  "findNodes e ns = Some (ElemNode e ks) \<Longrightarrow>
   findNodes e (map (updateChildren e f) ns) = Some (ElemNode e (f ks))"
proof (induction e n and e ns arbitrary: ks and ks rule: findNode_findNodes.induct)
  case (4 e k ks')
  show ?case
  proof (cases "findNode e k")
    case None
    then have "e \<notin> set (elemsOf k)" by (simp add: findNode_None_iff)
    then have "findNode e (updateChildren e f k) = None"
      using None by (simp add: updateChildren_absent)
    with None 4 show ?thesis by simp
  next
    case (Some m)
    with 4 show ?thesis by simp
  qed
qed auto


lemma textContent_setTextContent:
  "c \<in> set (elemsOf (doc s)) \<Longrightarrow> textContent (setTextContent c str s) c = str"
proof -
  assume "c \<in> set (elemsOf (doc s))"
  then obtain ks where "findNode c (doc s) = Some (ElemNode c ks)"
    using elemsOf_findNode by blast
  then show ?thesis
    by (simp add: textContent_def setTextContent_def findNode_updateChildren(1))
qed

lemma setTextContent_fields [simp]:
  "headEl (setTextContent c str s) = headEl s"
  "bodyEl (setTextContent c str s) = bodyEl s"
  "attrs (setTextContent c str s) = attrs s"
  "classList (setTextContent c str s) = classList s"
  "style (setTextContent c str s) = style s"
  "tagName (setTextContent c str s) = tagName s"
  "listeners (setTextContent c str s) = listeners s"
  "animationTimestamps (setTextContent c str s) = animationTimestamps s"
  "dispatched (setTextContent c str s) = dispatched s"
  "scrolledTo (setTextContent c str s) = scrolledTo s"
  "searchState (setTextContent c str s) = searchState s"
  "curFaqInitialized (setTextContent c str s) = curFaqInitialized s"
  "curFaq (setTextContent c str s) = curFaq s"
  "nextElem (setTextContent c str s) = nextElem s"
  by (simp_all add: setTextContent_def)

lemma smoothScrollTo_fields [simp]:
  "doc (smoothScrollTo e s) = doc s"
  "headEl (smoothScrollTo e s) = headEl s"
  "bodyEl (smoothScrollTo e s) = bodyEl s"
  "attrs (smoothScrollTo e s) = attrs s"
  "classList (smoothScrollTo e s) = classList s"
  "style (smoothScrollTo e s) = style s"
  "tagName (smoothScrollTo e s) = tagName s"
  "listeners (smoothScrollTo e s) = listeners s"
  "animationTimestamps (smoothScrollTo e s) = animationTimestamps s"
  "dispatched (smoothScrollTo e s) = dispatched s"
  "scrolledTo (smoothScrollTo e s) = scrolledTo s @ [e]"
  "searchState (smoothScrollTo e s) = searchState s"
  "curFaqInitialized (smoothScrollTo e s) = curFaqInitialized s"
  "curFaq (smoothScrollTo e s) = curFaq s"
  "nextElem (smoothScrollTo e s) = nextElem s"
  by (simp_all add: smoothScrollTo_def)

lemma updateMatchCounter_fields [simp]:
  "headEl (updateMatchCounter ce s) = headEl s"
  "bodyEl (updateMatchCounter ce s) = bodyEl s"
  "attrs (updateMatchCounter ce s) = attrs s"
  "classList (updateMatchCounter ce s) = classList s"
  "style (updateMatchCounter ce s) = style s"
  "tagName (updateMatchCounter ce s) = tagName s"
  "listeners (updateMatchCounter ce s) = listeners s"
  "animationTimestamps (updateMatchCounter ce s) = animationTimestamps s"
  "dispatched (updateMatchCounter ce s) = dispatched s"
  "scrolledTo (updateMatchCounter ce s) = scrolledTo s"
  "searchState (updateMatchCounter ce s) = searchState s"
  "curFaqInitialized (updateMatchCounter ce s) = curFaqInitialized s"
  "curFaq (updateMatchCounter ce s) = curFaq s"
  "nextElem (updateMatchCounter ce s) = nextElem s"
  by (simp_all add: updateMatchCounter_def Let_def split: option.splits)

lemma fold_classRemove_fields [simp]:
  "doc (fold (\<lambda>el. classRemove el c) es s) = doc s"
  "headEl (fold (\<lambda>el. classRemove el c) es s) = headEl s"
  "bodyEl (fold (\<lambda>el. classRemove el c) es s) = bodyEl s"
  "attrs (fold (\<lambda>el. classRemove el c) es s) = attrs s"
  "style (fold (\<lambda>el. classRemove el c) es s) = style s"
  "tagName (fold (\<lambda>el. classRemove el c) es s) = tagName s"
  "listeners (fold (\<lambda>el. classRemove el c) es s) = listeners s"
  "animationTimestamps (fold (\<lambda>el. classRemove el c) es s) = animationTimestamps s"
  "dispatched (fold (\<lambda>el. classRemove el c) es s) = dispatched s"
  "scrolledTo (fold (\<lambda>el. classRemove el c) es s) = scrolledTo s"
  "searchState (fold (\<lambda>el. classRemove el c) es s) = searchState s"
  "curFaqInitialized (fold (\<lambda>el. classRemove el c) es s) = curFaqInitialized s"
  "curFaq (fold (\<lambda>el. classRemove el c) es s) = curFaq s"
  "nextElem (fold (\<lambda>el. classRemove el c) es s) = nextElem s"
  by (induction es arbitrary: s; simp)+

lemma fold_classRemove_classList:
  "classList (fold (\<lambda>el. classRemove el c) es s) e =
     (if e \<in> set es then classList s e - {c} else classList s e)"
  by (induction es arbitrary: s) auto

lemma removeCurrent_all:
  "e \<in> set (elemsOf (doc s)) \<Longrightarrow>
   c \<notin> classList (fold (\<lambda>el. classRemove el c) (document_querySelectorAll s (byClass c)) s) e"
  by (simp add: fold_classRemove_classList document_querySelectorAll_def byClass_def)


lemma forEachOpt_total:
  "(\<And>x s. f x s = Some (g x s)) \<Longrightarrow> forEachOpt f xs s = Some (fold g xs s)"
  by (induction xs arbitrary: s) simp_all

lemma nameChar_not_space: "nameChar c \<Longrightarrow> \<not> asciiWhitespace c"
  by (auto simp: nameChar_def nameStart_def asciiWhitespace_def)

lemma cssIdent_validToken: "cssIdent c \<Longrightarrow> validToken c"
  by (cases c) (auto simp: cssIdent_def validToken_def list_ex_iff list_all_iff
      dest: nameChar_not_space)

lemma classSelector_ident [simp]: "cssIdent c \<Longrightarrow> classSelector B c = Some (byClass c)"
  by (simp add: classSelector_def)

lemma markSelector_ident [simp]: "cssIdent c \<Longrightarrow> markSelector B c = Some (markWithClass c)"
  by (simp add: markSelector_def)

lemma removeCurrentClass_ident:
  "cssIdent (currentHighlightClass (classes cfg)) \<Longrightarrow>
   removeCurrentClass B cfg s =
     Some (fold (\<lambda>el. classRemove el (currentHighlightClass (classes cfg)))
             (document_querySelectorAll s (byClass (currentHighlightClass (classes cfg)))) s)"
  by (simp add: removeCurrentClass_def classListRemove_def cssIdent_validToken forEachOpt_total)

lemma navigateToMatch_ident:
  assumes "cssIdent (currentHighlightClass (classes cfg))" and "marks (searchState s) \<noteq> []"
  shows "navigateToMatch B index cfg counter s =
     (let len = int (length (marks (searchState s)));
          s1 = s\<lparr>searchState := (searchState s)
                   \<lparr>currentIndex := jsRem (jsRem index len + len) len\<rparr>\<rparr>;
          s2 = fold (\<lambda>el. classRemove el (currentHighlightClass (classes cfg)))
                 (document_querySelectorAll s1 (byClass (currentHighlightClass (classes cfg))))
                 s1;
          target = marks (searchState s2) ! nat (currentIndex (searchState s2));
          s3 = classAdd target (currentHighlightClass (classes cfg)) s2;
          s4 = smoothScrollTo target s3
      in Some (updateMatchCounter counter s4))"
  using assms
  by (simp add: navigateToMatch_def removeCurrentClass_ident classListAdd_def
        cssIdent_validToken Let_def)

subsection \<open>The match cursor\<close>

text \<open>
  C9 (as the code has it). \<open>advanceMatch\<close> returns the page unchanged when the match list
  is empty. Otherwise, when the configured current-highlight class is a plain class name (an
  identifier of ASCII letters, digits, \<^verbatim>\<open>_\<close> and \<^verbatim>\<open>-\<close>, as the default is), it returns,
  and with \<open>N\<close> the number of matches and \<open>current\<close> the cursor (0 when it was \<open>-1\<close>),
  the new cursor is \<open>((current + delta) mod N + N) mod N\<close>, which is also what the
  source's expression with the truncating \<^verbatim>\<open>%\<close> of JavaScript yields; it lies within the
  list, which is unchanged; the match at the new cursor carries the current-highlight class
  and no other element of the document does (so the class has left the old current match);
  and a counter element of the document shows the 1-based cursor, a slash and the total.
\<close>

theorem advanceMatch_ring:
  "(marks (searchState s) = [] \<longrightarrow> advanceMatch B delta cfg counter s = Some s) \<and>
   (marks (searchState s) \<noteq> [] \<and> cssIdent (currentHighlightClass (classes cfg)) \<longrightarrow>
     (\<exists>s'. advanceMatch B delta cfg counter s = Some s' \<and>
     (let N = int (length (marks (searchState s)));
          current = (if currentIndex (searchState s) = - 1 then 0 else currentIndex (searchState s));
          new = currentIndex (searchState s');
          cur = currentHighlightClass (classes cfg)
      in new = ((current + delta) mod N + N) mod N \<and>
         new = jsRem (jsRem (current + delta) N + N) N \<and>
         0 \<le> new \<and> new < N \<and>
         marks (searchState s') = marks (searchState s) \<and>
         cur \<in> classList s' (marks (searchState s) ! nat new) \<and>
         (\<forall>e \<in> set (elemsOf (doc s)). e \<noteq> marks (searchState s) ! nat new \<longrightarrow>
              cur \<notin> classList s' e) \<and>
         (\<forall>c. counter = Some c \<and> c \<in> set (elemsOf (doc s)) \<longrightarrow>
              textContent s' c =
                string_of_int (new + 1) @ ''/'' @ string_of_nat (length (marks (searchState s)))))))"
proof (cases "marks (searchState s) \<noteq> [] \<and> cssIdent (currentHighlightClass (classes cfg))")
  case False
  then show ?thesis by (auto simp: advanceMatch_def)
next
  case True
  then have ne: "marks (searchState s) \<noteq> []" and id: "cssIdent (currentHighlightClass (classes cfg))"
    by simp_all
  define N where "N = int (length (marks (searchState s)))"
  define current where
    "current = (if currentIndex (searchState s) = - 1 then 0 else currentIndex (searchState s))"
  define cur where "cur = currentHighlightClass (classes cfg)"
  define new where "new = (current + delta) mod N"
  define s1 where "s1 = s\<lparr>searchState := (searchState s)\<lparr>currentIndex := new\<rparr>\<rparr>"
  define s2 where "s2 = fold (\<lambda>el. classRemove el cur) (document_querySelectorAll s1 (byClass cur)) s1"
  define target where "target = marks (searchState s) ! nat new"
  define s4 where "s4 = smoothScrollTo target (classAdd target cur s2)"
  from ne have Npos: "0 < N" by (simp add: N_def)
  then have new_range: "0 \<le> new" "new < N" by (simp_all add: new_def)
  have ss2: "searchState s2 = (searchState s)\<lparr>currentIndex := new\<rparr>"
    by (simp add: s2_def s1_def)
  have adv: "advanceMatch B delta cfg counter s = Some (updateMatchCounter counter s4)"
    using ne Npos
    by (simp add: advanceMatch_def navigateToMatch_ident [OF id ne] Let_def jsRem_ring
          N_def [symmetric] current_def [symmetric] cur_def [symmetric] new_def [symmetric]
          s1_def [symmetric] s2_def [symmetric] ss2 target_def [symmetric] s4_def [symmetric])
  have ss4: "searchState s4 = (searchState s)\<lparr>currentIndex := new\<rparr>"
    by (simp add: s4_def ss2)
  have d1: "doc s1 = doc s" by (simp add: s1_def)
  have d4: "doc s4 = doc s" by (simp add: s4_def s2_def s1_def)
  have c1: "cur \<in> classList (updateMatchCounter counter s4) target"
    by (simp add: s4_def)
  have c2: "cur \<notin> classList (updateMatchCounter counter s4) e"
    if "e \<in> set (elemsOf (doc s))" "e \<noteq> target" for e
    using that removeCurrent_all [of e s1 cur] by (simp add: s4_def s2_def d1)
  have c3: "textContent (updateMatchCounter counter s4) c =
              string_of_int (new + 1) @ ''/'' @ string_of_nat (length (marks (searchState s)))"
    if "counter = Some c" "c \<in> set (elemsOf (doc s))" for c
    using that ne new_range
    by (simp add: updateMatchCounter_def Let_def ss4 textContent_setTextContent d4)
  have js: "jsRem (jsRem (current + delta) N + N) N = (current + delta) mod N"
    using Npos by (rule jsRem_ring)
  show ?thesis
    using ne new_range c1 c2 c3 js
    by (simp add: adv Let_def ss4 target_def new_def N_def current_def cur_def)
qed

lemma DEFAULTS_classes [simp]:
  "currentHighlightClass (classes DEFAULTS) = ''faq-search-current''"
  "highlightClass (classes DEFAULTS) = ''faq-search-highlight''"
  "activeClass (classes DEFAULTS) = ''is-active''"
  by (simp_all add: DEFAULTS_def)

lemma cssIdent_defaults [simp]:
  "cssIdent ''faq-search-current''" "cssIdent ''faq-search-highlight''" "cssIdent ''is-active''"
  by (simp_all add: cssIdent_def nameChar_def nameStart_def)

lemma string_of_nat_3: "string_of_nat 3 = ''3''" "string_of_nat (Suc (Suc (Suc 0))) = ''3''"
  by (simp_all add: string_of_nat.simps)

text \<open>Stepping back from the first of three matches lands on the last.\<close>

theorem advanceMatch_ring_witness:
  "marks (searchState navPage) \<noteq> [] \<and>
   cssIdent (currentHighlightClass (classes DEFAULTS)) \<and>
   map_option
     (\<lambda>s'. (currentIndex (searchState s'),
            ''faq-search-current'' \<in> classList s' 32,
            ''faq-search-current'' \<in> classList s' 30,
            textContent s' 9))
     (advanceMatch noLayout (- 1) DEFAULTS (Some 9) navPage) = Some (2, True, False, ''3/3'')"
proof -
  have m: "marks (searchState navPage) = [30, 31, 32]" and c: "currentIndex (searchState navPage) = 0"
    and d: "elemsOf (doc navPage) = [0, 1, 2, 10, 11, 13, 30, 12, 31, 32, 9]"
    by (simp_all add: navPage_def)
  have ne: "marks (searchState navPage) \<noteq> []" by (simp add: m)
  have id: "cssIdent (currentHighlightClass (classes DEFAULTS))" by simp
  note r = advanceMatch_ring [of navPage noLayout "- 1" DEFAULTS "Some 9", THEN conjunct2,
      rule_format, OF conjI [OF ne id]]
  have "map_option
     (\<lambda>s'. (currentIndex (searchState s'),
            ''faq-search-current'' \<in> classList s' 32,
            ''faq-search-current'' \<in> classList s' 30,
            textContent s' 9))
     (advanceMatch noLayout (- 1) DEFAULTS (Some 9) navPage) = Some (2, True, False, ''3/3'')"
    using r
    apply (elim exE conjE)
    subgoal for s'
      apply (simp add: Let_def m c d)
      apply (elim conjE)
      apply (simp add: string_of_int_def string_of_nat_3)
      done
    done
  with ne id show ?thesis by simp
qed

text \<open>
  With the class \<^verbatim>\<open>a.b\<close> (one valid class token) the selector \<^verbatim>\<open>.a.b\<close> asks for the
  two classes \<^verbatim>\<open>a\<close> and \<^verbatim>\<open>b\<close>. It does not find the current match, which keeps the
  class when the cursor moves on: afterwards the old and the new match both carry it.
\<close>

theorem advanceMatch_dotted_class_counterexample:
  "marks (searchState dottedNavPage) = [30, 31, 32] \<and>
   currentIndex (searchState dottedNavPage) = 0 \<and>
   ''a.b'' \<in> classList dottedNavPage 30 \<and>
   map_option
     (\<lambda>s'. (currentIndex (searchState s'), ''a.b'' \<in> classList s' 30, ''a.b'' \<in> classList s' 31))
     (advanceMatch compoundEngine 1 dottedConfig (Some 9) dottedNavPage) = Some (1, True, True)"
proof -
  have cur: "currentHighlightClass (classes dottedConfig) = ''a.b''"
    by (simp add: dottedConfig_def)
  have sel: "classSelector compoundEngine ''a.b'' =
               Some (\<lambda>s e. ''a'' \<in> classList s e \<and> ''b'' \<in> classList s e)"
    by (simp add: classSelector_def cssIdent_def nameChar_def nameStart_def compoundEngine_def)
  have tok: "validToken ''a.b''" by (simp add: validToken_def asciiWhitespace_def)
  have m: "marks (searchState dottedNavPage) = [30, 31, 32]"
    and c: "currentIndex (searchState dottedNavPage) = 0"
    and cl: "classList dottedNavPage = (\<lambda>e. if e = 30 then {''faq-search-highlight'', ''a.b''}
                               else if e = 31 \<or> e = 32 then {''faq-search-highlight''} else {})"
    and d: "elemsOf (doc dottedNavPage) = [0, 1, 2, 10, 11, 13, 30, 12, 31, 32, 9]"
    by (simp_all add: dottedNavPage_def navPage_def)
  have j: "jsRem (jsRem 1 3 + 3) 3 = 1" by (simp add: jsRem_def)
  show ?thesis
    by (simp add: advanceMatch_def navigateToMatch_def removeCurrentClass_def cur sel tok m c cl d j
          classListAdd_def document_querySelectorAll_def Let_def)
qed

section \<open>Properties of highlighting\<close>

lemma toLowerCase_samples:
  "toLowerCase '' Password reset'' = '' password reset''"
  "toLowerCase ''password'' = ''password''"
  by (simp_all add: toLowerCase_def toLowerChar_def upperCaseLetters_def lowerCaseLetters_def)

lemma normalizeText_title: "normalizeText '' Password reset'' = ''password reset''"
  by (simp add: normalizeText_def trim_def toLowerCase_samples isSpace_def)

lemma normalizeText_query: "normalizeText ''password'' = ''password''"
  by (simp add: normalizeText_def trim_def toLowerCase_samples isSpace_def)

lemma createMark_doc [simp]:
  "doc (snd (createMark cls txt s)) = doc s"
  "fst (createMark cls txt s) = ElemNode (nextElem s) (if txt = [] then [] else [TextNode txt])"
  by (simp_all add: createMark_def createElement_def setClassName_def)

lemma loop_title:
  "highlightLoop '' Password reset'' ''password reset'' ''password'' cls 0 [] s =
     Some ([ElemNode (nextElem s) [TextNode '' Passwor''], TextNode ''d reset''],
           snd (createMark cls '' Passwor'' s))"
  apply (subst highlightLoop.simps)
  apply (simp add: indexOf_def slice_def)
  apply (subst highlightLoop.simps)
  apply (simp add: indexOf_def slice_def sliceFrom_def)
  done

text \<open>
  C4 fails on the code. The positions of the matches are found in the normalized text, which
  is trimmed, and are then used to cut the original text, which is not. For the title
  \<^verbatim>\<open>" Password reset"\<close> and the query \<^verbatim>\<open>"password"\<close> the mark wraps
  \<^verbatim>\<open>" Passwor"\<close> and the rest \<^verbatim>\<open>"d reset"\<close> stays plain: the marked run is not the
  occurrence of the query.
\<close>

theorem highlight_offset_by_leading_space:
  "map_option (\<lambda>s. findNode 13 (doc s))
     (highlightText 13 ''password'' ''faq-search-highlight'' answerPage) =
   Some (Some (ElemNode 13 [ElemNode 14 [TextNode '' Passwor''], TextNode ''d reset'']))"
  by (simp add: highlightText_def answerPage_def blankPage_def normalizeText_query
        normalizeText_title stringIncludes_def indexOf_def loop_title)

section \<open>Properties of the accordion\<close>

lemma expand_collapse_style:
  "e \<noteq> el \<Longrightarrow> style (expandElement B el s) e = style s e"
  "e \<noteq> el \<Longrightarrow> style (collapseElement B el s) e = style s e"
  by (simp_all add: expandElement_def collapseElement_def Let_def)

lemma setIconVisibility_classList_other:
  "icon \<noteq> Some e \<Longrightarrow> classList (setIconVisibility icon v s) e = classList s e"
  by (cases icon) simp_all

lemma write_frame:
  assumes "content it = Some c" "trigger it = Some t" "e \<notin> itemElems it"
  shows "attrs (writeItemState B it opn src cfg c t s) e = attrs s e"
    and "classList (writeItemState B it opn src cfg c t s) e = classList s e"
    and "style (writeItemState B it opn src cfg c t s) e = style s e"
proof -
  have ne: "e \<noteq> item it" "e \<noteq> c" "e \<noteq> t" "iconOpen it \<noteq> Some e" "iconClose it \<noteq> Some e"
    using assms by (auto simp: itemElems_def)
  show "attrs (writeItemState B it opn src cfg c t s) e = attrs s e"
    using ne by (simp add: writeItemState_def Let_def)
  show "classList (writeItemState B it opn src cfg c t s) e = classList s e"
    using ne by (cases opn; cases "iconOpen it"; cases "iconClose it")
      (simp_all add: writeItemState_def Let_def)
  show "style (writeItemState B it opn src cfg c t s) e = style s e"
    using ne by (cases opn; cases "src = Search")
      (simp_all add: writeItemState_def Let_def expand_collapse_style)
qed

lemma closeItem_frame:
  assumes "e \<notin> itemElems y"
  shows "attrs (closeItem B y src cfg s) e = attrs s e \<and>
         classList (closeItem B y src cfg s) e = classList s e \<and>
         style (closeItem B y src cfg s) e = style s e"
  using assms by (auto simp: closeItem_def write_frame split: option.splits)

lemma closeSiblings_frame_all:
  "e \<notin> (\<Union>y \<in> set ys. itemElems y) \<Longrightarrow>
   attrs (closeSiblings B x src cfg ys s) e = attrs s e \<and>
   classList (closeSiblings B x src cfg ys s) e = classList s e \<and>
   style (closeSiblings B x src cfg ys s) e = style s e"
proof (induction ys arbitrary: s)
  case Nil
  then show ?case by simp
next
  case (Cons y ys)
  have 1: "e \<notin> itemElems y" and 2: "e \<notin> (\<Union>y \<in> set ys. itemElems y)"
    using Cons.prems by auto
  show ?case
    using Cons.IH [OF 2] closeItem_frame [OF 1, of B src cfg s] by simp
qed

lemma closeItem_unclosable:
  "content y = None \<or> trigger y = None \<Longrightarrow> closeItem B y src cfg s = s"
  by (auto simp: closeItem_def split: option.splits)

lemma closeSiblings_marker_unclosable:
  "distinct (map item ys) \<Longrightarrow> y \<in> set ys \<Longrightarrow> content y = None \<or> trigger y = None \<Longrightarrow>
   getAttribute (closeSiblings B x src cfg ys s) (item y) ATTR_dataOpen =
     getAttribute s (item y) ATTR_dataOpen"
proof (induction ys arbitrary: s)
  case Nil
  then show ?case by simp
next
  case (Cons z zs)
  let ?s1 = "if z \<noteq> x \<and> isItemOpen B s z then closeItem B z src cfg s else s"
  show ?case
  proof (cases "y = z")
    case True
    with Cons.prems have notin: "item y \<notin> item ` set zs" by auto
    have s1: "?s1 = s" using True Cons.prems(3) by (simp add: closeItem_unclosable)
    show ?thesis
      using closeSiblings_frame [OF notin, of B x src cfg ?s1] s1 by simp
  next
    case False
    with Cons.prems have yin: "y \<in> set zs" and dz: "distinct (map item zs)"
      by auto
    have "item z \<notin> item ` set zs" using Cons.prems(1) by simp
    moreover have "item y \<in> item ` set zs" using yin by (rule imageI)
    ultimately have ne: "item y \<noteq> item z" by metis
    have keep: "getAttribute ?s1 (item y) ATTR_dataOpen = getAttribute s (item y) ATTR_dataOpen"
      using ne by (simp add: closeItem_marker_other)
    from Cons.IH [OF dz yin Cons.prems(3), of ?s1] keep show ?thesis
      by (simp del: closeSiblings_Cons add: closeSiblings_Cons [of B x src cfg z zs s])
  qed
qed

lemma closeSiblings_as_fold:
  "closeSiblings B x src cfg ys s =
     fold (\<lambda>sibling s'. if sibling \<noteq> x \<and> isItemOpen B s' sibling
                         then setItemState B sibling False src cfg None s' else s') ys s"
  unfolding closeSiblings_def
  by (rule arg_cong [where f = "\<lambda>f. fold f ys s"]) (simp add: fun_eq_iff setItemState_close_None)


lemma fullItem_simps [simp]:
  "item (fullItem org e) = e" "trigger (fullItem org e) = Some (e + 1)"
  "content (fullItem org e) = Some (e + 2)" "title (fullItem org e) = None"
  "iconOpen (fullItem org e) = None" "iconClose (fullItem org e) = None"
  "origin (fullItem org e) = org"
  by (simp_all add: fullItem_def)

lemma bareItem_simps [simp]:
  "item (bareItem org e) = e" "trigger (bareItem org e) = Some (e + 1)"
  "content (bareItem org e) = None" "title (bareItem org e) = None"
  "iconOpen (bareItem org e) = None" "iconClose (bareItem org e) = None"
  "origin (bareItem org e) = org"
  by (simp_all add: bareItem_def)

lemma example_items_neq [simp]:
  "bareItem org e \<noteq> fullItem org' e'" "fullItem org' e' \<noteq> bareItem org e"
  "(fullItem org e = fullItem org' e') = (org = org' \<and> e = e')"
  by (auto simp: fullItem_def bareItem_def)

lemma ROLES_distinct [simp]:
  "ROLES_group \<noteq> ROLES_item" "ROLES_item \<noteq> ROLES_group"
  "ROLES_trigger \<noteq> ROLES_item" "ROLES_trigger \<noteq> ROLES_group" "ROLES_trigger \<noteq> ROLES_content"
  "ROLES_trigger \<noteq> ROLES_title" "ROLES_trigger \<noteq> ROLES_iconOpen" "ROLES_trigger \<noteq> ROLES_iconClose"
  "ROLES_item \<noteq> ROLES_trigger" "ROLES_item \<noteq> ROLES_content" "ROLES_item \<noteq> ROLES_title"
  "ROLES_item \<noteq> ROLES_iconOpen" "ROLES_item \<noteq> ROLES_iconClose"
  "ROLES_content \<noteq> ROLES_item" "ROLES_content \<noteq> ROLES_group" "ROLES_content \<noteq> ROLES_trigger"
  "ROLES_content \<noteq> ROLES_title" "ROLES_content \<noteq> ROLES_iconOpen" "ROLES_content \<noteq> ROLES_iconClose"
  "ROLES_group \<noteq> ROLES_trigger" "ROLES_group \<noteq> ROLES_content"
  by (simp_all add: ROLES_group_def ROLES_item_def ROLES_trigger_def ROLES_content_def
        ROLES_title_def ROLES_iconOpen_def ROLES_iconClose_def)

lemma ap_fields [simp]:
  "doc accordionPage = ElemNode 0 [ElemNode 1 [],
                 ElemNode 2 [ElemNode 5 [ElemNode 10 [ElemNode 11 [], ElemNode 12 []],
                                         ElemNode 20 [ElemNode 21 []],
                                         ElemNode 40 [ElemNode 41 [], ElemNode 42 []]],
                             ElemNode 6 [ElemNode 30 [ElemNode 31 [], ElemNode 32 []]]]]"
  "bodyEl accordionPage = 2"
  "classList accordionPage = (\<lambda>e. {})"
  "searchState accordionPage = \<lparr>marks = [], currentIndex = - 1, searchOpenedItems = {}\<rparr>"
  by (simp_all add: accordionPage_def blankPage_def)

lemma ap_element:
  "attrs accordionPage e ATTR_element =
     (if e = 5 \<or> e = 6 then Some ROLES_group
      else if e = 10 \<or> e = 30 \<or> e = 40 \<or> e = 20 then Some ROLES_item
      else if e = 11 \<or> e = 31 \<or> e = 41 \<or> e = 21 then Some ROLES_trigger
      else if e = 12 \<or> e = 32 \<or> e = 42 then Some ROLES_content
      else None)"
  by (simp add: accordionPage_def ATTR_element_def ATTR_accordion_def ATTR_dataOpen_def)

lemmas ROLES_defs = ROLES_group_def ROLES_item_def ROLES_trigger_def ROLES_content_def
  ROLES_title_def ROLES_iconOpen_def ROLES_iconClose_def

lemma ap_groups: "document_querySelectorAll accordionPage (hasRole ROLES_group) = [5, 6]"
  by (simp add: document_querySelectorAll_def hasRole_def ap_element ROLES_defs)

lemma ap_items:
  "querySelectorAll accordionPage 5 (hasRole ROLES_item) = [10, 20, 40]"
  "querySelectorAll accordionPage 6 (hasRole ROLES_item) = [30]"
  "document_querySelectorAll accordionPage (hasRole ROLES_item) = [10, 20, 40, 30]"
  by (simp_all add: querySelectorAll_def document_querySelectorAll_def hasRole_def ap_element
        ROLES_defs)

lemma ap_parseItem:
  "parseItem accordionPage org 10 = fullItem org 10"
  "parseItem accordionPage org 20 = bareItem org 20"
  "parseItem accordionPage org 40 = fullItem org 40"
  "parseItem accordionPage org 30 = fullItem org 30"
  by (simp_all add: parseItem_def fullItem_def bareItem_def querySelector_def
        querySelectorAll_def hasRole_def ap_element ROLES_defs)

lemma ap_attr:
  "attrs accordionPage 5 ATTR_accordion = Some ''true''"
  "attrs accordionPage 5 ATTR_defaultOpen = None"
  "attrs accordionPage 5 ATTR_collapseDuration = None"
  "attrs accordionPage 6 ATTR_accordion = None"
  "attrs accordionPage 6 ATTR_defaultOpen = None"
  "attrs accordionPage 6 ATTR_collapseDuration = None"
  by (simp_all add: accordionPage_def ATTR_element_def ATTR_accordion_def ATTR_defaultOpen_def
        ATTR_collapseDuration_def)

lemma trim_true: "trim ''true'' = ''true''"
  by (simp add: trim_def isSpace_def)

lemma ap_config:
  "resolveGroupConfig accordionPage (Some 5) = \<lparr>accordion = True, defaultOpen = None, collapseDuration = 250\<rparr>"
  "resolveGroupConfig accordionPage (Some 6) = \<lparr>accordion = False, defaultOpen = None, collapseDuration = 250\<rparr>"
  by (simp_all add: resolveGroupConfig_def readBoolAttr_def readIntAttr_def readAttr_def ap_attr
        trim_true GROUP_DEFAULTS_def DEFAULTS_def)

lemma accordionPage_parse: "parseFaqGroups accordionPage = [firstGroup, secondGroup]"
  by (simp add: parseFaqGroups_def ap_groups ap_items ap_parseItem ap_config firstGroup_def
        secondGroup_def enumerate_eq_zip Let_def)

lemma ap_state:
  "getAttribute accordionPage 10 ATTR_dataOpen = Some ''false''"
  "getAttribute accordionPage 40 ATTR_dataOpen = Some ''false''"
  "getAttribute accordionPage 30 ATTR_dataOpen = Some ''false''"
  "getAttribute accordionPage 20 ATTR_dataOpen = None"
  "getAttribute accordionPage 11 ''aria-expanded'' = Some ''false''"
  "getAttribute accordionPage 21 ''aria-expanded'' = None"
  "getAttribute accordionPage 41 ''aria-expanded'' = Some ''false''"
  "getAttribute accordionPage 31 ''aria-expanded'' = Some ''false''"
  "hasAttribute accordionPage 12 ''hidden''"
  "hasAttribute accordionPage 42 ''hidden''"
  "hasAttribute accordionPage 32 ''hidden''"
  by (simp_all add: getAttribute_def hasAttribute_def accordionPage_def ATTR_element_def
        ATTR_accordion_def ATTR_dataOpen_def)

lemma ap_closed:
  "\<not> isItemOpen withLayout accordionPage (fullItem org 10)"
  "\<not> isItemOpen withLayout accordionPage (bareItem org 20)"
  "\<not> isItemOpen withLayout accordionPage (fullItem org 40)"
  "\<not> isItemOpen withLayout accordionPage (fullItem org 30)"
  by (simp_all add: isItemOpen_def ap_state isElementVisible_def withLayout_def)



section \<open>Toggling twice\<close>

lemma findGroup_second:
  "findGroup accordionInstance (fullItem (1, 0) 30) = Some secondGroup"
  by (simp add: findGroup_def accordionInstance_def firstGroup_def secondGroup_def)

lemma write_attrs_other_name:
  "a \<noteq> ''aria-expanded'' \<Longrightarrow> a \<noteq> ATTR_dataOpen \<Longrightarrow> a \<noteq> ''hidden'' \<Longrightarrow>
   a \<noteq> ATTR_dataOpenedBySearch \<Longrightarrow>
   attrs (writeItemState B it opn src cfg c t s) e a = attrs s e a"
  by (cases opn; cases "src = Search") (simp_all add: writeItemState_def Let_def)

text \<open>
  C8 fails on the code. The item of the second group is closed and the user opens it. Two
  calls of \<open>toggle\<close> in succession then leave it closed: the first call closes it and
  starts the collapse, but the content element receives \<^verbatim>\<open>hidden\<close> only when the
  transition ends, so at the second call the content is still laid out and not
  \<^verbatim>\<open>hidden\<close>, the visibility test of \<open>isItemOpen\<close> reports the item open although its
  marker says \<^verbatim>\<open>"false"\<close>, and the second call closes it once more.
\<close>

theorem toggle_twice_leaves_open_item_closed:
  "getAttribute (toggle withLayout accordionInstance (fullItem (1, 0) 30) accordionPage)
     30 ATTR_dataOpen = Some ''true'' \<and>
   ''is-active'' \<in> classList
     (toggle withLayout accordionInstance (fullItem (1, 0) 30) accordionPage) 30 \<and>
   getAttribute
     (toggle withLayout accordionInstance (fullItem (1, 0) 30)
        (toggle withLayout accordionInstance (fullItem (1, 0) 30) accordionPage))
     30 ATTR_dataOpen = Some ''false'' \<and>
   isItemOpen withLayout
     (toggle withLayout accordionInstance (fullItem (1, 0) 30)
        (toggle withLayout accordionInstance (fullItem (1, 0) 30) accordionPage))
     (fullItem (1, 0) 30) \<and>
   getAttribute
     (toggle withLayout accordionInstance (fullItem (1, 0) 30)
        (toggle withLayout accordionInstance (fullItem (1, 0) 30)
           (toggle withLayout accordionInstance (fullItem (1, 0) 30) accordionPage)))
     30 ATTR_dataOpen = Some ''false'' \<and>
   ''is-active'' \<notin> classList
     (toggle withLayout accordionInstance (fullItem (1, 0) 30)
        (toggle withLayout accordionInstance (fullItem (1, 0) 30)
           (toggle withLayout accordionInstance (fullItem (1, 0) 30) accordionPage))) 30"
proof -
  let ?it = "fullItem (1, 0) 30"
  let ?B = withLayout
  let ?T = "toggle ?B accordionInstance ?it"
  let ?s0 = "?T accordionPage"
  let ?s1 = "?T ?s0"
  let ?s2 = "?T ?s1"
  have cfg: "instConfig accordionInstance = DEFAULTS" by (simp add: accordionInstance_def)
  have ac: "activeClass (classes DEFAULTS) = ''is-active''" by (simp add: DEFAULTS_def)
  have T: "?T s = setItemState ?B ?it (\<not> isItemOpen ?B s ?it) User DEFAULTS (Some secondGroup) s"
    for s
    unfolding toggle_def Let_def findGroup_second cfg by (rule refl)
  have W: "?T s = writeItemState ?B ?it (\<not> isItemOpen ?B s ?it) User DEFAULTS 32 31 s" for s
    unfolding T by (simp add: setItemState_Some [of _ 32 31] secondGroup_def)
  have s0: "?s0 = writeItemState ?B ?it True User DEFAULTS 32 31 accordionPage"
    unfolding W [of accordionPage] by (simp add: ap_closed)
  have m0: "getAttribute ?s0 30 ATTR_dataOpen = Some ''true''"
    unfolding s0 using write_marker [of ?B ?it True User DEFAULTS 32 31 accordionPage] by simp
  have c0: "''is-active'' \<in> classList ?s0 30"
    unfolding s0 using write_active [of ?it DEFAULTS ?B True User 32 31 accordionPage]
    by (simp add: ac)
  have h0: "getAttribute ?s0 32 ''hidden'' = None"
    unfolding s0 by (simp add: write_hidden)
  have o0: "isItemOpen ?B ?s0 ?it" using m0 by (simp add: isItemOpen_def)
  have s1: "?s1 = writeItemState ?B ?it False User DEFAULTS 32 31 ?s0"
    unfolding W [of ?s0] using o0 by simp
  have m1: "getAttribute ?s1 30 ATTR_dataOpen = Some ''false''"
    unfolding s1 using write_marker [of ?B ?it False User DEFAULTS 32 31 ?s0] by simp
  have h1: "getAttribute ?s1 32 ''hidden'' = None"
    unfolding s1 using h0 by (simp add: write_hidden)
  have o1: "isItemOpen ?B ?s1 ?it"
    using h1 by (simp add: isItemOpen_def isElementVisible_def withLayout_def hasAttribute_def
        getAttribute_def)
  have s2: "?s2 = writeItemState ?B ?it False User DEFAULTS 32 31 ?s1"
    unfolding W [of ?s1] using o1 by simp
  have m2: "getAttribute ?s2 30 ATTR_dataOpen = Some ''false''"
    unfolding s2 using write_marker [of ?B ?it False User DEFAULTS 32 31 ?s1] by simp
  have c2: "''is-active'' \<notin> classList ?s2 30"
    unfolding s2 using write_active [of ?it DEFAULTS ?B False User 32 31 ?s1]
    by (simp add: ac)
  from m0 c0 m1 o1 m2 c2 show ?thesis by blast
qed

section \<open>Clearing the highlights\<close>

lemma mergeText_elems [simp]:
  "concat (map elemsOf (mergeText ks)) = concat (map elemsOf ks)"
  by (induction ks rule: mergeText.induct) auto

lemma mergeText_desc [simp]:
  "concat (map (descendantsOf r) (mergeText ks)) = concat (map (descendantsOf r) ks)"
  by (induction ks rule: mergeText.induct) auto

lemma normalizeNode_elems [simp]: "elemsOf (normalizeNode n) = elemsOf n"
proof (induction n rule: normalizeNode.induct)
  case (2 x ks)
  then have "map elemsOf (map normalizeNode ks) = map elemsOf ks" by simp
  then show ?case by (simp del: map_map)
qed simp

lemma normalizeNode_desc [simp]: "descendantsOf r (normalizeNode n) = descendantsOf r n"
proof (induction n rule: normalizeNode.induct)
  case (2 x ks)
  have a: "map elemsOf (map normalizeNode ks) = map elemsOf ks" by simp
  from 2 have b: "map (descendantsOf r) (map normalizeNode ks) = map (descendantsOf r) ks" by simp
  show ?case using a b by (simp del: map_map)
qed simp

lemma isElem_simps [simp]:
  "isElem e (TextNode str) = False" "isElem e (ElemNode x ks) = (x = e)"
  by (simp_all add: isElem_def)

lemma unwrapMark_elems: "set (elemsOf (unwrapMark m n)) \<subseteq> set (elemsOf n)"
proof (induction m n rule: unwrapMark.induct)
  case (2 m x ks)
  show ?case
  proof (cases "\<exists>k \<in> set ks. isElem m k")
    case True
    have "set (elemsOf (if isElem m k then TextNode (textOf k) else unwrapMark m k))
            \<subseteq> set (elemsOf k)" if "k \<in> set ks" for k
      using that 2(1) [OF True that] by auto
    with True show ?thesis by (auto simp del: unwrapMark.simps(2) simp add: unwrapMark.simps(2) [of m x ks])
  next
    case False
    with 2(2) show ?thesis by auto
  qed
qed simp


lemma descendantsOf_sub: "set (descendantsOf r n) \<subseteq> set (elemsOf n)"
  by (induction r n rule: descendantsOf.induct) auto

lemma unwrapMark_desc: "set (descendantsOf r (unwrapMark m n)) \<subseteq> set (descendantsOf r n)"
proof (induction m n rule: unwrapMark.induct)
  case (2 m x ks)
  let ?g = "\<lambda>k. if isElem m k then TextNode (textOf k) else unwrapMark m k"
  show ?case
  proof (cases "\<exists>k \<in> set ks. isElem m k")
    case True
    have e: "set (elemsOf (?g k)) \<subseteq> set (elemsOf k)" if "k \<in> set ks" for k
      using that unwrapMark_elems [of m k] by auto
    have d: "set (descendantsOf r (?g k)) \<subseteq> set (descendantsOf r k)" if "k \<in> set ks" for k
      using that 2(1) [OF True that] by auto
    have u: "unwrapMark m (ElemNode x ks) = normalizeNode (ElemNode x (map ?g ks))"
      using True by simp
    show ?thesis
      unfolding u using e d by (auto simp del: unwrapMark.simps(2)) blast+
  next
    case False
    have e: "set (elemsOf (unwrapMark m k)) \<subseteq> set (elemsOf k)" for k
      by (rule unwrapMark_elems)
    from False 2(2) e show ?thesis by auto blast+
  qed
qed simp

lemma unwrapMark_rootId [simp]: "rootId (unwrapMark m n) = rootId n"
  by (cases n) (auto simp: rootId_def)

lemma elemsOf_root:
  "set (elemsOf n) = (case rootId n of None \<Rightarrow> {} | Some x \<Rightarrow> {x}) \<union> set (concat (map elemsOf (childrenOf n)))"
  by (cases n) (auto simp: rootId_def childrenOf_def)

lemma unwrapMark_gone: "m \<notin> set (concat (map elemsOf (childrenOf (unwrapMark m n))))"
proof (induction m n rule: unwrapMark.induct)
  case (2 m x ks)
  let ?g = "\<lambda>k. if isElem m k then TextNode (textOf k) else unwrapMark m k"
  have kid: "m \<notin> set (elemsOf (unwrapMark m k))" if "\<not> isElem m k"
    and ih: "m \<notin> set (concat (map elemsOf (childrenOf (unwrapMark m k))))" for k
    using that by (subst elemsOf_root) (cases k; auto simp: rootId_def)
  show ?case
  proof (cases "\<exists>k \<in> set ks. isElem m k")
    case True
    have "m \<notin> set (elemsOf (?g k))" if "k \<in> set ks" for k
      using that 2(1) [OF True that] kid [of k] by auto
    moreover have u: "unwrapMark m (ElemNode x ks) = normalizeNode (ElemNode x (map ?g ks))"
      using True by simp
    ultimately show ?thesis
      unfolding u by (auto simp: childrenOf_def simp del: unwrapMark.simps(2))
  next
    case False
    then have "m \<notin> set (elemsOf (unwrapMark m k))" if "k \<in> set ks" for k
      using that 2(2) [OF False that] kid [of k] by auto
    with False show ?thesis by (auto simp: childrenOf_def)
  qed
qed (simp add: childrenOf_def)

lemma descendantsOf_children:
  "set (descendantsOf r n) \<subseteq> set (concat (map elemsOf (childrenOf n)))"
proof (cases n)
  case (ElemNode x ks)
  have "set (descendantsOf r k) \<subseteq> set (elemsOf k)" for k by (rule descendantsOf_sub)
  then show ?thesis using ElemNode by (auto simp: childrenOf_def)
qed (simp add: childrenOf_def)

lemma unwrapMark_desc_gone: "m \<notin> set (descendantsOf r (unwrapMark m n))"
  using descendantsOf_children [of r "unwrapMark m n"] unwrapMark_gone [of m n] by blast


lemma fold_unwrap_fields [simp]:
  "headEl (fold (\<lambda>mark s'. s'\<lparr>doc := unwrapMark mark (doc s')\<rparr>) L s) = headEl s"
  "bodyEl (fold (\<lambda>mark s'. s'\<lparr>doc := unwrapMark mark (doc s')\<rparr>) L s) = bodyEl s"
  "attrs (fold (\<lambda>mark s'. s'\<lparr>doc := unwrapMark mark (doc s')\<rparr>) L s) = attrs s"
  "classList (fold (\<lambda>mark s'. s'\<lparr>doc := unwrapMark mark (doc s')\<rparr>) L s) = classList s"
  "style (fold (\<lambda>mark s'. s'\<lparr>doc := unwrapMark mark (doc s')\<rparr>) L s) = style s"
  "tagName (fold (\<lambda>mark s'. s'\<lparr>doc := unwrapMark mark (doc s')\<rparr>) L s) = tagName s"
  "listeners (fold (\<lambda>mark s'. s'\<lparr>doc := unwrapMark mark (doc s')\<rparr>) L s) = listeners s"
  "animationTimestamps (fold (\<lambda>mark s'. s'\<lparr>doc := unwrapMark mark (doc s')\<rparr>) L s) = animationTimestamps s"
  "dispatched (fold (\<lambda>mark s'. s'\<lparr>doc := unwrapMark mark (doc s')\<rparr>) L s) = dispatched s"
  "scrolledTo (fold (\<lambda>mark s'. s'\<lparr>doc := unwrapMark mark (doc s')\<rparr>) L s) = scrolledTo s"
  "searchState (fold (\<lambda>mark s'. s'\<lparr>doc := unwrapMark mark (doc s')\<rparr>) L s) = searchState s"
  "curFaqInitialized (fold (\<lambda>mark s'. s'\<lparr>doc := unwrapMark mark (doc s')\<rparr>) L s) = curFaqInitialized s"
  "curFaq (fold (\<lambda>mark s'. s'\<lparr>doc := unwrapMark mark (doc s')\<rparr>) L s) = curFaq s"
  "nextElem (fold (\<lambda>mark s'. s'\<lparr>doc := unwrapMark mark (doc s')\<rparr>) L s) = nextElem s"
  by (induction L arbitrary: s; simp)+



subsection \<open>What unwrapping a mark removes\<close>

lemma subseq_concat_map:
  "(\<And>k. k \<in> set ks \<Longrightarrow> subseq (f k) (g k)) \<Longrightarrow>
   subseq (concat (map f ks)) (concat (map g ks))"
  by (induction ks) (auto intro: list_emb_append_mono)

lemma unwrapMark_subseq: "subseq (elemsOf (unwrapMark m n)) (elemsOf n)"
proof (induction m n rule: unwrapMark.induct)
  case (2 m x ks)
  let ?g = "\<lambda>k. if isElem m k then TextNode (textOf k) else unwrapMark m k"
  show ?case
  proof (cases "\<exists>k \<in> set ks. isElem m k")
    case True
    have "subseq (elemsOf (?g k)) (elemsOf k)" if "k \<in> set ks" for k
      using that 2(1) [OF True that] by auto
    then have "subseq (concat (map (\<lambda>k. elemsOf (?g k)) ks)) (concat (map elemsOf ks))"
      by (rule subseq_concat_map)
    moreover have u: "unwrapMark m (ElemNode x ks) = normalizeNode (ElemNode x (map ?g ks))"
      using True by simp
    ultimately show ?thesis
      unfolding u by (simp add: comp_def del: unwrapMark.simps(2))
  next
    case False
    have "subseq (elemsOf (unwrapMark m k)) (elemsOf k)" if "k \<in> set ks" for k
      using that 2(2) [OF False that] by auto
    then have "subseq (concat (map (\<lambda>k. elemsOf (unwrapMark m k)) ks)) (concat (map elemsOf ks))"
      by (rule subseq_concat_map)
    with False show ?thesis by (simp add: comp_def)
  qed
qed simp

lemma subseq_distinct_filter:
  "subseq xs ys \<Longrightarrow> distinct ys \<Longrightarrow> xs = filter (\<lambda>e. e \<in> set xs) ys"
proof (induction rule: list_emb.induct)
  case (list_emb_Nil ys)
  then show ?case by simp
next
  case (list_emb_Cons xs ys y)
  then have "y \<notin> set xs" by (auto dest: list_emb_set)
  with list_emb_Cons show ?case by simp
next
  case (list_emb_Cons2 x y xs ys)
  then have d: "distinct ys" and n: "y \<notin> set ys" and e: "x = y" by auto
  have "x \<notin> set xs" using n e list_emb_Cons2(2) by (auto dest: list_emb_set)
  have "filter (\<lambda>e. e \<in> set (x # xs)) ys = filter (\<lambda>e. e \<in> set xs) ys"
    using n e by (intro filter_cong) auto
  with list_emb_Cons2 d e show ?case by simp
qed

lemma unwrapMark_absent: "m \<notin> set (elemsOf n) \<Longrightarrow> unwrapMark m n = n"
proof (induction m n rule: unwrapMark.induct)
  case (2 m x ks)
  then have no: "\<not> (\<exists>k \<in> set ks. isElem m k)"
    by (auto simp: isElem_def split: node.splits)
  have "unwrapMark m k = k" if "k \<in> set ks" for k
    using that 2(2) [OF no that] 2(3) by auto
  then have "map (unwrapMark m) ks = ks" by (induction ks) auto
  with no show ?case by simp
qed simp

lemma unwrapMark_elems_eq:
  "elemsOf (unwrapMark m (ElemNode x ks)) =
     x # concat (map (\<lambda>k. if isElem m k then [] else elemsOf (unwrapMark m k)) ks)"
proof (cases "\<exists>k \<in> set ks. isElem m k")
  case True
  have "map elemsOf (map (\<lambda>k. if isElem m k then TextNode (textOf k) else unwrapMark m k) ks) =
        map (\<lambda>k. if isElem m k then [] else elemsOf (unwrapMark m k)) ks"
    by (induction ks) auto
  with True show ?thesis by (simp del: map_map normalizeNode.simps)
next
  case False
  then have "map elemsOf (map (unwrapMark m) ks) =
        map (\<lambda>k. if isElem m k then [] else elemsOf (unwrapMark m k)) ks"
    by (induction ks) auto
  with False show ?thesis by (simp del: map_map)
qed

lemma unwrapMark_desc_eq:
  "descendantsOf i (unwrapMark m (ElemNode x ks)) =
     (if x = i then concat (map (\<lambda>k. if isElem m k then [] else elemsOf (unwrapMark m k)) ks)
      else concat (map (\<lambda>k. if isElem m k then [] else descendantsOf i (unwrapMark m k)) ks))"
proof (cases "\<exists>k \<in> set ks. isElem m k")
  case True
  have a: "map elemsOf (map (\<lambda>k. if isElem m k then TextNode (textOf k) else unwrapMark m k) ks) =
        map (\<lambda>k. if isElem m k then [] else elemsOf (unwrapMark m k)) ks"
    by (induction ks) auto
  have b: "map (descendantsOf i) (map (\<lambda>k. if isElem m k then TextNode (textOf k) else unwrapMark m k) ks) =
        map (\<lambda>k. if isElem m k then [] else descendantsOf i (unwrapMark m k)) ks"
    by (induction ks) auto
  from True a b show ?thesis by (simp del: map_map normalizeNode.simps)
next
  case False
  then have a: "map elemsOf (map (unwrapMark m) ks) =
        map (\<lambda>k. if isElem m k then [] else elemsOf (unwrapMark m k)) ks"
    by (induction ks) auto
  from False have b: "map (descendantsOf i) (map (unwrapMark m) ks) =
        map (\<lambda>k. if isElem m k then [] else descendantsOf i (unwrapMark m k)) ks"
    by (induction ks) auto
  from False a b show ?thesis by (simp del: map_map)
qed

lemma distinct_child:
  "distinct (concat (map elemsOf ks)) \<Longrightarrow> k \<in> set ks \<Longrightarrow> distinct (elemsOf k)"
  by (induction ks) auto

lemma distinct_sibling:
  "distinct (concat (map elemsOf ks)) \<Longrightarrow> k \<in> set ks \<Longrightarrow> k' \<in> set ks \<Longrightarrow>
   e \<in> set (elemsOf k) \<Longrightarrow> e \<in> set (elemsOf k') \<Longrightarrow> k = k'"
  by (induction ks) auto

lemma descendantsOf_absent: "i \<notin> set (elemsOf n) \<Longrightarrow> descendantsOf i n = []"
  by (induction i n rule: descendantsOf.induct) auto

lemma unwrapMark_survive:
  "e \<in> set (elemsOf n) \<Longrightarrow> e \<noteq> m \<Longrightarrow> e \<notin> set (descendantsOf m n) \<Longrightarrow>
   e \<in> set (elemsOf (unwrapMark m n))"
proof (induction n)
  case (TextNode str)
  then show ?case by simp
next
  case (ElemNode x ks)
  show ?case
  proof (cases "e = x")
    case True
    then show ?thesis by (simp add: unwrapMark_elems_eq del: unwrapMark.simps)
  next
    case False
    with ElemNode.prems(1) obtain k where k: "k \<in> set ks" "e \<in> set (elemsOf k)" by auto
    have xm: "x \<noteq> m"
    proof
      assume "x = m"
      with ElemNode.prems(3) k show False by auto
    qed
    have nd: "e \<notin> set (descendantsOf m k)" using ElemNode.prems(3) xm k by auto
    have nk: "\<not> isElem m k"
    proof
      assume "isElem m k"
      then obtain cs where "k = ElemNode m cs" by (cases k) auto
      with k ElemNode.prems(2) nd show False by auto
    qed
    have "e \<in> set (elemsOf (unwrapMark m k))"
      using ElemNode.IH [OF k(1) k(2) ElemNode.prems(2) nd] .
    with k nk show ?thesis by (auto simp add: unwrapMark_elems_eq simp del: unwrapMark.simps)
  qed
qed

lemma unwrapMark_root_gone:
  "rootId n \<noteq> Some m \<Longrightarrow> m \<notin> set (elemsOf (unwrapMark m n))"
  using unwrapMark_gone [of m n] elemsOf_root [of "unwrapMark m n"]
  by (auto split: option.splits)

lemma unwrapMark_below_gone:
  "distinct (elemsOf n) \<Longrightarrow> rootId n \<noteq> Some m \<Longrightarrow> e \<in> set (descendantsOf m n) \<Longrightarrow>
   e \<notin> set (elemsOf (unwrapMark m n))"
proof (induction n)
  case (TextNode str)
  then show ?case by simp
next
  case (ElemNode x ks)
  have xm: "x \<noteq> m" using ElemNode.prems(2) by (simp add: rootId_def)
  have dk: "distinct (concat (map elemsOf ks))" and xk: "x \<notin> set (concat (map elemsOf ks))"
    using ElemNode.prems(1) by auto
  from ElemNode.prems(3) xm obtain k where k: "k \<in> set ks" "e \<in> set (descendantsOf m k)"
    by auto
  have ek: "e \<in> set (elemsOf k)" using k(2) descendantsOf_sub by blast
  have ex: "e \<noteq> x" using xk k(1) ek by auto
  have "e \<notin> set (elemsOf (unwrapMark m k'))" if k': "k' \<in> set ks" "\<not> isElem m k'" for k'
  proof (cases "k' = k")
    case True
    have "rootId k \<noteq> Some m" using k' True by (cases k) (auto simp: rootId_def)
    with ElemNode.IH [OF k(1) distinct_child [OF dk k(1)] _ k(2)] True show ?thesis by simp
  next
    case False
    have "e \<notin> set (elemsOf k')" using distinct_sibling [OF dk k(1) k'(1) ek] False by auto
    then show ?thesis using unwrapMark_elems [of m k'] by auto
  qed
  with ex show ?case by (auto simp add: unwrapMark_elems_eq simp del: unwrapMark.simps)
qed

lemma unwrapMark_desc_survive:
  "distinct (elemsOf n) \<Longrightarrow> e \<in> set (descendantsOf i n) \<Longrightarrow>
   e \<in> set (elemsOf (unwrapMark m n)) \<Longrightarrow> e \<in> set (descendantsOf i (unwrapMark m n))"
proof (induction n)
  case (TextNode str)
  then show ?case by simp
next
  case (ElemNode x ks)
  have dk: "distinct (concat (map elemsOf ks))" and xk: "x \<notin> set (concat (map elemsOf ks))"
    using ElemNode.prems(1) by auto
  have below: "e \<in> set (concat (map elemsOf ks))"
    using ElemNode.prems(2) descendantsOf_children [of i "ElemNode x ks"]
    by (auto simp: childrenOf_def)
  then have ex: "e \<noteq> x" using xk by auto
  show ?case
  proof (cases "x = i")
    case True
    with ElemNode.prems(3) ex show ?thesis
      by (auto simp add: unwrapMark_elems_eq unwrapMark_desc_eq simp del: unwrapMark.simps)
  next
    case False
    with ElemNode.prems(2) obtain k where k: "k \<in> set ks" "e \<in> set (descendantsOf i k)"
      by auto
    have ek: "e \<in> set (elemsOf k)" using k(2) descendantsOf_sub by blast
    from ElemNode.prems(3) ex obtain k' where k': "k' \<in> set ks" "\<not> isElem m k'"
      "e \<in> set (elemsOf (unwrapMark m k'))"
      by (auto simp add: unwrapMark_elems_eq simp del: unwrapMark.simps split: if_splits)
    have "e \<in> set (elemsOf k')" using k'(3) unwrapMark_elems [of m k'] by auto
    then have kk: "k' = k" using distinct_sibling [OF dk k(1) k'(1) ek] by simp
    have "e \<in> set (descendantsOf i (unwrapMark m k))"
      using ElemNode.IH [OF k(1) distinct_child [OF dk k(1)] k(2)] k'(3) kk by simp
    with False k(1) k'(2) kk show ?thesis
      by (auto simp add: unwrapMark_desc_eq simp del: unwrapMark.simps)
  qed
qed

lemma descendantsOf_trans:
  "distinct (elemsOf n) \<Longrightarrow> m \<in> set (descendantsOf i n) \<Longrightarrow>
   set (descendantsOf m n) \<subseteq> set (descendantsOf i n)"
proof (induction n)
  case (TextNode str)
  then show ?case by simp
next
  case (ElemNode x ks)
  have dk: "distinct (concat (map elemsOf ks))" and xk: "x \<notin> set (concat (map elemsOf ks))"
    using ElemNode.prems(1) by auto
  show ?case
  proof (cases "x = i")
    case True
    then show ?thesis
      using descendantsOf_children [of m "ElemNode x ks"] by (auto simp: childrenOf_def)
  next
    case False
    with ElemNode.prems(2) obtain k where k: "k \<in> set ks" "m \<in> set (descendantsOf i k)"
      by auto
    have mk: "m \<in> set (elemsOf k)" using k(2) descendantsOf_sub by blast
    have mx: "m \<noteq> x" using xk k(1) mk by auto
    have "set (descendantsOf m k') \<subseteq> set (descendantsOf i k')" if k': "k' \<in> set ks" for k'
    proof (cases "k' = k")
      case True
      then show ?thesis using ElemNode.IH [OF k(1) distinct_child [OF dk k(1)] k(2)] by simp
    next
      case False
      have "m \<notin> set (elemsOf k')" using distinct_sibling [OF dk k(1) k' mk] False by auto
      then show ?thesis by (simp add: descendantsOf_absent)
    qed
    with False mx show ?thesis by auto
  qed
qed

lemma root_not_descendant:
  "distinct (elemsOf n) \<Longrightarrow> rootId n = Some r \<Longrightarrow> r \<notin> set (descendantsOf i n)"
proof (cases n)
  case (TextNode str)
  then show ?thesis by simp
next
  case (ElemNode x ks)
  assume d: "distinct (elemsOf n)" and r: "rootId n = Some r"
  have "set (descendantsOf i n) \<subseteq> set (concat (map elemsOf ks))"
    using descendantsOf_children [of i n] ElemNode by (simp add: childrenOf_def)
  moreover have "r \<notin> set (concat (map elemsOf ks))"
    using d r ElemNode by (simp add: rootId_def)
  ultimately show ?thesis by blast
qed

lemma unwrapMark_elems_set:
  assumes "distinct (elemsOf n)" "rootId n \<noteq> Some m"
  shows "set (elemsOf (unwrapMark m n)) = set (elemsOf n) - ({m} \<union> set (descendantsOf m n))"
proof (intro equalityI subsetI)
  fix e assume e: "e \<in> set (elemsOf (unwrapMark m n))"
  have "e \<in> set (elemsOf n)" using e unwrapMark_elems by blast
  moreover have "e \<noteq> m" using e unwrapMark_root_gone [OF assms(2)] by auto
  moreover have "e \<notin> set (descendantsOf m n)"
    using e unwrapMark_below_gone [OF assms] by auto
  ultimately show "e \<in> set (elemsOf n) - ({m} \<union> set (descendantsOf m n))" by simp
next
  fix e assume "e \<in> set (elemsOf n) - ({m} \<union> set (descendantsOf m n))"
  then show "e \<in> set (elemsOf (unwrapMark m n))" by (simp add: unwrapMark_survive)
qed

lemma unwrapMark_desc_set:
  assumes "distinct (elemsOf n)" "rootId n \<noteq> Some m"
  shows "set (descendantsOf i (unwrapMark m n)) =
           set (descendantsOf i n) - ({m} \<union> set (descendantsOf m n))"
proof (intro equalityI subsetI)
  fix e assume e: "e \<in> set (descendantsOf i (unwrapMark m n))"
  then have "e \<in> set (elemsOf (unwrapMark m n))" using descendantsOf_sub by blast
  then have "e \<notin> {m} \<union> set (descendantsOf m n)"
    by (simp add: unwrapMark_elems_set [OF assms])
  moreover have "e \<in> set (descendantsOf i n)" using e unwrapMark_desc by blast
  ultimately show "e \<in> set (descendantsOf i n) - ({m} \<union> set (descendantsOf m n))" by simp
next
  fix e assume e: "e \<in> set (descendantsOf i n) - ({m} \<union> set (descendantsOf m n))"
  then have "e \<in> set (elemsOf n)" using descendantsOf_sub by blast
  with e have "e \<in> set (elemsOf (unwrapMark m n))"
    by (simp add: unwrapMark_elems_set [OF assms])
  with e show "e \<in> set (descendantsOf i (unwrapMark m n))"
    by (simp add: unwrapMark_desc_survive [OF assms(1)])
qed

lemma subseq_distinct: "subseq xs ys \<Longrightarrow> distinct ys \<Longrightarrow> distinct xs"
  by (induction rule: list_emb.induct) (auto dest: list_emb_set)

lemma unwrapMark_distinct: "distinct (elemsOf n) \<Longrightarrow> distinct (elemsOf (unwrapMark m n))"
  using unwrapMark_subseq subseq_distinct by blast

text \<open>The loop of \<open>clearHighlights\<close> on the document.\<close>

lemma fold_unwrap_doc:
  "doc (fold (\<lambda>mark s'. s'\<lparr>doc := unwrapMark mark (doc s')\<rparr>) ms s) =
     fold unwrapMark ms (doc s)"
  by (induction ms arbitrary: s) simp_all

lemma fold_unwrap_sets:
  "distinct (elemsOf n) \<Longrightarrow> \<forall>m \<in> set ms. rootId n \<noteq> Some m \<Longrightarrow>
   set (elemsOf (fold unwrapMark ms n)) =
     set (elemsOf n) - (\<Union>m \<in> set ms. {m} \<union> set (descendantsOf m n)) \<and>
   (\<forall>i. set (descendantsOf i (fold unwrapMark ms n)) =
          set (descendantsOf i n) - (\<Union>m \<in> set ms. {m} \<union> set (descendantsOf m n))) \<and>
   distinct (elemsOf (fold unwrapMark ms n)) \<and>
   rootId (fold unwrapMark ms n) = rootId n \<and>
   subseq (elemsOf (fold unwrapMark ms n)) (elemsOf n)"
proof (induction ms arbitrary: n)
  case Nil
  then show ?case by simp
next
  case (Cons m ms)
  let ?n1 = "unwrapMark m n"
  have r: "rootId n \<noteq> Some m" using Cons.prems(2) by simp
  have d1: "distinct (elemsOf ?n1)" using Cons.prems(1) by (rule unwrapMark_distinct)
  have r1: "\<forall>m' \<in> set ms. rootId ?n1 \<noteq> Some m'" using Cons.prems(2) by simp
  note ih = Cons.IH [OF d1 r1]
  note E = unwrapMark_elems_set [OF Cons.prems(1) r]
  note D = unwrapMark_desc_set [OF Cons.prems(1) r]
  have 1: "set (elemsOf (fold unwrapMark (m # ms) n)) =
     set (elemsOf n) - (\<Union>m \<in> set (m # ms). {m} \<union> set (descendantsOf m n))"
    using ih E D by auto
  have 2: "set (descendantsOf i (fold unwrapMark (m # ms) n)) =
          set (descendantsOf i n) - (\<Union>m \<in> set (m # ms). {m} \<union> set (descendantsOf m n))"
    for i
    using ih D by auto
  have 3: "subseq (elemsOf (fold unwrapMark (m # ms) n)) (elemsOf n)"
    using ih unwrapMark_subseq [of m n] by (auto intro: subseq_order.order_trans)
  show ?case using 1 2 3 ih by simp
qed

lemma clearMarks_fields [simp]:
  "headEl (clearMarks r c s) = headEl s"
  "bodyEl (clearMarks r c s) = bodyEl s"
  "attrs (clearMarks r c s) = attrs s"
  "classList (clearMarks r c s) = classList s"
  "style (clearMarks r c s) = style s"
  "tagName (clearMarks r c s) = tagName s"
  "listeners (clearMarks r c s) = listeners s"
  "animationTimestamps (clearMarks r c s) = animationTimestamps s"
  "dispatched (clearMarks r c s) = dispatched s"
  "scrolledTo (clearMarks r c s) = scrolledTo s"
  "searchState (clearMarks r c s) = searchState s"
  "curFaqInitialized (clearMarks r c s) = curFaqInitialized s"
  "curFaq (clearMarks r c s) = curFaq s"
  "nextElem (clearMarks r c s) = nextElem s"
  by (simp_all add: clearMarks_def)

subsection \<open>Text is kept\<close>

lemma mergeText_text [simp]: "concat (map textOf (mergeText ks)) = concat (map textOf ks)"
  by (induction ks rule: mergeText.induct) auto

lemma normalizeNode_text [simp]: "textOf (normalizeNode n) = textOf n"
proof (induction n rule: normalizeNode.induct)
  case (2 x ks)
  then have "map textOf (map normalizeNode ks) = map textOf ks" by simp
  then show ?case by (simp del: map_map)
qed simp

lemma unwrapMark_text [simp]: "textOf (unwrapMark m n) = textOf n"
proof (induction m n rule: unwrapMark.induct)
  case (2 m x ks)
  show ?case
  proof (cases "\<exists>k \<in> set ks. isElem m k")
    case True
    have "map textOf (map (\<lambda>k. if isElem m k then TextNode (textOf k) else unwrapMark m k) ks)
            = map textOf ks"
      using 2(1) [OF True] by (induction ks) auto
    with True show ?thesis by (simp del: map_map normalizeNode.simps)
  next
    case False
    have "map textOf (map (unwrapMark m) ks) = map textOf ks"
      using 2(2) [OF False] by (induction ks) auto
    with False show ?thesis by (simp del: map_map)
  qed
qed simp

lemma textAt_simps [simp]:
  "textAt e (TextNode str) = []"
  "textAt e (ElemNode x ks) = (if x = e then concat (map textOf ks) else textAts e ks)"
  by (simp_all add: textAt_def)

lemma textAts_Nil [simp]: "textAts e [] = []" by simp

lemma textAts_Cons:
  "textAts e (k # ks) = (if e \<in> set (elemsOf k) then textAt e k else textAts e ks)"
  using findNode_None_iff(1) [of e k]
  by (auto simp: textAt_def split: option.splits)

declare textAts.simps [simp del]

lemma textAts_unique:
  "k \<in> set ks \<Longrightarrow> e \<in> set (elemsOf k) \<Longrightarrow>
   \<forall>k' \<in> set ks. k' \<noteq> k \<longrightarrow> e \<notin> set (elemsOf k') \<Longrightarrow> textAts e ks = textAt e k"
  by (induction ks) (auto simp: textAts_Cons)

lemma textAts_mergeText [simp]: "textAts e (mergeText ks) = textAts e ks"
  apply (induction ks rule: mergeText.induct)
     apply (auto simp: textAts_Cons)
   apply blast+
  done

lemma textAt_normalizeNode [simp]: "textAt e (normalizeNode n) = textAt e n"
proof (induction n)
  case (TextNode str)
  then show ?case by simp
next
  case (ElemNode x ks)
  have a: "map textOf (map normalizeNode ks) = map textOf ks" by simp
  have b: "textAts e (map normalizeNode ks) = textAts e ks"
    using ElemNode.IH by (induction ks) (auto simp: textAts_Cons)
  show ?case using a b by (simp del: map_map)
qed

lemma textAts_absent: "e \<notin> set (concat (map elemsOf ks)) \<Longrightarrow> textAts e ks = []"
  by (induction ks) (auto simp: textAts_Cons)

lemma unwrapMark_textAt:
  "distinct (elemsOf n) \<Longrightarrow> e \<in> set (elemsOf (unwrapMark m n)) \<Longrightarrow>
   textAt e (unwrapMark m n) = textAt e n"
proof (induction n)
  case (TextNode str)
  then show ?case by simp
next
  case (ElemNode x ks)
  let ?g = "\<lambda>k. if isElem m k then TextNode (textOf k) else unwrapMark m k"
  have dk: "distinct (concat (map elemsOf ks))" and xk: "x \<notin> set (concat (map elemsOf ks))"
    using ElemNode.prems(1) by auto
  have shape: "unwrapMark m (ElemNode x ks) = normalizeNode (ElemNode x (map ?g ks)) \<or>
               unwrapMark m (ElemNode x ks) = ElemNode x (map ?g ks)"
  proof (cases "\<exists>k \<in> set ks. isElem m k")
    case True
    then show ?thesis by simp
  next
    case False
    then have "map (unwrapMark m) ks = map ?g ks" by (induction ks) auto
    with False show ?thesis by simp
  qed
  then have red: "textAt e (unwrapMark m (ElemNode x ks)) = textAt e (ElemNode x (map ?g ks))"
    by (auto simp del: unwrapMark.simps normalizeNode.simps)
  have tg: "map textOf (map ?g ks) = map textOf ks" by (induction ks) auto
  show ?case
  proof (cases "x = e")
    case True
    then show ?thesis unfolding red using tg by (simp del: map_map)
  next
    case False
    with ElemNode.prems(2) obtain k where k: "k \<in> set ks" "\<not> isElem m k"
      "e \<in> set (elemsOf (unwrapMark m k))"
      by (auto simp add: unwrapMark_elems_eq simp del: unwrapMark.simps split: if_splits)
    have ek: "e \<in> set (elemsOf k)" using k(3) unwrapMark_elems by blast
    have others: "e \<notin> set (elemsOf k')" if "k' \<in> set ks" "k' \<noteq> k" for k'
      using distinct_sibling [OF dk k(1) that(1) ek] that(2) by auto
    have t0: "textAts e ks = textAt e k"
      using k(1) ek others by (intro textAts_unique) auto
    have gk: "?g k = unwrapMark m k" using k(2) by simp
    have sub: "set (elemsOf (?g k')) \<subseteq> set (elemsOf k')" for k'
      using unwrapMark_elems [of m k'] by auto
    have t1: "textAts e (map ?g ks) = textAt e (?g k)"
    proof (rule textAts_unique)
      show "?g k \<in> set (map ?g ks)" using k(1) by simp
      show "e \<in> set (elemsOf (?g k))" using k(3) gk by simp
      show "\<forall>n \<in> set (map ?g ks). n \<noteq> ?g k \<longrightarrow> e \<notin> set (elemsOf n)"
      proof (intro ballI impI)
        fix n assume n: "n \<in> set (map ?g ks)" "n \<noteq> ?g k"
        then obtain k' where k': "k' \<in> set ks" "n = ?g k'" by auto
        with n have "k' \<noteq> k" by auto
        then have "e \<notin> set (elemsOf k')" using others k'(1) by simp
        then show "e \<notin> set (elemsOf n)" using sub [of k'] k'(2) by auto
      qed
    qed
    have "textAt e (unwrapMark m k) = textAt e k"
      using ElemNode.IH [OF k(1) distinct_child [OF dk k(1)] k(3)] .
    with False t0 t1 gk show ?thesis unfolding red by simp
  qed
qed

lemma fold_unwrap_subseq: "subseq (elemsOf (fold unwrapMark ms n)) (elemsOf n)"
proof (induction ms arbitrary: n)
  case Nil
  then show ?case by simp
next
  case (Cons m ms)
  show ?case
    using subseq_order.order_trans [OF Cons.IH [of "unwrapMark m n"] unwrapMark_subseq [of m n]]
    by simp
qed

lemma fold_unwrap_textAt:
  "distinct (elemsOf n) \<Longrightarrow> e \<in> set (elemsOf (fold unwrapMark ms n)) \<Longrightarrow>
   textAt e (fold unwrapMark ms n) = textAt e n"
proof (induction ms arbitrary: n)
  case Nil
  then show ?case by simp
next
  case (Cons m ms)
  have d1: "distinct (elemsOf (unwrapMark m n))" using Cons.prems(1) by (rule unwrapMark_distinct)
  have e1: "e \<in> set (elemsOf (unwrapMark m n))"
    using fold_unwrap_subseq [of ms "unwrapMark m n"] Cons.prems(2)
    by (auto dest: list_emb_set)
  show ?case
    using Cons.IH [OF d1] Cons.prems(2) unwrapMark_textAt [OF Cons.prems(1) e1] by simp
qed

lemma clearItems_fields [simp]:
  "headEl (clearItems its c s) = headEl s"
  "bodyEl (clearItems its c s) = bodyEl s"
  "attrs (clearItems its c s) = attrs s"
  "classList (clearItems its c s) = classList s"
  "style (clearItems its c s) = style s"
  "tagName (clearItems its c s) = tagName s"
  "listeners (clearItems its c s) = listeners s"
  "animationTimestamps (clearItems its c s) = animationTimestamps s"
  "dispatched (clearItems its c s) = dispatched s"
  "scrolledTo (clearItems its c s) = scrolledTo s"
  "searchState (clearItems its c s) = searchState s"
  "curFaqInitialized (clearItems its c s) = curFaqInitialized s"
  "curFaq (clearItems its c s) = curFaq s"
  "nextElem (clearItems its c s) = nextElem s"
  unfolding clearItems_def by (induction its arbitrary: s; simp)+

lemma clearItems_Cons:
  "clearItems (it # its) c s = clearItems its c (clearMarks (item it) c s)"
  by (simp add: clearItems_def)

lemma markWithClass_cong':
  "tagName s' = tagName s \<Longrightarrow> classList s' = classList s \<Longrightarrow>
   markWithClass c s' = markWithClass c s"
  by (simp add: markWithClass_def fun_eq_iff)

lemma clearMarks_sets:
  fixes r c s
  defines "R \<equiv> (\<Union>m \<in> set (querySelectorAll s r (markWithClass c)).
                   {m} \<union> set (descendantsOf m (doc s)))"
  assumes d: "distinct (elemsOf (doc s))"
  shows "set (elemsOf (doc (clearMarks r c s))) = set (elemsOf (doc s)) - R"
    and "set (descendantsOf i (doc (clearMarks r c s))) = set (descendantsOf i (doc s)) - R"
    and "distinct (elemsOf (doc (clearMarks r c s)))"
    and "rootId (doc (clearMarks r c s)) = rootId (doc s)"
    and "subseq (elemsOf (doc (clearMarks r c s))) (elemsOf (doc s))"
proof -
  let ?ms = "querySelectorAll s r (markWithClass c)"
  have roots: "\<forall>m \<in> set ?ms. rootId (doc s) \<noteq> Some m"
  proof
    fix m assume "m \<in> set ?ms"
    then have "m \<in> set (descendantsOf r (doc s))" by (simp add: querySelectorAll_def)
    then show "rootId (doc s) \<noteq> Some m" using root_not_descendant [OF d] by auto
  qed
  have dc: "doc (clearMarks r c s) = fold unwrapMark ?ms (doc s)"
    by (simp add: clearMarks_def fold_unwrap_doc)
  note f = fold_unwrap_sets [OF d roots]
  show "set (elemsOf (doc (clearMarks r c s))) = set (elemsOf (doc s)) - R"
    unfolding dc R_def using f by blast
  show "set (descendantsOf i (doc (clearMarks r c s))) = set (descendantsOf i (doc s)) - R"
    unfolding dc R_def using f by blast
  show "distinct (elemsOf (doc (clearMarks r c s)))" unfolding dc using f by blast
  show "rootId (doc (clearMarks r c s)) = rootId (doc s)" unfolding dc using f by blast
  show "subseq (elemsOf (doc (clearMarks r c s))) (elemsOf (doc s))" unfolding dc using f by blast
qed

lemma markSubtrees_Nil [simp]: "markSubtrees [] c s = []"
  by (simp add: markSubtrees_def)

lemma markSubtrees_Cons:
  "set (markSubtrees (it # its) c s) =
     (\<Union>m \<in> set (querySelectorAll s (item it) (markWithClass c)).
         {m} \<union> set (descendantsOf m (doc s))) \<union> set (markSubtrees its c s)"
  by (auto simp: markSubtrees_def)

lemma markSubtrees_set:
  "set (markSubtrees its c s) =
     (\<Union>it \<in> set its. \<Union>m \<in> set (querySelectorAll s (item it) (markWithClass c)).
         {m} \<union> set (descendantsOf m (doc s)))"
  by (auto simp: markSubtrees_def)

lemma clearItems_sets:
  "distinct (elemsOf (doc s)) \<Longrightarrow>
   set (elemsOf (doc (clearItems its c s))) = set (elemsOf (doc s)) - set (markSubtrees its c s) \<and>
   (\<forall>i. set (descendantsOf i (doc (clearItems its c s))) =
          set (descendantsOf i (doc s)) - set (markSubtrees its c s)) \<and>
   distinct (elemsOf (doc (clearItems its c s))) \<and>
   rootId (doc (clearItems its c s)) = rootId (doc s) \<and>
   subseq (elemsOf (doc (clearItems its c s))) (elemsOf (doc s))"
proof (induction its arbitrary: s)
  case Nil
  then show ?case by (simp add: clearItems_def)
next
  case (Cons it its)
  let ?s1 = "clearMarks (item it) c s"
  define R1 where "R1 = (\<Union>m \<in> set (querySelectorAll s (item it) (markWithClass c)).
                   {m} \<union> set (descendantsOf m (doc s)))"
  note c1 = clearMarks_sets [OF Cons.prems, where r = "item it" and c = c, folded R1_def]
  note ih = Cons.IH [OF c1(3)]
  have mk: "markWithClass c ?s1 = markWithClass c s" by (rule markWithClass_cong') simp_all
  have closed: "e \<in> R1" if "m' \<in> R1" "e \<in> set (descendantsOf m' (doc s))" for m' e
  proof -
    from that(1) obtain m where m: "m \<in> set (querySelectorAll s (item it) (markWithClass c))"
      and m': "m' = m \<or> m' \<in> set (descendantsOf m (doc s))"
      by (auto simp: R1_def)
    from m' have "e \<in> set (descendantsOf m (doc s))"
    proof
      assume "m' = m" with that(2) show ?thesis by simp
    next
      assume "m' \<in> set (descendantsOf m (doc s))"
      from descendantsOf_trans [OF Cons.prems this] that(2) show ?thesis by blast
    qed
    with m show ?thesis by (auto simp: R1_def)
  qed
  have q1: "set (querySelectorAll ?s1 i (markWithClass c)) =
            set (querySelectorAll s i (markWithClass c)) - R1" for i
    unfolding querySelectorAll_def mk using c1(2) [of i] by auto
  have sub1: "set (markSubtrees its c ?s1) \<subseteq> set (markSubtrees its c s)"
    unfolding markSubtrees_set using q1 c1(2) by auto
  have sub2: "set (markSubtrees its c s) \<subseteq> R1 \<union> set (markSubtrees its c ?s1)"
  proof
    fix e assume "e \<in> set (markSubtrees its c s)"
    then obtain it' m where it': "it' \<in> set its"
      and m: "m \<in> set (querySelectorAll s (item it') (markWithClass c))"
      and e: "e = m \<or> e \<in> set (descendantsOf m (doc s))"
      unfolding markSubtrees_set by auto
    show "e \<in> R1 \<union> set (markSubtrees its c ?s1)"
    proof (cases "m \<in> R1")
      case True
      with e closed [OF True] show ?thesis by auto
    next
      case False
      then have m1: "m \<in> set (querySelectorAll ?s1 (item it') (markWithClass c))"
        using m q1 by simp
      show ?thesis
      proof (cases "e \<in> R1")
        case True
        then show ?thesis by simp
      next
        case False
        with e have "e = m \<or> e \<in> set (descendantsOf m (doc ?s1))"
          using c1(2) [of m] by auto
        with it' m1 have "e \<in> set (markSubtrees its c ?s1)"
          unfolding markSubtrees_set by auto
        then show ?thesis by simp
      qed
    qed
  qed
  have R: "R1 \<union> set (markSubtrees its c ?s1) = set (markSubtrees (it # its) c s)"
    unfolding markSubtrees_Cons R1_def [symmetric] using sub1 sub2 by blast
  have E: "set (elemsOf (doc (clearItems (it # its) c s))) =
           set (elemsOf (doc s)) - set (markSubtrees (it # its) c s)"
    unfolding clearItems_Cons using ih c1(1) R by blast
  have D: "set (descendantsOf i (doc (clearItems (it # its) c s))) =
           set (descendantsOf i (doc s)) - set (markSubtrees (it # its) c s)" for i
    unfolding clearItems_Cons using ih c1(2) [of i] R by blast
  have S: "subseq (elemsOf (doc (clearItems (it # its) c s))) (elemsOf (doc s))"
    unfolding clearItems_Cons using ih c1(5) by (blast intro: subseq_order.order_trans)
  show ?case
    using E D S ih c1(4) by (simp add: clearItems_Cons)
qed

lemma clearItems_textAt:
  "distinct (elemsOf (doc s)) \<Longrightarrow> e \<in> set (elemsOf (doc (clearItems its c s))) \<Longrightarrow>
   textAt e (doc (clearItems its c s)) = textAt e (doc s)"
proof (induction its arbitrary: s)
  case Nil
  then show ?case by (simp add: clearItems_def)
next
  case (Cons it its)
  let ?s1 = "clearMarks (item it) c s"
  note c1 = clearMarks_sets [OF Cons.prems(1), where r = "item it" and c = c]
  have e': "e \<in> set (elemsOf (doc (clearItems its c ?s1)))"
    using Cons.prems(2) by (simp add: clearItems_Cons)
  have e1: "e \<in> set (elemsOf (doc ?s1))"
    using e' clearItems_sets [OF c1(3), of its c] by (auto dest: list_emb_set)
  have "textAt e (doc ?s1) = textAt e (doc s)"
    using fold_unwrap_textAt [OF Cons.prems(1), of e "querySelectorAll s (item it) (markWithClass c)"]
      e1 by (simp add: clearMarks_def fold_unwrap_doc)
  with Cons.IH [OF c1(3) e'] show ?case by (simp add: clearItems_Cons)
qed

lemma clearItems_elems:
  assumes "distinct (elemsOf (doc s))"
  shows "elemsOf (doc (clearItems its c s)) =
           filter (\<lambda>e. e \<notin> set (markSubtrees its c s)) (elemsOf (doc s))"
proof -
  note c = clearItems_sets [OF assms, of its c]
  have "elemsOf (doc (clearItems its c s)) =
        filter (\<lambda>e. e \<in> set (elemsOf (doc (clearItems its c s)))) (elemsOf (doc s))"
    using c assms by (intro subseq_distinct_filter) auto
  also have "\<dots> = filter (\<lambda>e. e \<notin> set (markSubtrees its c s)) (elemsOf (doc s))"
    using c by (intro filter_cong) auto
  finally show ?thesis .
qed

lemma clearHighlights_ident:
  "cssIdent c \<Longrightarrow> clearHighlights B r c s = Some (clearMarks r c s)"
  by (simp add: clearHighlights_def clearMarks_def)

lemma clearAllHighlights_ident:
  assumes "cssIdent (highlightClass (classes cfg))" "cssIdent (currentHighlightClass (classes cfg))"
  shows "clearAllHighlights B its cfg s = Some (clearAll its cfg s)"
proof -
  have 1: "forEachOpt (\<lambda>it. clearHighlights B (item it) (highlightClass (classes cfg))) its s =
           Some (clearItems its (highlightClass (classes cfg)) s)"
    unfolding clearItems_def
    by (rule forEachOpt_total) (simp add: clearHighlights_ident [OF assms(1)])
  show ?thesis
    by (simp add: clearAllHighlights_def 1 removeCurrentClass_ident [OF assms(2)] clearAll_def
          Let_def)
qed

lemma clearAll_fields [simp]:
  "attrs (clearAll its cfg s) = attrs s"
  "tagName (clearAll its cfg s) = tagName s"
  "style (clearAll its cfg s) = style s"
  "dispatched (clearAll its cfg s) = dispatched s"
  "listeners (clearAll its cfg s) = listeners s"
  "animationTimestamps (clearAll its cfg s) = animationTimestamps s"
  "nextElem (clearAll its cfg s) = nextElem s"
  "curFaqInitialized (clearAll its cfg s) = curFaqInitialized s"
  "curFaq (clearAll its cfg s) = curFaq s"
  "headEl (clearAll its cfg s) = headEl s"
  "bodyEl (clearAll its cfg s) = bodyEl s"
  "scrolledTo (clearAll its cfg s) = scrolledTo s"
  "searchState (clearAll its cfg s) = (searchState s)\<lparr>marks := [], currentIndex := - 1\<rparr>"
  "doc (clearAll its cfg s) = doc (clearItems its (highlightClass (classes cfg)) s)"
  by (simp_all add: clearAll_def Let_def)

lemma clearAll_classList:
  "classList (clearAll its cfg s) e =
     (if e \<in> set (elemsOf (doc (clearAll its cfg s)))
      then classList s e - {currentHighlightClass (classes cfg)} else classList s e)"
  by (auto simp add: clearAll_def Let_def fold_classRemove_classList document_querySelectorAll_def
        byClass_def)

lemma updateEmptyState_fields [simp]:
  "attrs (updateEmptyState h s) = attrs s"
  "classList (updateEmptyState h s) = classList s"
  "tagName (updateEmptyState h s) = tagName s"
  "doc (updateEmptyState h s) = doc s"
  "searchState (updateEmptyState h s) = searchState s"
  "dispatched (updateEmptyState h s) = dispatched s"
  "listeners (updateEmptyState h s) = listeners s"
  "animationTimestamps (updateEmptyState h s) = animationTimestamps s"
  "nextElem (updateEmptyState h s) = nextElem s"
  "curFaqInitialized (updateEmptyState h s) = curFaqInitialized s"
  "curFaq (updateEmptyState h s) = curFaq s"
  "headEl (updateEmptyState h s) = headEl s"
  "bodyEl (updateEmptyState h s) = bodyEl s"
  "scrolledTo (updateEmptyState h s) = scrolledTo s"
  by (simp_all add: updateEmptyState_def split: option.splits)

lemma updateEmptyState_style_eq:
  "style (updateEmptyState h s) =
     (case document_querySelector s (hasRole ROLES_emptyState) of
        None \<Rightarrow> style s
      | Some e \<Rightarrow> (style s)(e := (style s e)(''display'' := (if h then Some ''none'' else None))))"
  by (simp add: updateEmptyState_def split: option.splits)

lemma hasRole_cong: "attrs s' = attrs s \<Longrightarrow> hasRole r s' = hasRole r s"
  by (simp add: hasRole_def fun_eq_iff)

lemma markWithClass_cong:
  "tagName s' = tagName s \<Longrightarrow> classList s' = classList s \<Longrightarrow>
   markWithClass c s' = markWithClass c s"
  by (simp add: markWithClass_def fun_eq_iff)

lemma textContent_textAt: "textContent s e = textAt e (doc s)"
  by (simp add: textContent_def textAt_def)

subsection \<open>Searching for nothing\<close>


lemma normalizeText_blank: "normalizeText ''  '' = []" "normalizeText [] = []"
  by (simp_all add: normalizeText_def trim_def toLowerCase_def toLowerChar_def isSpace_def
        upperCaseLetters_def lowerCaseLetters_def)

lemma resultPage_fields:
  "elemsOf (doc resultPage) = [0, 1, 2, 10, 11, 13, 14, 12, 9]"
  "querySelectorAll resultPage 10 (markWithClass ''faq-search-highlight'') = [14]"
  "descendantsOf 14 (doc resultPage) = []"
  "attrs resultPage 10 ATTR_dataOpen = Some ''true''"
  "searchOpenedItems (searchState resultPage) = {10}"
  "textContent resultPage 13 = '' Password reset''"
  by (simp_all add: resultPage_def querySelectorAll_def markWithClass_def textContent_def
        ATTR_element_def ATTR_dataOpen_def ATTR_dataOpenedBySearch_def)

lemma resultPage_role:
  "hasRole ROLES_emptyState resultPage e = (e = 9)"
  by (simp add: hasRole_def resultPage_def answerPage_def blankPage_def ATTR_element_def
        ROLES_defs ROLES_emptyState_def)

lemma resultPage_emptyState:
  "filter (\<lambda>e. hasRole ROLES_emptyState resultPage e \<and> e \<notin> set [14]) (elemsOf (doc resultPage))
     = [9]"
  "filter (\<lambda>e. e \<notin> set [14]) (elemsOf (doc resultPage)) = [0, 1, 2, 10, 11, 13, 12, 9]"
  by (simp_all add: resultPage_role resultPage_fields)



end
